(* ===== verification/Dog_Prelude.thy ===== *)
theory Dog_Prelude
  imports Main "HOL-Library.Word" "HOL-Library.Multiset"
begin

text \<open>
  The vocabulary every component of the model shares: the machine types, what a poll
  returns, the random choice of an iterator, the iteration order of a hash map, and the
  lemma collections the component theories add their facts to.
\<close>

section \<open>Machine types\<close>

type_synonym byte = "8 word"
type_synonym bytes = "byte list"
type_synonym u64 = "64 word"

text \<open>
  Sizes and counters that only grow by one per network message (\<open>usize\<close> lengths,
  \<open>first_time_txs_count\<close>, the \<open>have_tx\<close> counters) are natural numbers. The two
  integers whose width matters, the sequence number (\<open>checked_add\<close>) and the atomic
  length of a send queue (\<open>fetch_sub\<close> wraps), are 64-bit words.
  An \<open>Instant\<close> and a \<open>Duration\<close> are numbers of nanoseconds.
\<close>

type_synonym usize = nat
type_synonym instant = nat
type_synonym duration = nat

definition duration_from_secs :: "nat \<Rightarrow> duration" where
  "duration_from_secs s = s * 1000000000"

section \<open>Polling\<close>

datatype 'a poll = Pending | Ready 'a

fun is_ready :: "'a poll \<Rightarrow> bool" where
  "is_ready Pending = False"
| "is_ready (Ready a) = True"

section \<open>Lemma collections\<close>

named_theorems frame \<open>what an operation leaves unchanged\<close>
named_theorems preserve \<open>operations that keep an invariant\<close>

section \<open>The random choice of an iterator\<close>

text \<open>
  \<open>IteratorRandom::choose\<close> returns one element of the iterator, or \<open>None\<close> when there is
  none. Which one is decided by the draw \<open>r\<close>, an argument of every operation that
  chooses; a statement for all draws is a statement for all choices.
\<close>

definition choose_one :: "nat \<Rightarrow> 'a list \<Rightarrow> 'a option" where
  "choose_one r xs = (if xs = [] then None else Some (xs ! (r mod length xs)))"

lemma choose_one_Nil [simp]: "choose_one r [] = None"
  by (simp add: choose_one_def)

lemma choose_one_eq_None [simp]: "choose_one r xs = None \<longleftrightarrow> xs = []"
  by (simp add: choose_one_def)

lemma choose_one_in_set: "choose_one r xs = Some x \<Longrightarrow> x \<in> set xs"
  by (auto simp: choose_one_def split: if_splits)

lemma choose_one_possible: "x \<in> set xs \<Longrightarrow> \<exists>r. choose_one r xs = Some x"
proof -
  assume "x \<in> set xs"
  then obtain i where "i < length xs" and "xs ! i = x"
    by (auto simp: in_set_conv_nth)
  then have "choose_one i xs = Some x"
    by (auto simp: choose_one_def)
  then show ?thesis ..
qed

section \<open>The iteration order of a hash map\<close>

text \<open>
  A \<open>HashMap\<close> is a map; the order in which it yields its keys is not determined, so an
  operation that iterates over one takes that order as a list, which is
  \<open>key_order\<close> when it names every key once.
\<close>

definition key_order :: "'k list \<Rightarrow> ('k \<rightharpoonup> 'v) \<Rightarrow> bool" where
  "key_order ks m \<longleftrightarrow> distinct ks \<and> set ks = dom m"

lemma key_order_distinct: "key_order ks m \<Longrightarrow> distinct ks"
  by (simp add: key_order_def)

lemma key_order_set: "key_order ks m \<Longrightarrow> set ks = dom m"
  by (simp add: key_order_def)

lemma key_order_empty [simp]: "key_order ks Map.empty \<longleftrightarrow> ks = []"
  by (auto simp: key_order_def)

lemma key_order_cong: "dom m = dom m' \<Longrightarrow> key_order ks m = key_order ks m'"
  by (simp add: key_order_def)

section \<open>Removing the element at an index\<close>

text \<open>\<open>Vec::remove\<close> at an index in range; the model calls it only with such an index.\<close>

definition remove_at :: "nat \<Rightarrow> 'a list \<Rightarrow> 'a list" where
  "remove_at i xs = take i xs @ drop (Suc i) xs"

lemma mset_remove_at: "i < length xs \<Longrightarrow> mset (remove_at i xs) = mset xs - {#xs ! i#}"
proof -
  assume i: "i < length xs"
  then have "mset xs = mset (take i xs @ xs ! i # drop (Suc i) xs)"
    by (simp add: id_take_nth_drop [symmetric])
  then show ?thesis by (simp add: remove_at_def)
qed

lemma length_remove_at: "i < length xs \<Longrightarrow> length (remove_at i xs) = length xs - 1"
  by (simp add: remove_at_def)

lemma set_remove_at_subset: "set (remove_at i xs) \<subseteq> set xs"
  by (auto simp: remove_at_def dest: in_set_takeD in_set_dropD)

end
