(* ===== verification/Dog_Types.thy ===== *)
theory Dog_Types
  imports Dog_Prelude "HOL-Library.List_Lexorder"
begin

text \<open>
  The data of the protocol (\<open>types.rs\<close>, \<open>error.rs\<close>, the event of \<open>handler.rs\<close>), the
  protobuf structures they are converted to, and the conversions.

  The type variables stand for types of libp2p: \<open>'p\<close> for \<open>PeerId\<close>, \<open>'k\<close> for
  \<open>Keypair\<close>, \<open>'pk\<close> for \<open>PublicKey\<close>. An \<open>io::Error\<close> and a \<open>SigningError\<close> are
  only passed on; they are their message.
\<close>

section \<open>Transaction identifiers\<close>

datatype transaction_id = TransactionId (id_bytes: bytes)

definition transaction_id_new :: "bytes \<Rightarrow> transaction_id" where
  "transaction_id_new v = TransactionId v"

text \<open>The derived \<open>PartialOrd\<close> and \<open>Ord\<close>: lexicographic on the bytes.\<close>

instantiation transaction_id :: linorder
begin

definition less_eq_transaction_id :: "transaction_id \<Rightarrow> transaction_id \<Rightarrow> bool" where
  "less_eq_transaction_id a b \<longleftrightarrow> id_bytes a \<le> id_bytes b"

definition less_transaction_id :: "transaction_id \<Rightarrow> transaction_id \<Rightarrow> bool" where
  "less_transaction_id a b \<longleftrightarrow> id_bytes a < id_bytes b"

instance
proof
  fix a b c :: transaction_id
  show "a < b \<longleftrightarrow> a \<le> b \<and> \<not> b \<le> a"
    by (auto simp: less_eq_transaction_id_def less_transaction_id_def)
  show "a \<le> a" by (simp add: less_eq_transaction_id_def)
  show "a \<le> c" if "a \<le> b" and "b \<le> c"
    using that unfolding less_eq_transaction_id_def by (rule order_trans)
  show "a = b" if "a \<le> b" and "b \<le> a"
    using that by (cases a; cases b) (simp add: less_eq_transaction_id_def)
  show "a \<le> b \<or> b \<le> a" by (auto simp: less_eq_transaction_id_def)
qed

end

section \<open>Transactions\<close>

record 'p raw_transaction =
  raw_from :: 'p
  raw_seqno :: u64
  raw_data :: bytes
  raw_signature :: "bytes option"
  raw_key :: "bytes option"

record 'p transaction =
  tx_from :: 'p
  tx_seqno :: u64
  tx_data :: bytes

section \<open>Control messages and RPCs\<close>

record have_tx =
  have_tx_id :: transaction_id

datatype reset_route = ResetRoute

datatype control_action = HaveTxAction have_tx | ResetRouteAction reset_route

text \<open>
  A \<open>Delay\<close> is the instant it was created at and the duration it was created with. Whether
  it has elapsed when it is polled is the environment's answer, an argument of every
  operation that polls one.
\<close>

datatype delay = Delay (delay_start: instant) (delay_duration: duration)

datatype 'p rpc_out =
    Publish "'p raw_transaction" delay
  | Forward "'p raw_transaction" delay
  | HaveTx have_tx
  | SendResetRoute reset_route

record 'p rpc =
  rpc_transactions :: "'p raw_transaction list"
  rpc_control_msgs :: "control_action list"

section \<open>Errors\<close>

type_synonym io_error = string
type_synonym signing_error = string

datatype publish_error =
    Duplicate
  | SigningError signing_error
  | InsufficientPeers
  | TransactionTooLarge
  | TransformFailed io_error
  | AllQueuesFull usize

datatype validation_error = InvalidPeerId | InvalidSignature

fun publish_error_source :: "publish_error \<Rightarrow> io_error option" where
  "publish_error_source (TransformFailed err) = Some err"
| "publish_error_source _ = None"

definition publish_error_of_io :: "io_error \<Rightarrow> publish_error" where
  "publish_error_of_io err = TransformFailed err"

definition publish_error_of_signing :: "signing_error \<Rightarrow> publish_error" where
  "publish_error_of_signing err = SigningError err"

section \<open>What a connection handler reports\<close>

datatype 'p handler_event =
    TransactionEvent (event_rpc: "'p rpc")
      (event_invalid: "('p raw_transaction \<times> validation_error) list")
  | TransactionDropped "'p rpc_out"

section \<open>The protobuf structures\<close>

text \<open>The generated structures, with the fields the conversions name.\<close>

record proto_transaction =
  proto_from :: bytes
  proto_seqno :: u64
  proto_data :: bytes
  proto_signature :: bytes
  proto_key :: bytes

record proto_control_have_tx =
  proto_tx_id :: bytes

datatype proto_control_reset_route = ProtoResetRoute

record proto_control =
  proto_have_tx :: "proto_control_have_tx list"
  proto_reset_route :: "proto_control_reset_route list"

record proto_rpc =
  proto_txs :: "proto_transaction list"
  proto_control_msg :: "proto_control option"

section \<open>The functions of libp2p and of the generated protobuf code\<close>

text \<open>
  What the crate calls and does not contain: the conversions of a \<open>PeerId\<close>, the keys, and
  the generated size and encoding of a protobuf transaction. They are arguments of the
  definitions that use them, gathered in one record.
\<close>

record ('p, 'k, 'pk) libp2p_ops =
  peer_to_bytes :: "'p \<Rightarrow> bytes"
  peer_from_bytes :: "bytes \<Rightarrow> 'p option"
  peer_to_base58 :: "'p \<Rightarrow> string"
  keypair_public :: "'k \<Rightarrow> 'pk"
  keypair_sign :: "'k \<Rightarrow> bytes \<Rightarrow> signing_error + bytes"
  public_key_encode :: "'pk \<Rightarrow> bytes"
  public_key_decode :: "bytes \<Rightarrow> 'pk option"
  public_key_to_peer_id :: "'pk \<Rightarrow> 'p"
  public_key_verify :: "'pk \<Rightarrow> bytes \<Rightarrow> bytes \<Rightarrow> bool"
  proto_tx_get_size :: "proto_transaction \<Rightarrow> nat"
  proto_tx_write :: "proto_transaction \<Rightarrow> bytes"

section \<open>Conversions\<close>

definition proto_of_raw_transaction ::
  "('p, 'k, 'pk) libp2p_ops \<Rightarrow> 'p raw_transaction \<Rightarrow> proto_transaction" where
  "proto_of_raw_transaction I tx =
     \<lparr>proto_from = peer_to_bytes I (raw_from tx),
      proto_seqno = raw_seqno tx,
      proto_data = raw_data tx,
      proto_signature = (case raw_signature tx of Some sig \<Rightarrow> sig | None \<Rightarrow> []),
      proto_key = (case raw_key tx of Some key \<Rightarrow> key | None \<Rightarrow> [])\<rparr>"

definition raw_protobuf_len :: "('p, 'k, 'pk) libp2p_ops \<Rightarrow> 'p raw_transaction \<Rightarrow> usize" where
  "raw_protobuf_len I tx = proto_tx_get_size I (proto_of_raw_transaction I tx)"

text \<open>\<open>HaveTx::try_from\<close> has an error type, but no failing case.\<close>

definition have_tx_try_from :: "proto_control_have_tx \<Rightarrow> string + have_tx" where
  "have_tx_try_from h = Inr \<lparr>have_tx_id = transaction_id_new (proto_tx_id h)\<rparr>"

definition proto_of_have_tx :: "have_tx \<Rightarrow> proto_control_have_tx" where
  "proto_of_have_tx h = \<lparr>proto_tx_id = id_bytes (have_tx_id h)\<rparr>"

definition proto_of_reset_route :: "reset_route \<Rightarrow> proto_control_reset_route" where
  "proto_of_reset_route r = ProtoResetRoute"

fun proto_of_rpc_out :: "('p, 'k, 'pk) libp2p_ops \<Rightarrow> 'p rpc_out \<Rightarrow> proto_rpc" where
  "proto_of_rpc_out I (Publish tx timeout) =
     \<lparr>proto_txs = [proto_of_raw_transaction I tx], proto_control_msg = None\<rparr>"
| "proto_of_rpc_out I (Forward tx timeout) =
     \<lparr>proto_txs = [proto_of_raw_transaction I tx], proto_control_msg = None\<rparr>"
| "proto_of_rpc_out I (HaveTx h) =
     \<lparr>proto_txs = [],
      proto_control_msg = Some \<lparr>proto_have_tx = [proto_of_have_tx h], proto_reset_route = []\<rparr>\<rparr>"
| "proto_of_rpc_out I (SendResetRoute r) =
     \<lparr>proto_txs = [],
      proto_control_msg =
        Some \<lparr>proto_have_tx = [], proto_reset_route = [proto_of_reset_route r]\<rparr>\<rparr>"

definition rpc_out_into_protobuf :: "('p, 'k, 'pk) libp2p_ops \<Rightarrow> 'p rpc_out \<Rightarrow> proto_rpc" where
  "rpc_out_into_protobuf I r = proto_of_rpc_out I r"

fun have_tx_of_action :: "control_action \<Rightarrow> have_tx option" where
  "have_tx_of_action (HaveTxAction h) = Some h"
| "have_tx_of_action _ = None"

fun reset_route_of_action :: "control_action \<Rightarrow> reset_route option" where
  "reset_route_of_action (ResetRouteAction r) = Some r"
| "reset_route_of_action _ = None"

definition proto_of_rpc :: "('p, 'k, 'pk) libp2p_ops \<Rightarrow> 'p rpc \<Rightarrow> proto_rpc" where
  "proto_of_rpc I r =
     \<lparr>proto_txs = map (proto_of_raw_transaction I) (rpc_transactions r),
      proto_control_msg =
        Some \<lparr>proto_have_tx =
                map proto_of_have_tx (List.map_filter have_tx_of_action (rpc_control_msgs r)),
              proto_reset_route =
                map proto_of_reset_route
                  (List.map_filter reset_route_of_action (rpc_control_msgs r))\<rparr>\<rparr>"

definition rpc_into_protobuf :: "('p, 'k, 'pk) libp2p_ops \<Rightarrow> 'p rpc \<Rightarrow> proto_rpc" where
  "rpc_into_protobuf I r = proto_of_rpc I r"

text \<open>Which messages carry a transaction, and which are control messages.\<close>

fun is_publish :: "'p rpc_out \<Rightarrow> bool" where
  "is_publish (Publish tx timeout) = True"
| "is_publish _ = False"

fun is_forward :: "'p rpc_out \<Rightarrow> bool" where
  "is_forward (Forward tx timeout) = True"
| "is_forward _ = False"

lemma publish_not_forward: "is_publish r \<Longrightarrow> \<not> is_forward r"
  by (cases r) auto

lemma have_tx_roundtrip: "have_tx_try_from (proto_of_have_tx h) = Inr h"
  by (cases h) (simp add: have_tx_try_from_def proto_of_have_tx_def transaction_id_new_def)

end
