(* ===== verification/Dog_Transform.thy ===== *)
theory Dog_Transform
  imports Dog_Types
begin

text \<open>
  The data transform of \<open>transform.rs\<close>: the trait as a record of its two methods, the
  identity transform, and the contract the trait documents as a locale.
\<close>

record 'p data_transform =
  inbound_transform :: "'p raw_transaction \<Rightarrow> io_error + 'p transaction"
  outbound_transform :: "bytes \<Rightarrow> io_error + bytes"

definition identity_inbound :: "'p raw_transaction \<Rightarrow> io_error + 'p transaction" where
  "identity_inbound raw =
     Inr \<lparr>tx_from = raw_from raw, tx_seqno = raw_seqno raw, tx_data = raw_data raw\<rparr>"

definition identity_outbound :: "bytes \<Rightarrow> io_error + bytes" where
  "identity_outbound d = Inr d"

definition identity_transform :: "'p data_transform" where
  "identity_transform =
     \<lparr>inbound_transform = identity_inbound, outbound_transform = identity_outbound\<rparr>"

text \<open>
  The contract: what the outbound transform makes of some data, the inbound transform turns
  back into a transaction with that data and with the author and sequence number of the
  raw transaction.
\<close>

locale inverse_transform =
  fixes D :: "'a data_transform"
  assumes inbound_outbound:
    "outbound_transform D d = Inr d' \<Longrightarrow> raw_data raw = d' \<Longrightarrow>
     inbound_transform D raw =
       Inr \<lparr>tx_from = raw_from raw, tx_seqno = raw_seqno raw, tx_data = d\<rparr>"
begin

text \<open>Two messages with the same transformed data carry the same data.\<close>

lemma outbound_injective:
  assumes "outbound_transform D d = Inr t" and "outbound_transform D e = Inr t"
  shows "d = e"
proof -
  define raw :: "'a raw_transaction" where
    "raw = \<lparr>raw_from = undefined, raw_seqno = 0, raw_data = t, raw_signature = None, raw_key = None\<rparr>"
  have "inbound_transform D raw = Inr \<lparr>tx_from = raw_from raw, tx_seqno = raw_seqno raw, tx_data = d\<rparr>"
    by (rule inbound_outbound [OF assms(1)]) (simp add: raw_def)
  moreover have "inbound_transform D raw = Inr \<lparr>tx_from = raw_from raw, tx_seqno = raw_seqno raw, tx_data = e\<rparr>"
    by (rule inbound_outbound [OF assms(2)]) (simp add: raw_def)
  ultimately show ?thesis by simp
qed

end

interpretation identity_tr: inverse_transform identity_transform
  by unfold_locales (auto simp: identity_transform_def identity_inbound_def identity_outbound_def)

end
