(* ===== verification/Dog_Time_Cache.thy ===== *)
theory Dog_Time_Cache
  imports Dog_Prelude
begin

text \<open>
  The duplicate cache of \<open>time_cache.rs\<close>: a map of values, the list of its keys in the
  order they expire, and a stored length. Its specification is a map from keys to values
  with their expiration; the operations refine it as long as the clock does not run
  backwards.
\<close>

section \<open>The cache\<close>

record 'k expiring_entry =
  entry_key :: 'k
  entry_expiration :: instant

record ('k, 'v) duplicate_cache =
  cache_count :: usize
  cache_values :: "'k \<rightharpoonup> 'v"
  cache_list :: "'k expiring_entry list"
  cache_ttl :: duration

definition cache_new :: "duration \<Rightarrow> ('k, 'v) duplicate_cache" where
  "cache_new ttl =
     \<lparr>cache_count = 0, cache_values = Map.empty, cache_list = [], cache_ttl = ttl\<rparr>"

text \<open>
  The loop pops entries from the front until one has not expired; that one goes back.
  The decrement of the length is \<open>usize\<close> arithmetic: \<open>remove_expired_values_shape\<close> below
  shows that it never runs on 0.
\<close>

function remove_expired_values ::
  "instant \<Rightarrow> ('k, 'v) duplicate_cache \<Rightarrow> ('k, 'v) duplicate_cache" where
  "remove_expired_values now c =
     (case cache_list c of
        [] \<Rightarrow> c
      | entry # rest \<Rightarrow>
          if entry_expiration entry > now then c
          else remove_expired_values now
                 (c\<lparr>cache_list := rest,
                    cache_count := cache_count c - 1,
                    cache_values := (cache_values c)(entry_key entry := None)\<rparr>))"
  by pat_completeness auto
termination
  by (relation "measure (\<lambda>(now, c). length (cache_list c))") auto

declare remove_expired_values.simps [simp del]

definition cache_insert ::
  "instant \<Rightarrow> 'k \<Rightarrow> 'v \<Rightarrow> ('k, 'v) duplicate_cache \<Rightarrow> bool \<times> ('k, 'v) duplicate_cache" where
  "cache_insert now key value c =
     (let c = remove_expired_values now c
      in if cache_values c key = None
         then (True,
               c\<lparr>cache_values := (cache_values c)(key \<mapsto> value),
                 cache_count := cache_count c + 1,
                 cache_list := cache_list c
                   @ [\<lparr>entry_key = key, entry_expiration = now + cache_ttl c\<rparr>]\<rparr>)
         else (False, c))"

definition cache_contains :: "'k \<Rightarrow> ('k, 'v) duplicate_cache \<Rightarrow> bool" where
  "cache_contains key c \<longleftrightarrow> cache_values c key \<noteq> None"

definition cache_get :: "'k \<Rightarrow> ('k, 'v) duplicate_cache \<Rightarrow> 'v option" where
  "cache_get key c = cache_values c key"

definition cache_len :: "('k, 'v) duplicate_cache \<Rightarrow> usize" where
  "cache_len c = cache_count c"

section \<open>The invariant\<close>

text \<open>
  The list names every key of the map once, its length is the stored one, and it is
  ordered by expiration. \<open>cache_inv t\<close> adds that no entry expires later than a
  value inserted at time \<open>t\<close> would.
\<close>

definition cache_shape :: "('k, 'v) duplicate_cache \<Rightarrow> bool" where
  "cache_shape c \<longleftrightarrow>
     cache_count c = length (cache_list c)
     \<and> distinct (map entry_key (cache_list c))
     \<and> entry_key ` set (cache_list c) = dom (cache_values c)"

definition cache_inv :: "instant \<Rightarrow> ('k, 'v) duplicate_cache \<Rightarrow> bool" where
  "cache_inv t c \<longleftrightarrow>
     cache_shape c
     \<and> sorted (map entry_expiration (cache_list c))
     \<and> (\<forall>e \<in> set (cache_list c). entry_expiration e \<le> t + cache_ttl c)"

lemma cache_inv_new [simp]: "cache_inv t (cache_new ttl)"
  by (simp add: cache_inv_def cache_shape_def cache_new_def)

lemma cache_inv_later: "cache_inv t c \<Longrightarrow> t \<le> t' \<Longrightarrow> cache_inv t' c"
  unfolding cache_inv_def by fastforce

lemma cache_shape_len: "cache_shape c \<Longrightarrow> cache_len c = card (dom (cache_values c))"
  unfolding cache_shape_def cache_len_def
  by (metis distinct_card length_map list.set_map)

section \<open>What the loop computes\<close>

lemma remove_expired_values_shape:
  assumes "cache_shape c"
  shows "remove_expired_values now c =
    (let rest = dropWhile (\<lambda>e. entry_expiration e \<le> now) (cache_list c)
     in c\<lparr>cache_list := rest, cache_count := length rest,
          cache_values := cache_values c |` (entry_key ` set rest)\<rparr>)"
  using assms
proof (induction now c rule: remove_expired_values.induct)
  case (1 now c)
  have restrict_all: "cache_values c |` (entry_key ` set (cache_list c)) = cache_values c"
    using "1.prems" by (auto simp: cache_shape_def restrict_map_def fun_eq_iff)
  show ?case
  proof (cases "cache_list c")
    case Nil
    with "1.prems" have "dom (cache_values c) = {}" and "cache_count c = 0"
      by (simp_all add: cache_shape_def)
    with Nil show ?thesis
      by (cases c) (simp add: remove_expired_values.simps)
  next
    case (Cons entry rest)
    show ?thesis
    proof (cases "entry_expiration entry > now")
      case True
      with Cons "1.prems" restrict_all show ?thesis
        by (simp add: remove_expired_values.simps [of now c] cache_shape_def Let_def)
    next
      case False
      let ?c = "c\<lparr>cache_list := rest, cache_count := cache_count c - 1,
        cache_values := (cache_values c)(entry_key entry := None)\<rparr>"
      have shape: "cache_shape ?c"
        using "1.prems" Cons by (auto simp: cache_shape_def) (metis image_eqI)
      let ?rest = "dropWhile (\<lambda>e. entry_expiration e \<le> now) rest"
      have "entry_key entry \<notin> entry_key ` set ?rest"
        using "1.prems" Cons by (auto simp: cache_shape_def dest!: set_dropWhileD)
      then have restr: "(cache_values c)(entry_key entry := None) |` (entry_key ` set ?rest)
          = cache_values c |` (entry_key ` set ?rest)"
        by (auto simp: restrict_map_def)
      let ?F = "\<lambda>vals. c\<lparr>cache_list := ?rest, cache_count := length ?rest, cache_values := vals\<rparr>"
      have "remove_expired_values now c = remove_expired_values now ?c"
        using False Cons by (simp add: remove_expired_values.simps [of now c])
      also have "\<dots> = ?F ((cache_values c)(entry_key entry := None) |` (entry_key ` set ?rest))"
        using "1.IH" [OF Cons False shape] by (simp add: Let_def del: restrict_fun_upd fun_upd_apply)
      also have "\<dots> = ?F (cache_values c |` (entry_key ` set ?rest))"
        by (simp only: restr)
      finally show ?thesis using False Cons by (simp add: Let_def)
    qed
  qed
qed

lemma dropWhile_sorted_filter:
  "sorted (map f xs) \<Longrightarrow> dropWhile (\<lambda>x. f x \<le> (t :: nat)) xs = filter (\<lambda>x. t < f x) xs"
  by (induction xs) (auto simp: filter_id_conv less_le_trans)

text \<open>Under the invariant the loop keeps exactly the entries that have not expired.\<close>

lemma remove_expired_values_list:
  assumes "cache_inv t c"
  shows "cache_list (remove_expired_values now c)
    = filter (\<lambda>e. now < entry_expiration e) (cache_list c)"
  using assms by (simp add: cache_inv_def remove_expired_values_shape Let_def dropWhile_sorted_filter)

lemma remove_expired_values_ttl [frame]:
  "cache_shape c \<Longrightarrow> cache_ttl (remove_expired_values now c) = cache_ttl c"
  by (simp add: remove_expired_values_shape Let_def)

lemma remove_expired_values_inv [preserve]:
  assumes "cache_inv t c"
  shows "cache_inv t (remove_expired_values now c)"
proof -
  let ?rest = "dropWhile (\<lambda>e. entry_expiration e \<le> now) (cache_list c)"
  from assms have shape: "cache_shape c" by (simp add: cache_inv_def)
  have "set ?rest \<subseteq> set (cache_list c)" by (auto dest: set_dropWhileD)
  then have sub: "entry_key ` set ?rest \<subseteq> dom (cache_values c)"
    using shape unfolding cache_shape_def by (metis image_mono)
  have "distinct (map entry_key ?rest)"
    using shape \<open>set ?rest \<subseteq> set (cache_list c)\<close>
    by (auto simp: cache_shape_def distinct_map intro: inj_on_subset)
  moreover have "sorted (map entry_expiration ?rest)"
    using assms by (simp add: cache_inv_def dropWhile_sorted_filter sorted_filter)
  ultimately show ?thesis
    using assms sub
    by (auto simp: cache_inv_def remove_expired_values_shape [OF shape] Let_def cache_shape_def
        dest: set_dropWhileD)
qed

section \<open>The specification: a map with expirations\<close>

type_synonym ('k, 'v) timed_map = "'k \<rightharpoonup> 'v \<times> instant"

definition timed_purge :: "instant \<Rightarrow> ('k, 'v) timed_map \<Rightarrow> ('k, 'v) timed_map" where
  "timed_purge now m =
     (\<lambda>k. case m k of Some (v, e) \<Rightarrow> if now < e then Some (v, e) else None | None \<Rightarrow> None)"

definition timed_insert ::
  "duration \<Rightarrow> instant \<Rightarrow> 'k \<Rightarrow> 'v \<Rightarrow> ('k, 'v) timed_map \<Rightarrow> bool \<times> ('k, 'v) timed_map" where
  "timed_insert ttl now k v m =
     (let m = timed_purge now m
      in if m k = None then (True, m(k \<mapsto> (v, now + ttl))) else (False, m))"

definition timed_of :: "('k, 'v) duplicate_cache \<Rightarrow> ('k, 'v) timed_map" where
  "timed_of c =
     (\<lambda>k. case cache_values c k of
            None \<Rightarrow> None
          | Some v \<Rightarrow> map_option (\<lambda>e. (v, entry_expiration e))
                        (List.find (\<lambda>e. entry_key e = k) (cache_list c)))"

lemma find_key_distinct:
  "distinct (map entry_key xs) \<Longrightarrow> e \<in> set xs \<Longrightarrow>
   List.find (\<lambda>e'. entry_key e' = entry_key e) xs = Some e"
  by (induction xs) auto

lemma find_key_eq_None: "List.find (\<lambda>e. entry_key e = k) xs = None \<longleftrightarrow> k \<notin> entry_key ` set xs"
  by (auto simp: find_None_iff)

text \<open>How the abstraction reads an entry, and that it loses no key.\<close>

lemma timed_of_eq_None: "cache_shape c \<Longrightarrow> timed_of c k = None \<longleftrightarrow> cache_values c k = None"
  by (auto simp: timed_of_def cache_shape_def find_key_eq_None split: option.splits)

lemma timed_of_entry:
  assumes "cache_shape c" and "e \<in> set (cache_list c)"
  shows "timed_of c (entry_key e) = Some (the (cache_values c (entry_key e)), entry_expiration e)"
proof -
  have "entry_key e \<in> dom (cache_values c)" using assms by (auto simp: cache_shape_def)
  then show ?thesis
    using assms find_key_distinct [of "cache_list c" e]
    by (auto simp: timed_of_def cache_shape_def)
qed

lemma timed_of_cases:
  assumes "cache_shape c"
  obtains "timed_of c k = None" "k \<notin> entry_key ` set (cache_list c)" "cache_values c k = None"
  | e where "e \<in> set (cache_list c)" "entry_key e = k" "cache_values c k \<noteq> None"
      "timed_of c k = Some (the (cache_values c k), entry_expiration e)"
proof (cases "cache_values c k")
  case None
  moreover from this assms have "timed_of c k = None" by (simp add: timed_of_eq_None)
  moreover from None assms have "k \<notin> entry_key ` set (cache_list c)"
    by (simp add: cache_shape_def domIff)
  ultimately show ?thesis using that(1) by blast
next
  case (Some v)
  with assms have "k \<in> entry_key ` set (cache_list c)" by (simp add: cache_shape_def domIff)
  then obtain e where "e \<in> set (cache_list c)" and "entry_key e = k" by auto
  with Some show ?thesis using that(2) timed_of_entry [OF assms] by auto
qed

lemma timed_of_purge:
  assumes "cache_inv t c"
  shows "timed_of (remove_expired_values now c) = timed_purge now (timed_of c)"
proof
  fix k
  let ?c = "remove_expired_values now c"
  from assms have shape: "cache_shape c" and shape': "cache_shape ?c"
    using remove_expired_values_inv [OF assms, of now] by (auto simp: cache_inv_def)
  have list: "cache_list ?c = filter (\<lambda>e. now < entry_expiration e) (cache_list c)"
    by (rule remove_expired_values_list [OF assms])
  have vals: "cache_values ?c = cache_values c |` (entry_key ` set (cache_list ?c))"
    using shape by (simp add: remove_expired_values_shape Let_def)
  show "timed_of ?c k = timed_purge now (timed_of c) k"
  proof (rule timed_of_cases [OF shape, of k])
    assume "timed_of c k = None" and "cache_values c k = None"
    with shape' show ?thesis by (simp add: timed_purge_def timed_of_eq_None vals restrict_map_def)
  next
    fix e
    assume e: "e \<in> set (cache_list c)" "entry_key e = k"
      and some: "timed_of c k = Some (the (cache_values c k), entry_expiration e)"
    show ?thesis
    proof (cases "now < entry_expiration e")
      case True
      with e have "e \<in> set (cache_list ?c)" by (simp add: list)
      with True e some timed_of_entry [OF shape', of e] show ?thesis
        by (auto simp: timed_purge_def vals restrict_map_def)
    next
      case False
      have "k \<notin> entry_key ` set (cache_list ?c)"
      proof
        assume "k \<in> entry_key ` set (cache_list ?c)"
        then obtain e' where e': "e' \<in> set (cache_list c)" "entry_key e' = k" "now < entry_expiration e'"
          by (auto simp: list)
        with e have "e' = e"
          using shape by (auto simp: cache_shape_def distinct_map dest: inj_onD)
        with e' False show False by simp
      qed
      then have "cache_values ?c k = None" by (simp add: vals restrict_map_def)
      with shape' have "timed_of ?c k = None" by (simp add: timed_of_eq_None)
      with False some show ?thesis by (simp add: timed_purge_def)
    qed
  qed
qed


section \<open>Insertion refines the specification\<close>

lemma cache_insert_inv [preserve]:
  assumes "cache_inv t c" and "t \<le> now"
  shows "cache_inv now (snd (cache_insert now k v c))"
proof -
  let ?c = "remove_expired_values now c"
  have inv: "cache_inv now ?c"
    using assms by (meson cache_inv_later remove_expired_values_inv)
  then have old: "\<forall>e \<in> set (cache_list ?c). entry_expiration e \<le> now + cache_ttl ?c"
    by (simp add: cache_inv_def)
  show ?thesis
  proof (cases "cache_values ?c k")
    case None
    then have "k \<notin> entry_key ` set (cache_list ?c)"
      using inv by (auto simp: cache_inv_def cache_shape_def)
    with None inv old show ?thesis
      by (auto simp: cache_insert_def Let_def cache_inv_def cache_shape_def sorted_append)
  qed (use inv in \<open>simp add: cache_insert_def Let_def\<close>)
qed

lemma cache_insert_ttl [frame]:
  "cache_shape c \<Longrightarrow> cache_ttl (snd (cache_insert now k v c)) = cache_ttl c"
  by (simp add: cache_insert_def Let_def frame)

text \<open>The abstraction of a cache with one more entry at the end of its list.\<close>

lemma timed_of_snoc:
  assumes "cache_shape c" and "cache_values c k = None"
  shows "timed_of (c\<lparr>cache_values := (cache_values c)(k \<mapsto> v), cache_count := n,
      cache_list := cache_list c @ [\<lparr>entry_key = k, entry_expiration = e\<rparr>]\<rparr>)
    = (timed_of c)(k \<mapsto> (v, e))"
proof
  fix k'
  have find: "List.find P (xs @ ys) = (case List.find P xs of None \<Rightarrow> List.find P ys | Some x \<Rightarrow> Some x)"
    for P and xs ys :: "'a expiring_entry list"
    by (induction xs) auto
  have "k \<notin> entry_key ` set (cache_list c)"
    using assms by (auto simp: cache_shape_def)
  then have "List.find (\<lambda>e. entry_key e = k) (cache_list c) = None"
    by (simp add: find_key_eq_None)
  then show "timed_of (c\<lparr>cache_values := (cache_values c)(k \<mapsto> v), cache_count := n,
      cache_list := cache_list c @ [\<lparr>entry_key = k, entry_expiration = e\<rparr>]\<rparr>) k'
    = ((timed_of c)(k \<mapsto> (v, e))) k'"
    by (auto simp: timed_of_def find split: option.splits)
qed

lemma cache_insert_refines:
  assumes "cache_inv t c"
  shows "timed_insert (cache_ttl c) now k v (timed_of c)
    = (fst (cache_insert now k v c), timed_of (snd (cache_insert now k v c)))"
proof -
  let ?c = "remove_expired_values now c"
  have shape: "cache_shape c" "cache_shape ?c"
    using assms remove_expired_values_inv [OF assms, of now] by (auto simp: cache_inv_def)
  have "timed_purge now (timed_of c) k = None \<longleftrightarrow> cache_values ?c k = None"
    using timed_of_purge [OF assms, of now] timed_of_eq_None [OF shape(2)] by metis
  then show ?thesis
    using shape
    by (auto simp: timed_insert_def cache_insert_def Let_def timed_of_snoc
        timed_of_purge [OF assms, symmetric] frame)
qed

lemma cache_insert_fst:
  "cache_inv t c \<Longrightarrow> fst (cache_insert now k v c) = fst (timed_insert (cache_ttl c) now k v (timed_of c))"
  by (simp add: cache_insert_refines)

lemma cache_insert_snd:
  "cache_inv t c \<Longrightarrow>
   timed_of (snd (cache_insert now k v c)) = snd (timed_insert (cache_ttl c) now k v (timed_of c))"
  by (simp add: cache_insert_refines)

lemma cache_insert_contains: "cache_contains k (snd (cache_insert now k v c))"
  by (auto simp: cache_insert_def Let_def cache_contains_def)

lemma cache_contains_timed: "cache_shape c \<Longrightarrow> cache_contains k c \<longleftrightarrow> timed_of c k \<noteq> None"
  by (simp add: cache_contains_def timed_of_eq_None)

section \<open>The contract of a filter of seen keys\<close>

text \<open>
  What a client of the cache relies on. \<open>seen c k\<close> is the instant until which the key
  \<open>k\<close> is remembered, if it is; an insertion at \<open>now\<close> is accepted when the key is not
  remembered beyond \<open>now\<close>, and then remembers it for the filter's time.
\<close>

fun insert_all :: "(instant \<Rightarrow> 'k \<Rightarrow> 'v \<Rightarrow> 'c \<Rightarrow> bool \<times> 'c) \<Rightarrow> (instant \<times> 'k \<times> 'v) list \<Rightarrow> 'c \<Rightarrow> 'c" where
  "insert_all ins [] c = c"
| "insert_all ins ((now, k, v) # xs) c = insert_all ins xs (snd (ins now k v c))"

locale seen_filter =
  fixes ins :: "instant \<Rightarrow> 'k \<Rightarrow> 'v \<Rightarrow> 'c \<Rightarrow> bool \<times> 'c"
    and seen :: "'c \<Rightarrow> 'k \<Rightarrow> instant option"
    and life :: "'c \<Rightarrow> duration"
    and inv :: "instant \<Rightarrow> 'c \<Rightarrow> bool"
  assumes ins_inv: "inv t c \<Longrightarrow> t \<le> now \<Longrightarrow> inv now (snd (ins now k v c))"
    and ins_life: "inv t c \<Longrightarrow> life (snd (ins now k v c)) = life c"
    and ins_accept: "inv t c \<Longrightarrow>
      fst (ins now k v c) \<longleftrightarrow> (case seen c k of Some e \<Rightarrow> e \<le> now | None \<Rightarrow> True)"
    and ins_seen: "inv t c \<Longrightarrow> fst (ins now k v c) \<Longrightarrow>
      seen (snd (ins now k v c)) k = Some (now + life c)"
    and ins_keeps: "inv t c \<Longrightarrow> seen c k' = Some e \<Longrightarrow> now < e \<Longrightarrow>
      seen (snd (ins now k v c)) k' = Some e"
begin

lemma insert_all_keeps:
  assumes "inv t c" and "seen c k = Some e"
    and "sorted (t # map fst xs)" and "\<forall>(now, k', v) \<in> set xs. now < e"
  shows "\<exists>t'. t' \<in> set (t # map fst xs) \<and> inv t' (insert_all ins xs c)
    \<and> (\<forall>x \<in> set (t # map fst xs). x \<le> t') \<and> seen (insert_all ins xs c) k = Some e"
  using assms
proof (induction xs arbitrary: t c)
  case (Cons x xs)
  obtain now k' v where x: "x = (now, k', v)" by (cases x)
  have le: "t \<le> now" and lt: "now < e" using Cons.prems x by auto
  have "inv now (snd (ins now k' v c))" by (rule ins_inv [OF Cons.prems(1) le])
  moreover have "seen (snd (ins now k' v c)) k = Some e"
    by (rule ins_keeps [OF Cons.prems(1,2) lt])
  moreover have "sorted (now # map fst xs)" and "\<forall>(now, k', v) \<in> set xs. now < e"
    using Cons.prems(3,4) x by auto
  ultimately obtain t' where t': "t' \<in> set (now # map fst xs)"
    and "inv t' (insert_all ins xs (snd (ins now k' v c)))"
    and "\<forall>x \<in> set (now # map fst xs). x \<le> t'"
    and "seen (insert_all ins xs (snd (ins now k' v c))) k = Some e"
    using Cons.IH by blast
  moreover from this(3) le have "t \<le> t'" by simp
  ultimately show ?case using x by (intro exI [of _ t']) simp
qed auto

text \<open>
  The window: a key accepted at \<open>t\<close> is refused at every later instant before \<open>t\<close> plus
  the filter's time, whatever was inserted in between.
\<close>

lemma refused_within_window:
  assumes "inv t0 c" and "t0 \<le> t" and acc: "fst (ins t k v c)"
    and "sorted (t # map fst xs @ [now])" and "now < t + life c"
  shows "\<not> fst (ins now k w (insert_all ins xs (snd (ins t k v c))))"
proof -
  let ?c = "snd (ins t k v c)"
  have inv: "inv t ?c" using assms by (auto intro: ins_inv)
  have seen: "seen ?c k = Some (t + life c)" using assms(1) acc by (rule ins_seen)
  have "\<forall>(now', k', v) \<in> set xs. now' < t + life c"
    using assms(4,5) by (force simp: sorted_append)
  then obtain t' where "inv t' (insert_all ins xs ?c)"
    and "seen (insert_all ins xs ?c) k = Some (t + life c)"
    using insert_all_keeps [OF inv seen] assms(4) by (fastforce simp: sorted_append)
  with assms(5) show ?thesis by (simp add: ins_accept)
qed

end

lemma timed_seen_insert_other:
  "cache_inv t c \<Longrightarrow> timed_of c k' = Some (x, e) \<Longrightarrow> now < e \<Longrightarrow>
   timed_of (snd (cache_insert now k v c)) k' = Some (x, e)"
  by (auto simp: cache_insert_snd timed_insert_def timed_purge_def Let_def)

interpretation dup: seen_filter cache_insert "\<lambda>c k. map_option snd (timed_of c k)" cache_ttl cache_inv
proof
  fix t now k v and c :: "('a, 'b) duplicate_cache"
  assume inv: "cache_inv t c"
  show "cache_inv now (snd (cache_insert now k v c))" if "t \<le> now"
    using inv that by (rule cache_insert_inv)
  show "cache_ttl (snd (cache_insert now k v c)) = cache_ttl c"
    using inv by (simp add: cache_inv_def frame)
  show "fst (cache_insert now k v c) \<longleftrightarrow>
    (case map_option snd (timed_of c k) of Some e \<Rightarrow> e \<le> now | None \<Rightarrow> True)"
    unfolding cache_insert_fst [OF inv] timed_insert_def timed_purge_def Let_def
    by (cases "timed_of c k") (auto split: if_splits)
  show "map_option snd (timed_of (snd (cache_insert now k v c)) k) = Some (now + cache_ttl c)"
    if "fst (cache_insert now k v c)"
    using that
    unfolding cache_insert_fst [OF inv] cache_insert_snd [OF inv] timed_insert_def Let_def
    by (auto split: if_splits)
  show "map_option snd (timed_of (snd (cache_insert now k v c)) k') = Some e"
    if "map_option snd (timed_of c k') = Some e" and "now < e" for k' e
    using that timed_seen_insert_other [OF inv] by fastforce
qed

lemma timed_of_accepted:
  assumes "cache_inv t0 c" and "cache_insert t k v c = (True, c1)"
  shows "timed_of c1 k = Some (v, t + cache_ttl c)"
proof -
  have "timed_of c1 = snd (timed_insert (cache_ttl c) t k v (timed_of c))"
    and "fst (timed_insert (cache_ttl c) t k v (timed_of c))"
    using cache_insert_refines [OF assms(1), of t k v] assms(2) by simp_all
  then show ?thesis by (auto simp: timed_insert_def Let_def split: if_splits)
qed

lemma insert_all_remembers:
  assumes "cache_inv t c" and "timed_of c k = Some (v, e)"
    and "sorted (t # map fst xs @ [now])" and "\<forall>(earlier, k', v') \<in> set xs. earlier < e"
  shows "cache_inv now (insert_all cache_insert xs c)
    \<and> cache_ttl (insert_all cache_insert xs c) = cache_ttl c
    \<and> timed_of (insert_all cache_insert xs c) k = Some (v, e)"
  using assms
proof (induction xs arbitrary: t c)
  case Nil
  then show ?case by (auto intro: cache_inv_later)
next
  case (Cons x xs)
  obtain t1 k1 v1 where x: "x = (t1, k1, v1)" by (cases x)
  let ?c = "snd (cache_insert t1 k1 v1 c)"
  have "cache_inv t1 ?c" and "cache_ttl ?c = cache_ttl c" and "timed_of ?c k = Some (v, e)"
    using Cons.prems x by (auto intro: cache_insert_inv timed_seen_insert_other simp: dup.ins_life)
  with Cons.IH [of t1 ?c] Cons.prems(3,4) x show ?case by simp
qed

section \<open>Properties\<close>

text \<open>
  C18. Inserting into the cache does what the map with expirations specifies, answer
  included; it keeps the invariant, and the stored length is the number of keys the map
  holds. The clock may stand still or advance between insertions, not run backwards.
\<close>

theorem cache_insert_correct:
  assumes "cache_inv t c" and "t \<le> now" and "cache_insert now k v c = (accepted, c')"
  shows "timed_insert (cache_ttl c) now k v (timed_of c) = (accepted, timed_of c')
    \<and> cache_inv now c' \<and> cache_ttl c' = cache_ttl c
    \<and> cache_len c' = card (dom (cache_values c'))"
proof -
  have "cache_inv now c'" using cache_insert_inv [OF assms(1,2), of k v] assms(3) by simp
  moreover from this have "cache_len c' = card (dom (cache_values c'))"
    by (intro cache_shape_len) (simp add: cache_inv_def)
  ultimately show ?thesis
    using cache_insert_refines [OF assms(1), of now k v] dup.ins_life [OF assms(1), of now k v] assms(3)
    by simp
qed

theorem cache_insert_correct_witness:
  "\<exists>c'. cache_insert 5 (7 :: nat) (1 :: nat) (cache_new 10) = (True, c')
    \<and> timed_of c' 7 = Some (1, 15) \<and> cache_len c' = 1"
proof -
  obtain acc c' where c': "cache_insert 5 (7 :: nat) (1 :: nat) (cache_new 10) = (acc, c')"
    by (cases "cache_insert 5 (7 :: nat) (1 :: nat) (cache_new 10)") auto
  have spec: "timed_insert 10 5 7 1 (timed_of (cache_new 10)) = (acc, timed_of c')"
    using cache_insert_correct [OF cache_inv_new [of 0] _ c'] by (simp add: cache_new_def)
  have "timed_of (cache_new 10 :: (nat, nat) duplicate_cache) = Map.empty"
    by (simp add: timed_of_def cache_new_def fun_eq_iff)
  then have "acc" and "timed_of c' = [7 \<mapsto> (1, 15)]"
    using spec by (simp_all add: timed_insert_def timed_purge_def cache_new_def)
  moreover have "cache_len c' = 1"
    using c' by (auto simp: cache_insert_def cache_new_def cache_len_def remove_expired_values.simps)
  ultimately show ?thesis using c' by auto
qed

text \<open>
  A key the cache accepted at \<open>t\<close> is refused at every later instant before \<open>t\<close> plus the
  time to live, whatever else was inserted in between: the window in which a node does not
  process a transaction twice.
\<close>

theorem cache_refuses_within_ttl:
  assumes "cache_inv t0 c" and "t0 \<le> t" and "fst (cache_insert t k v c)"
    and "sorted (t # map fst xs @ [now])" and "now < t + cache_ttl c"
  shows "\<not> fst (cache_insert now k w (insert_all cache_insert xs (snd (cache_insert t k v c))))"
  using assms by (rule dup.refused_within_window)

theorem cache_refuses_within_ttl_witness:
  "\<not> fst (cache_insert 9 (7 :: nat) (3 :: nat)
      (insert_all cache_insert [(6, 8, 2)] (snd (cache_insert 5 7 1 (cache_new 10)))))"
  by (rule cache_refuses_within_ttl [OF cache_inv_new [of 0]])
    (simp_all add: cache_insert_def cache_new_def remove_expired_values.simps)

text \<open>
  C29. How long a key is remembered: a key accepted at \<open>t\<close> expires at \<open>t\<close> plus the time to
  live exactly. Whatever was inserted before that, the key itself included, the next
  insertion of the key is refused if it comes earlier and accepted otherwise; a refused
  insertion changes neither the value nor the expiration of the key, and an accepted one
  stores its own value for another time to live.
\<close>

theorem cache_lifetime_exact:
  assumes "cache_inv t0 c" and "t0 \<le> t" and "cache_insert t k v c = (True, c1)"
    and "sorted (t # map fst xs @ [now])" and "\<forall>(earlier, k', v') \<in> set xs. earlier < t + cache_ttl c"
    and "cache_insert now k w (insert_all cache_insert xs c1) = (accepted, c2)"
  shows "(accepted \<longleftrightarrow> t + cache_ttl c \<le> now)
    \<and> timed_of c2 k = Some (if accepted then (w, now + cache_ttl c) else (v, t + cache_ttl c))"
proof -
  have c1: "cache_inv t c1" "cache_ttl c1 = cache_ttl c" "timed_of c1 k = Some (v, t + cache_ttl c)"
    using cache_insert_inv [OF assms(1,2), of k v] dup.ins_life [OF assms(1), of t k v]
      timed_of_accepted [OF assms(1,3)] assms(3) by simp_all
  let ?c = "insert_all cache_insert xs c1"
  have later: "cache_inv now ?c" "cache_ttl ?c = cache_ttl c" "timed_of ?c k = Some (v, t + cache_ttl c)"
    using insert_all_remembers [OF c1(1,3) assms(4,5)] c1(2) by simp_all
  have "accepted = fst (timed_insert (cache_ttl c) now k w (timed_of ?c))"
    and "timed_of c2 = snd (timed_insert (cache_ttl c) now k w (timed_of ?c))"
    using cache_insert_refines [OF later(1), of now k w] later(2) assms(6) by simp_all
  then show ?thesis
    using later(3) by (auto simp: timed_insert_def timed_purge_def Let_def)
qed

text \<open>
  Key 7, accepted at 5 for a time to live of 10 and refused at 12, is refused at 14 and
  accepted at 15.
\<close>

theorem cache_lifetime_exact_witness:
  "let c = insert_all cache_insert [(6, 8, 2), (12, 7, 3)] (snd (cache_insert 5 (7 :: nat) (1 :: nat) (cache_new 10)))
   in \<not> fst (cache_insert 14 7 4 c) \<and> fst (cache_insert 15 7 4 c)
    \<and> timed_of (snd (cache_insert 15 7 4 c)) 7 = Some (4, 25)"
proof -
  let ?c1 = "snd (cache_insert 5 (7 :: nat) (1 :: nat) (cache_new 10))"
  have c1: "cache_insert 5 7 1 (cache_new 10) = (True, ?c1)"
    by (simp add: cache_insert_def cache_new_def remove_expired_values.simps)
  let ?xs = "[(6, 8, 2), (12, 7, 3)]"
  obtain a b c d where "cache_insert 14 7 4 (insert_all cache_insert ?xs ?c1) = (a, b)"
    and "cache_insert 15 7 4 (insert_all cache_insert ?xs ?c1) = (c, d)" by (meson surj_pair)
  moreover from this have "\<not> a" and "c \<and> timed_of d 7 = Some (4, 25)"
    using cache_lifetime_exact [OF cache_inv_new [of 0] _ c1, of ?xs 14 4 a b]
      cache_lifetime_exact [OF cache_inv_new [of 0] _ c1, of ?xs 15 4 c d]
    by (simp_all add: cache_new_def)
  ultimately show ?thesis unfolding Let_def by simp
qed

end
