(* ===== verification/Dog_Router.thy ===== *)
theory Dog_Router
  imports Dog_Prelude
begin

text \<open>
  The router of \<open>dog.rs\<close>: the list of disabled routes and the number of \<open>HaveTx\<close> messages
  sent to each peer. Its contract is stated over the multiset of disabled routes, as a
  locale that the operations interpret.
\<close>

section \<open>Routes and the router\<close>

record 'p route =
  route_source :: 'p
  route_target :: 'p

definition route_new :: "'p \<Rightarrow> 'p \<Rightarrow> 'p route" where
  "route_new source target = \<lparr>route_source = source, route_target = target\<rparr>"

record 'p router =
  disabled_routes :: "'p route list"
  have_tx_sent_per_peer :: "'p \<rightharpoonup> usize"

definition router_new :: "'p router" where
  "router_new = \<lparr>disabled_routes = [], have_tx_sent_per_peer = Map.empty\<rparr>"

definition get_disabled_routes :: "'p router \<Rightarrow> 'p route list" where
  "get_disabled_routes r = disabled_routes r"

definition disable_route :: "'p \<Rightarrow> 'p \<Rightarrow> 'p router \<Rightarrow> 'p router" where
  "disable_route source target r =
     r\<lparr>disabled_routes := disabled_routes r @ [route_new source target]\<rparr>"

definition enable_random_route_to_peer ::
  "nat \<Rightarrow> 'p \<Rightarrow> 'p router \<Rightarrow> 'p route option \<times> 'p router" where
  "enable_random_route_to_peer draw peer r =
     (case choose_one draw
             (filter (\<lambda>(i, route). route_target route = peer)
               (List.enumerate 0 (disabled_routes r))) of
        Some (index, _) \<Rightarrow>
          (Some (disabled_routes r ! index),
           r\<lparr>disabled_routes := remove_at index (disabled_routes r)\<rparr>)
      | None \<Rightarrow> (None, r))"

definition touches :: "'p \<Rightarrow> 'p route \<Rightarrow> bool" where
  "touches peer route \<longleftrightarrow> route_source route = peer \<or> route_target route = peer"

definition reset_routes_with_peer :: "'p \<Rightarrow> 'p router \<Rightarrow> 'p route list \<times> 'p router" where
  "reset_routes_with_peer peer r =
     (filter (touches peer) (disabled_routes r),
      r\<lparr>disabled_routes := filter (\<lambda>route. \<not> touches peer route) (disabled_routes r)\<rparr>)"

definition filter_valid_routes :: "'p \<Rightarrow> 'p list \<Rightarrow> 'p router \<Rightarrow> 'p list" where
  "filter_valid_routes source targets r =
     filter (\<lambda>target. \<not> list_ex (\<lambda>route. route_source route = source \<and> route_target route = target)
                       (disabled_routes r)) targets"

definition register_have_tx_sent :: "'p \<Rightarrow> 'p router \<Rightarrow> 'p router" where
  "register_have_tx_sent peer r =
     (let counter = (case have_tx_sent_per_peer r peer of Some n \<Rightarrow> n | None \<Rightarrow> 0)
      in r\<lparr>have_tx_sent_per_peer := (have_tx_sent_per_peer r)(peer \<mapsto> counter + 1)\<rparr>)"

definition have_tx_candidates :: "'p list \<Rightarrow> 'p router \<Rightarrow> 'p list" where
  "have_tx_candidates order r =
     List.map_filter
       (\<lambda>peer. case have_tx_sent_per_peer r peer of
                 Some n \<Rightarrow> if n > 0 then Some peer else None
               | None \<Rightarrow> None) order"

definition get_random_have_tx_sent_peer :: "'p list \<Rightarrow> nat \<Rightarrow> 'p router \<Rightarrow> 'p option" where
  "get_random_have_tx_sent_peer order draw r = choose_one draw (have_tx_candidates order r)"

definition remove_have_tx_sent :: "'p \<Rightarrow> 'p router \<Rightarrow> 'p router" where
  "remove_have_tx_sent peer r =
     (case have_tx_sent_per_peer r peer of
        Some counter \<Rightarrow>
          if counter > 0
          then r\<lparr>have_tx_sent_per_peer := (have_tx_sent_per_peer r)(peer \<mapsto> counter - 1)\<rparr>
          else r
      | None \<Rightarrow> r)"

section \<open>What the operations leave alone\<close>

lemma disable_route_have_tx [frame]:
  "have_tx_sent_per_peer (disable_route s t r) = have_tx_sent_per_peer r"
  by (simp add: disable_route_def)

lemma enable_random_have_tx [frame]:
  "have_tx_sent_per_peer (snd (enable_random_route_to_peer d p r)) = have_tx_sent_per_peer r"
  by (simp add: enable_random_route_to_peer_def split: option.split prod.split)

lemma reset_routes_have_tx [frame]:
  "have_tx_sent_per_peer (snd (reset_routes_with_peer p r)) = have_tx_sent_per_peer r"
  by (simp add: reset_routes_with_peer_def)

lemma register_have_tx_routes [frame]:
  "disabled_routes (register_have_tx_sent p r) = disabled_routes r"
  by (simp add: register_have_tx_sent_def Let_def)

lemma remove_have_tx_routes [frame]:
  "disabled_routes (remove_have_tx_sent p r) = disabled_routes r"
  by (simp add: remove_have_tx_sent_def split: option.split)

section \<open>Which routes the operations disable and enable\<close>

lemma filter_valid_routes_eq:
  "filter_valid_routes s ts r = filter (\<lambda>t. route_new s t \<notin> set (disabled_routes r)) ts"
proof -
  have "list_ex (\<lambda>route. route_source route = s \<and> route_target route = t) xs
      \<longleftrightarrow> route_new s t \<in> set xs" for t and xs :: "'a route list"
    by (induction xs) (auto simp: route_new_def)
  then show ?thesis by (simp add: filter_valid_routes_def)
qed

lemma set_filter_enumerate:
  "set (filter (\<lambda>(i, x). P x) (List.enumerate 0 xs)) = {(i, xs ! i) | i. i < length xs \<and> P (xs ! i)}"
  by (auto simp: in_set_enumerate_eq)

text \<open>Either one route to the peer goes, or there is none and nothing changes.\<close>

lemma enable_random_cases:
  obtains (enabled) i where "i < length (disabled_routes r)"
      and "route_target (disabled_routes r ! i) = p"
      and "enable_random_route_to_peer d p r =
        (Some (disabled_routes r ! i), r\<lparr>disabled_routes := remove_at i (disabled_routes r)\<rparr>)"
  | (absent) "\<forall>rt \<in> set (disabled_routes r). route_target rt \<noteq> p"
      and "enable_random_route_to_peer d p r = (None, r)"
proof -
  let ?cand = "filter (\<lambda>(i, route). route_target route = p) (List.enumerate 0 (disabled_routes r))"
  show ?thesis
  proof (cases "choose_one d ?cand")
    case None
    then have "set ?cand = {}" by simp
    then have "\<forall>rt \<in> set (disabled_routes r). route_target rt \<noteq> p"
      unfolding set_filter_enumerate by (auto simp: in_set_conv_nth)
    with None show ?thesis by (intro absent) (simp_all add: enable_random_route_to_peer_def)
  next
    case (Some c)
    then have "c \<in> set ?cand" by (rule choose_one_in_set)
    then obtain i where "c = (i, disabled_routes r ! i)" and "i < length (disabled_routes r)"
      and "route_target (disabled_routes r ! i) = p"
      unfolding set_filter_enumerate by auto
    with Some show ?thesis by (intro enabled) (simp_all add: enable_random_route_to_peer_def)
  qed
qed

section \<open>The contract of a route table\<close>

locale route_table =
  fixes disable :: "'p \<Rightarrow> 'p \<Rightarrow> 'r \<Rightarrow> 'r"
    and enable :: "nat \<Rightarrow> 'p \<Rightarrow> 'r \<Rightarrow> 'p route option \<times> 'r"
    and reset :: "'p \<Rightarrow> 'r \<Rightarrow> 'p route list \<times> 'r"
    and valid :: "'p \<Rightarrow> 'p list \<Rightarrow> 'r \<Rightarrow> 'p list"
    and blocked :: "'r \<Rightarrow> 'p route multiset"
  assumes blocked_disable: "blocked (disable s t r) = add_mset (route_new s t) (blocked r)"
    and enable_Some: "enable d p r = (Some rt, r') \<Longrightarrow>
      rt \<in># blocked r \<and> route_target rt = p \<and> blocked r' = blocked r - {#rt#}"
    and enable_None: "enable d p r = (None, r') \<Longrightarrow>
      r' = r \<and> (\<forall>rt. rt \<in># blocked r \<longrightarrow> route_target rt \<noteq> p)"
    and reset_removed: "mset (fst (reset p r)) = filter_mset (touches p) (blocked r)"
    and reset_kept: "blocked (snd (reset p r)) = filter_mset (\<lambda>rt. \<not> touches p rt) (blocked r)"
    and valid_iff: "valid s ts r = filter (\<lambda>t. route_new s t \<notin># blocked r) ts"
begin

lemma disabled_not_valid: "t \<notin> set (valid s ts (disable s t r))"
  by (simp add: valid_iff blocked_disable)

lemma enable_decreases:
  assumes "enable d p r = (Some rt, r')"
  shows "size (blocked r) = Suc (size (blocked r'))"
proof -
  from enable_Some [OF assms] have "rt \<in># blocked r" and "blocked r' = blocked r - {#rt#}" by auto
  then have "blocked r = add_mset rt (blocked r')" by simp
  then show ?thesis by simp
qed

text \<open>Enabling a route takes no target away from anyone.\<close>

lemma enable_widens: "set (valid s ts r) \<subseteq> set (valid s ts (snd (enable d p r)))"
proof (cases "enable d p r")
  case (Pair res r')
  show ?thesis
  proof (cases res)
    case None
    with Pair enable_None show ?thesis by auto
  next
    case (Some rt)
    with Pair enable_Some have "blocked r' = blocked r - {#rt#}" by simp
    with Pair show ?thesis by (auto simp: valid_iff dest: in_diffD)
  qed
qed

text \<open>A route disabled twice stays disabled when one of its entries is enabled again.\<close>

lemma disabled_twice_stays:
  assumes "enable d p (disable s t (disable s t r)) = (res, r')"
  shows "t \<notin> set (valid s ts r')"
proof (cases res)
  case None
  with assms enable_None have "r' = disable s t (disable s t r)" by blast
  then show ?thesis by (simp add: disabled_not_valid)
next
  case (Some rt)
  with assms enable_Some have "blocked r' = blocked (disable s t (disable s t r)) - {#rt#}"
    by blast
  then have "route_new s t \<in># blocked r'" by (simp add: blocked_disable in_diff_count)
  then show ?thesis by (simp add: valid_iff)
qed

text \<open>After a reset the peer is reachable from everywhere and reaches everyone.\<close>

lemma reset_valid_source: "valid p ts (snd (reset p r)) = ts"
  by (simp add: valid_iff reset_kept touches_def route_new_def)

lemma reset_valid_target: "p \<in> set ts \<Longrightarrow> p \<in> set (valid s ts (snd (reset p r)))"
  by (simp add: valid_iff reset_kept touches_def route_new_def)

lemma reset_others:
  "s \<noteq> p \<Longrightarrow> t \<noteq> p \<Longrightarrow> t \<in> set (valid s ts (snd (reset p r))) \<longleftrightarrow> t \<in> set (valid s ts r)"
  by (simp add: valid_iff reset_kept touches_def route_new_def)

lemma reset_reports: "fst (reset p r) = [] \<longleftrightarrow> blocked (snd (reset p r)) = blocked r"
proof -
  have "fst (reset p r) = [] \<longleftrightarrow> filter_mset (touches p) (blocked r) = {#}"
    using reset_removed [of p r] by (metis mset_zero_iff)
  also have "\<dots> \<longleftrightarrow> filter_mset (\<lambda>rt. \<not> touches p rt) (blocked r) = blocked r"
    by (auto simp: filter_mset_eq_conv filter_mset_eq_mempty_iff)
  finally show ?thesis by (simp add: reset_kept)
qed

end

interpretation rt: route_table disable_route enable_random_route_to_peer reset_routes_with_peer
  filter_valid_routes "\<lambda>r. mset (disabled_routes r)"
proof
  show "rt \<in># mset (disabled_routes r) \<and> route_target rt = p
      \<and> mset (disabled_routes r') = mset (disabled_routes r) - {#rt#}"
    if "enable_random_route_to_peer d p r = (Some rt, r')"
    for d p rt and r r' :: "'a router"
    using that by (cases rule: enable_random_cases [of r p d]) (auto simp: mset_remove_at)
  show "r' = r \<and> (\<forall>rt. rt \<in># mset (disabled_routes r) \<longrightarrow> route_target rt \<noteq> p)"
    if "enable_random_route_to_peer d p r = (None, r')"
    for d p and r r' :: "'a router"
    using that by (cases rule: enable_random_cases [of r p d]) auto
qed (auto simp: disable_route_def reset_routes_with_peer_def filter_valid_routes_eq)

section \<open>The HaveTx counters\<close>

definition have_tx_count :: "'p router \<Rightarrow> 'p \<Rightarrow> nat" where
  "have_tx_count r peer = (case have_tx_sent_per_peer r peer of Some n \<Rightarrow> n | None \<Rightarrow> 0)"

lemma have_tx_count_register [simp]:
  "have_tx_count (register_have_tx_sent p r) q = have_tx_count r q + (if q = p then 1 else 0)"
  by (simp add: have_tx_count_def register_have_tx_sent_def Let_def)

lemma have_tx_count_remove [simp]:
  "have_tx_count (remove_have_tx_sent p r) q = have_tx_count r q - (if q = p then 1 else 0)"
  by (auto simp: have_tx_count_def remove_have_tx_sent_def split: option.split)

lemma have_tx_count_disable [simp]: "have_tx_count (disable_route s t r) = have_tx_count r"
  by (simp add: have_tx_count_def frame fun_eq_iff)

lemma have_tx_candidates_eq:
  "have_tx_candidates order r = filter (\<lambda>p. 0 < have_tx_count r p) order"
  by (induction order)
    (auto simp: have_tx_candidates_def List.map_filter_simps have_tx_count_def split: option.split)

lemma have_tx_candidates_set:
  assumes "key_order order (have_tx_sent_per_peer r)"
  shows "set (have_tx_candidates order r) = {p. 0 < have_tx_count r p}"
proof -
  have "p \<in> set order" if "0 < have_tx_count r p" for p
    using that assms by (auto simp: have_tx_count_def key_order_def split: option.splits)
  then show ?thesis by (auto simp: have_tx_candidates_eq)
qed

text \<open>A peer is drawn only if a HaveTx sent to it is outstanding, and then it can be.\<close>

lemma get_random_have_tx_sent_peer_count:
  assumes "key_order order (have_tx_sent_per_peer r)"
    and "get_random_have_tx_sent_peer order d r = Some p"
  shows "0 < have_tx_count r p"
  using assms choose_one_in_set have_tx_candidates_set
  unfolding get_random_have_tx_sent_peer_def by fastforce

section \<open>Properties\<close>

lemma enable_random_possible:
  assumes "route \<in> set (disabled_routes r)" and "route_target route = p"
  shows "\<exists>d. fst (enable_random_route_to_peer d p r) = Some route"
proof -
  let ?cand = "filter (\<lambda>(i, route). route_target route = p) (List.enumerate 0 (disabled_routes r))"
  from assms obtain i where "(i, route) \<in> set ?cand" and "disabled_routes r ! i = route"
    unfolding set_filter_enumerate by (auto simp: in_set_conv_nth)
  moreover from this(1) obtain d where "choose_one d ?cand = Some (i, route)"
    using choose_one_possible by metis
  ultimately show ?thesis
    by (intro exI [of _ d]) (simp add: enable_random_route_to_peer_def)
qed

text \<open>
  C30. Re-enabling a random route to a peer removes exactly one entry of the disabled routes,
  one whose target is the peer, and no source loses a valid target by it; when there is no
  such entry it answers \<open>None\<close> and changes nothing. Every disabled route to the peer can
  be the one that is drawn.
\<close>

theorem enable_random_route_correct:
  "(case enable_random_route_to_peer d p r of
      (Some route, r') \<Rightarrow>
        route_target route = p
        \<and> mset (disabled_routes r) = add_mset route (mset (disabled_routes r'))
        \<and> (\<forall>s ts. set (filter_valid_routes s ts r) \<subseteq> set (filter_valid_routes s ts r'))
    | (None, r') \<Rightarrow> r' = r \<and> p \<notin> route_target ` set (disabled_routes r))
   \<and> {fst (enable_random_route_to_peer d p r) | d. True} - {None}
      = Some ` {route \<in> set (disabled_routes r). route_target route = p}"
proof
  show "case enable_random_route_to_peer d p r of
      (Some route, r') \<Rightarrow>
        route_target route = p
        \<and> mset (disabled_routes r) = add_mset route (mset (disabled_routes r'))
        \<and> (\<forall>s ts. set (filter_valid_routes s ts r) \<subseteq> set (filter_valid_routes s ts r'))
    | (None, r') \<Rightarrow> r' = r \<and> p \<notin> route_target ` set (disabled_routes r)"
  proof (cases "enable_random_route_to_peer d p r")
    case (Pair res r')
    show ?thesis
    proof (cases res)
      case None
      with Pair rt.enable_None [of d p r r'] show ?thesis by auto
    next
      case (Some route)
      have "set (filter_valid_routes s ts r) \<subseteq> set (filter_valid_routes s ts r')" for s ts
        using rt.enable_widens [of s ts r d p] Pair by simp
      moreover from Pair Some rt.enable_Some [of d p r route r']
      have "route \<in># mset (disabled_routes r)" and "route_target route = p"
        and "mset (disabled_routes r') = mset (disabled_routes r) - {#route#}" by simp_all
      ultimately show ?thesis using Pair Some by simp
    qed
  qed
  show "{fst (enable_random_route_to_peer d p r) | d. True} - {None}
      = Some ` {route \<in> set (disabled_routes r). route_target route = p}" (is "?L = ?R")
  proof
    show "?L \<subseteq> ?R"
    proof
      fix x
      assume "x \<in> ?L"
      then obtain d where "x = fst (enable_random_route_to_peer d p r)" and "x \<noteq> None" by auto
      then show "x \<in> ?R" by (cases rule: enable_random_cases [of r p d]) auto
    qed
    show "?R \<subseteq> ?L" using enable_random_possible [of _ r p] by (auto simp: eq_commute)
  qed
qed

text \<open>
  Resetting the routes of a peer returns the disabled routes that name the peer, and
  leaves the peer with every route from it and to it valid; the routes between other peers
  are as before.
\<close>

theorem reset_routes_with_peer_correct:
  "let (removed, r') = reset_routes_with_peer p r
   in set removed = {route \<in> set (disabled_routes r). route_source route = p \<or> route_target route = p}
    \<and> mset (disabled_routes r) = mset removed + mset (disabled_routes r')
    \<and> filter_valid_routes p ts r' = ts
    \<and> (p \<in> set (filter_valid_routes s ts r') \<longleftrightarrow> p \<in> set ts)
    \<and> (t \<noteq> p \<and> s \<noteq> p \<longrightarrow>
        t \<in> set (filter_valid_routes s ts r') \<longleftrightarrow> t \<in> set (filter_valid_routes s ts r))"
proof (cases "reset_routes_with_peer p r")
  case (Pair removed r')
  have "set removed = {route \<in> set (disabled_routes r). route_source route = p \<or> route_target route = p}"
    using Pair by (auto simp: reset_routes_with_peer_def touches_def)
  moreover have "mset (disabled_routes r) = mset removed + mset (disabled_routes r')"
    using rt.reset_removed [of p r] rt.reset_kept [of p r] Pair by simp
  moreover have "p \<in> set (filter_valid_routes s ts r') \<longleftrightarrow> p \<in> set ts"
    using rt.reset_valid_target [of p ts s r] Pair by (auto simp: filter_valid_routes_def)
  ultimately show ?thesis
    using rt.reset_valid_source [of p ts r] rt.reset_others [of s p t ts r] Pair by simp
qed

theorem reset_routes_with_peer_correct_witness:
  "let r = disable_route (1 :: nat) 2 (disable_route 3 4 router_new);
       (removed, r') = reset_routes_with_peer 2 r
   in removed = [route_new 1 2] \<and> 2 \<in> set (filter_valid_routes 1 [2, 4] r')
    \<and> 4 \<notin> set (filter_valid_routes 3 [2, 4] r')"
  using reset_routes_with_peer_correct [of 2 "disable_route (1 :: nat) 2 (disable_route 3 4 router_new)" "[2, 4]" 3 4]
  by (simp add: reset_routes_with_peer_def disable_route_def router_new_def route_new_def touches_def
      filter_valid_routes_def)

text \<open>
  Disabling a route does not look whether it is disabled already, so the list can hold
  it twice; re-enabling a route to the target then removes one entry and reports the route
  as enabled, and the target still is not valid for the source.
\<close>

theorem disabled_twice_survives_enable:
  assumes "enable_random_route_to_peer d p (disable_route s t (disable_route s t r)) = (res, r')"
  shows "t \<notin> set (filter_valid_routes s ts r')"
  using assms by (rule rt.disabled_twice_stays)

theorem disabled_twice_survives_enable_witness:
  "\<exists>r'. enable_random_route_to_peer 0 (2 :: nat) (disable_route 1 2 (disable_route 1 2 router_new))
      = (Some (route_new 1 2), r') \<and> 2 \<notin> set (filter_valid_routes 1 [2] r')"
proof -
  obtain res r' where eq: "enable_random_route_to_peer 0 (2 :: nat)
      (disable_route 1 2 (disable_route 1 2 router_new)) = (res, r')" by fastforce
  moreover from this have "res = Some (route_new 1 2)"
    by (auto simp: enable_random_route_to_peer_def disable_route_def router_new_def route_new_def
        choose_one_def)
  ultimately show ?thesis using disabled_twice_survives_enable [OF eq, of "[2]"] by blast
qed

end
