(* ===== verification/F64.thy ===== *)
theory F64
  imports Complex_Main "HOL-Library.Log_Nat" Dog_Prelude
begin

text \<open>
  Double-precision arithmetic, as far as the redundancy controller uses it. A finite
  \<open>f64\<close> is the rational it stands for, and every operation rounds its exact result to
  the nearest rational with a 53-bit significand, ties to even. Overflow, subnormals and
  the non-finite values are left out: the controller divides counts below \<open>2^64\<close>, and the
  configured target is a finite number in the normal range.
\<close>

type_synonym f64 = rat

section \<open>Rounding to the nearest integer, ties to even\<close>

definition round_even :: "rat \<Rightarrow> int" where
  "round_even x =
     (let n = \<lfloor>x\<rfloor>; d = x - of_int n
      in if d < 1 / 2 then n else if d > 1 / 2 then n + 1 else if even n then n else n + 1)"

lemma round_even_of_int [simp]: "round_even (of_int n) = n"
  by (simp add: round_even_def)

lemma round_even_bounds: "\<lfloor>x\<rfloor> \<le> round_even x \<and> round_even x \<le> \<lfloor>x\<rfloor> + 1"
  by (simp add: round_even_def Let_def)

lemma round_even_mono: "x \<le> y \<Longrightarrow> round_even x \<le> round_even y"
proof -
  assume xy: "x \<le> y"
  show ?thesis
  proof (cases "\<lfloor>x\<rfloor> = \<lfloor>y\<rfloor>")
    case True
    with xy show ?thesis by (auto simp: round_even_def Let_def)
  next
    case False
    with floor_mono [OF xy] have "\<lfloor>x\<rfloor> + 1 \<le> \<lfloor>y\<rfloor>" by linarith
    with round_even_bounds [of x] round_even_bounds [of y] show ?thesis by linarith
  qed
qed

section \<open>The binary exponent\<close>

definition pow2 :: "int \<Rightarrow> rat" where
  "pow2 e = (if 0 \<le> e then 2 ^ nat e else 1 / 2 ^ nat (- e))"

lemma pow2_power_int: "pow2 e = power_int 2 e"
  by (simp add: pow2_def power_int_def field_simps)

lemma pow2_pos [simp]: "0 < pow2 e"
  by (simp add: pow2_def)

lemma pow2_neq_0 [simp]: "pow2 e \<noteq> 0"
  by (simp add: pow2_def)

lemma pow2_add: "pow2 (a + b) = pow2 a * pow2 b"
  by (simp add: pow2_power_int power_int_add)

lemma pow2_mono: "a \<le> b \<Longrightarrow> pow2 a \<le> pow2 b"
  by (simp add: pow2_power_int power_int_increasing)

lemma pow2_less_cancel: "pow2 a < pow2 b \<Longrightarrow> a < b"
  using pow2_mono [of b a] by linarith

lemma pow2_nat: "pow2 (int n) = 2 ^ n"
  by (simp add: pow2_def)

text \<open>\<open>exponent x\<close> is the \<open>e\<close> with \<open>2^e \<le> x < 2^(e+1)\<close>, from the lengths of the fraction.\<close>

definition exponent :: "rat \<Rightarrow> int" where
  "exponent x =
     (let (p, q) = quotient_of x; e = bitlen p - bitlen q
      in if pow2 e \<le> x then e else e - 1)"

lemma exponent_bounds:
  assumes "0 < x"
  shows "pow2 (exponent x) \<le> x \<and> x < pow2 (exponent x + 1)"
proof -
  obtain p q where pq: "quotient_of x = (p, q)" by (cases "quotient_of x") auto
  have q: "0 < q" using pq by (rule quotient_of_denom_pos)
  have x: "x = of_int p / of_int q" using pq by (rule quotient_of_div)
  have p: "0 < p" using assms x q by (simp add: zero_less_divide_iff)
  define e where "e = bitlen p - bitlen q"
  have bits: "pow2 (bitlen n - 1) \<le> of_int n \<and> of_int n < pow2 (bitlen n)" if "0 < n" for n
  proof -
    have "0 < bitlen n" using that bitlen_le_iff_power [of n 0] by simp
    moreover have "of_int (2 ^ nat (bitlen n - 1)) \<le> (of_int n :: rat)"
      and "(of_int n :: rat) < of_int (2 ^ nat (bitlen n))"
      using bitlen_bounds [OF that] by (simp_all only: of_int_le_iff of_int_less_iff)
    ultimately show ?thesis by (simp add: pow2_def)
  qed
  have "x < pow2 (e + 1)"
  proof -
    have "of_int p < pow2 (bitlen p)" using bits [OF p] by simp
    also have "\<dots> = pow2 (e + 1) * pow2 (bitlen q - 1)"
      by (simp add: e_def pow2_add [symmetric])
    also have "\<dots> \<le> pow2 (e + 1) * of_int q"
      using bits [OF q] by (intro mult_left_mono) (auto intro: less_imp_le)
    finally show ?thesis using q by (simp add: x divide_less_eq)
  qed
  moreover have "pow2 (e - 1) \<le> x"
  proof -
    have "pow2 (e - 1) * of_int q \<le> pow2 (e - 1) * pow2 (bitlen q)"
      using bits [OF q] by (intro mult_left_mono) (auto intro: less_imp_le)
    also have "\<dots> = pow2 (bitlen p - 1)"
      by (simp add: e_def pow2_add [symmetric])
    also have "\<dots> \<le> of_int p" using bits [OF p] by simp
    finally show ?thesis using q by (simp add: x le_divide_eq)
  qed
  ultimately show ?thesis
    by (auto simp: exponent_def pq Let_def e_def [symmetric])
qed

lemma exponent_unique:
  assumes "pow2 e \<le> x" and "x < pow2 (e + 1)"
  shows "exponent x = e"
proof -
  have "0 < x" using assms(1) pow2_pos [of e] by linarith
  then have b: "pow2 (exponent x) \<le> x" "x < pow2 (exponent x + 1)"
    using exponent_bounds by blast+
  from assms(1) b(2) have "e < exponent x + 1" by (intro pow2_less_cancel) linarith
  moreover from assms(2) b(1) have "exponent x < e + 1" by (intro pow2_less_cancel) linarith
  ultimately show ?thesis by simp
qed

lemma exponent_mono: "0 < x \<Longrightarrow> x \<le> y \<Longrightarrow> exponent x \<le> exponent y"
  using exponent_bounds [of x] exponent_bounds [of y] pow2_less_cancel [of "exponent x" "exponent y + 1"]
  by fastforce

section \<open>Rounding to a 53-bit significand\<close>

definition ulp :: "rat \<Rightarrow> rat" where
  "ulp x = pow2 (exponent x - 52)"

definition f64_round :: "rat \<Rightarrow> f64" where
  "f64_round x =
     (if x = 0 then 0 else sgn x * of_int (round_even (\<bar>x\<bar> / ulp \<bar>x\<bar>)) * ulp \<bar>x\<bar>)"

lemma ulp_pos [simp]: "0 < ulp x"
  by (simp add: ulp_def)

lemma ulp_neq_0 [simp]: "ulp x \<noteq> 0"
  using ulp_pos [of x] by linarith

lemma pow2_ulp:
  "pow2 (exponent x) = 2 ^ 52 * ulp x" "pow2 (exponent x + 1) = 2 ^ 53 * ulp x"
proof -
  have "pow2 (exponent x) = pow2 (int 52 + (exponent x - 52))"
    and "pow2 (exponent x + 1) = pow2 (int 53 + (exponent x - 52))"
    by (simp_all add: algebra_simps)
  then show "pow2 (exponent x) = 2 ^ 52 * ulp x" "pow2 (exponent x + 1) = 2 ^ 53 * ulp x"
    by (simp_all only: pow2_add pow2_nat ulp_def)
qed

lemma f64_round_0 [simp]: "f64_round 0 = 0"
  by (simp add: f64_round_def)

lemma f64_round_minus: "f64_round (- x) = - f64_round x"
  by (simp add: f64_round_def sgn_minus)

lemma f64_round_pos: "0 < x \<Longrightarrow> f64_round x = of_int (round_even (x / ulp x)) * ulp x"
  by (simp add: f64_round_def)

text \<open>The significand of a positive number has 53 bits, or is \<open>2^53\<close> after rounding up.\<close>

lemma significand_bounds:
  assumes "0 < x"
  shows "2 ^ 52 \<le> round_even (x / ulp x) \<and> round_even (x / ulp x) \<le> 2 ^ 53"
proof -
  have "2 ^ 52 \<le> x / ulp x" and "x / ulp x \<le> 2 ^ 53"
    using exponent_bounds [OF assms] pow2_ulp [of x] by (simp_all add: le_divide_eq divide_le_eq)
  then have "round_even (of_int (2 ^ 52)) \<le> round_even (x / ulp x)"
    and "round_even (x / ulp x) \<le> round_even (of_int (2 ^ 53))"
    by (auto intro!: round_even_mono)
  then show ?thesis by (simp only: round_even_of_int)
qed

lemma f64_round_pos_bounds:
  assumes "0 < x"
  shows "pow2 (exponent x) \<le> f64_round x \<and> f64_round x \<le> pow2 (exponent x + 1)"
proof -
  let ?m = "of_int (round_even (x / ulp x)) :: rat"
  from significand_bounds [OF assms] have "of_int (2 ^ 52) \<le> ?m" and "?m \<le> of_int (2 ^ 53)"
    by (simp_all only: of_int_le_iff)
  then have "2 ^ 52 * ulp x \<le> ?m * ulp x" and "?m * ulp x \<le> 2 ^ 53 * ulp x"
    by (auto intro!: mult_right_mono less_imp_le)
  then show ?thesis by (simp only: f64_round_pos [OF assms] pow2_ulp)
qed

lemma f64_round_mono_pos:
  assumes "0 < x" and "x \<le> y"
  shows "f64_round x \<le> f64_round y"
proof (cases "exponent x = exponent y")
  case True
  then have "ulp x = ulp y" by (simp add: ulp_def)
  moreover have "round_even (x / ulp y) \<le> round_even (y / ulp y)"
    using assms by (intro round_even_mono divide_right_mono) (auto intro: less_imp_le)
  ultimately show ?thesis
    using assms by (simp add: f64_round_pos)
next
  case False
  with exponent_mono [OF assms] have "exponent x + 1 \<le> exponent y" by simp
  then have "pow2 (exponent x + 1) \<le> pow2 (exponent y)" by (rule pow2_mono)
  with f64_round_pos_bounds [of x] f64_round_pos_bounds [of y] assms show ?thesis by fastforce
qed

lemma f64_round_nonneg: "0 \<le> x \<Longrightarrow> 0 \<le> f64_round x"
proof (cases "x = 0")
  case False
  assume "0 \<le> x"
  with False have "pow2 (exponent x) \<le> f64_round x" using f64_round_pos_bounds [of x] by simp
  then show ?thesis using pow2_pos [of "exponent x"] by linarith
qed simp

text \<open>Rounding keeps the order; the comparisons of the controller rest on this.\<close>

lemma f64_round_mono: "x \<le> y \<Longrightarrow> f64_round x \<le> f64_round y"
proof -
  assume xy: "x \<le> y"
  consider "0 < x" | "x \<le> 0" "0 \<le> y" | "y < 0" by linarith
  then show ?thesis
  proof cases
    case 1
    with xy show ?thesis by (simp add: f64_round_mono_pos)
  next
    case 2
    then have "0 \<le> f64_round (- x)" and "0 \<le> f64_round y" by (simp_all add: f64_round_nonneg)
    then show ?thesis by (simp add: f64_round_minus)
  next
    case 3
    with xy have "f64_round (- y) \<le> f64_round (- x)" by (simp add: f64_round_mono_pos)
    then show ?thesis by (simp add: f64_round_minus)
  qed
qed


section \<open>The numbers a double holds exactly\<close>

definition representable :: "rat \<Rightarrow> bool" where
  "representable x \<longleftrightarrow> f64_round x = x"

lemma representable_0 [simp]: "representable 0"
  by (simp add: representable_def)

lemma representable_minus [simp]: "representable (- x) \<longleftrightarrow> representable x"
  by (simp add: representable_def f64_round_minus)

lemma representable_scaled:
  assumes "2 ^ 52 \<le> m" and "m \<le> 2 ^ 53"
  shows "representable (of_int m * pow2 e)"
proof (cases "m = 2 ^ 53")
  case True
  have eq: "of_int m * pow2 e = pow2 (e + 53)"
    by (simp add: True pow2_add pow2_nat [of 53, simplified])
  have x: "exponent (pow2 (e + 53)) = e + 53"
    by (rule exponent_unique) (simp_all add: pow2_add, simp add: pow2_def)
  have "pow2 (e + 53) / ulp (pow2 (e + 53)) = of_int (2 ^ 52)"
    using pow2_ulp(1) [of "pow2 (e + 53)"] by (simp add: x divide_eq_eq)
  then have "f64_round (pow2 (e + 53)) = of_int (2 ^ 52) * ulp (pow2 (e + 53))"
    by (simp only: f64_round_pos pow2_pos round_even_of_int)
  also have "\<dots> = pow2 (e + 53)"
    using pow2_ulp(1) [of "pow2 (e + 53)"] by (simp add: x)
  finally show ?thesis by (simp add: representable_def eq)
next
  case False
  let ?x = "of_int m * pow2 e"
  have pos: "0 < ?x" using assms by simp
  have "pow2 (e + 52) = of_int (2 ^ 52) * pow2 e" and "pow2 (e + 52 + 1) = of_int (2 ^ 53) * pow2 e"
    using pow2_add [of e 52] pow2_add [of e 53] by (simp_all add: pow2_def [of 52] pow2_def [of 53] ac_simps)
  moreover have "of_int (2 ^ 52) * pow2 e \<le> ?x" and "?x < of_int (2 ^ 53) * pow2 e"
    using assms False by (simp_all del: of_int_power)
  ultimately have x: "exponent ?x = e + 52"
    by (intro exponent_unique) (simp_all only:)
  then have "ulp ?x = pow2 e" by (simp add: ulp_def)
  moreover from this have "?x / ulp ?x = of_int m" by simp
  ultimately show ?thesis
    by (simp only: representable_def f64_round_pos [OF pos] round_even_of_int)
qed

text \<open>The result of a rounding is a double, so rounding it again changes nothing.\<close>

lemma representable_f64_round [simp]: "representable (f64_round x)"
proof -
  have pos: "representable (f64_round y)" if "0 < y" for y
    unfolding f64_round_pos [OF that] ulp_def
    by (rule representable_scaled) (use significand_bounds [OF that] in \<open>simp_all add: ulp_def\<close>)
  consider "x = 0" | "0 < x" | "0 < - x" by linarith
  then show ?thesis
  proof cases
    case 3
    then have "representable (f64_round (- x))" by (rule pos)
    then show ?thesis by (simp add: f64_round_minus)
  qed (simp_all add: pos)
qed

lemma f64_round_ge_bound: "representable l \<Longrightarrow> l \<le> x \<Longrightarrow> l \<le> f64_round x"
  using f64_round_mono [of l x] by (simp add: representable_def)

lemma f64_round_le_bound: "representable u \<Longrightarrow> x \<le> u \<Longrightarrow> f64_round x \<le> u"
  using f64_round_mono [of x u] by (simp add: representable_def)

text \<open>Counts below \<open>2^53\<close> convert exactly.\<close>

lemma representable_of_int:
  assumes "0 < n" and "n \<le> 2 ^ 53"
  shows "representable (of_int n)"
proof -
  have fits: "exponent (of_int n) \<le> 53"
  proof -
    have "pow2 (exponent (of_int n)) \<le> of_int n" using assms exponent_bounds by simp
    also have "\<dots> \<le> of_int (2 ^ 53)" using assms by (simp only: of_int_le_iff)
    also have "\<dots> = pow2 53" by (simp add: pow2_def)
    finally have "pow2 (exponent (of_int n)) < pow2 54" by (simp add: pow2_def)
    then show ?thesis using pow2_less_cancel by fastforce
  qed
  show ?thesis
  proof (cases "exponent (of_int n) = 53")
    case True
    then have "pow2 53 \<le> of_int n" using exponent_bounds [of "of_int n"] assms by simp
    then have "of_int (2 ^ 53) \<le> (of_int n :: rat)" by (simp add: pow2_def)
    then have "n = 2 ^ 53" using assms by (simp only: of_int_le_iff)
    then show ?thesis using representable_scaled [of "2 ^ 53" 0] by (simp add: pow2_def)
  next
    case False
    with fits have e: "exponent (of_int n) \<le> 52" by simp
    define k where "k = nat (52 - exponent (of_int n))"
    have u: "ulp (of_int n) = 1 / of_int (2 ^ k)"
      using e by (simp add: ulp_def pow2_def k_def)
    then have "of_int n / ulp (of_int n) = of_int (n * 2 ^ k)" by simp
    then have "f64_round (of_int n) = of_int (n * 2 ^ k) * ulp (of_int n)"
      using assms by (simp only: f64_round_pos of_int_0_less_iff round_even_of_int)
    also have "\<dots> = of_int n" by (simp add: u)
    finally show ?thesis by (simp add: representable_def)
  qed
qed

section \<open>The operations\<close>

definition f64_of_nat :: "nat \<Rightarrow> f64" where
  "f64_of_nat n = f64_round (of_nat n)"

definition f64_add :: "f64 \<Rightarrow> f64 \<Rightarrow> f64" where
  "f64_add a b = f64_round (a + b)"

definition f64_sub :: "f64 \<Rightarrow> f64 \<Rightarrow> f64" where
  "f64_sub a b = f64_round (a - b)"

definition f64_mul :: "f64 \<Rightarrow> f64 \<Rightarrow> f64" where
  "f64_mul a b = f64_round (a * b)"

definition f64_div :: "f64 \<Rightarrow> f64 \<Rightarrow> f64" where
  "f64_div a b = f64_round (a / b)"

lemma f64_of_nat_exact: "n \<le> 2 ^ 53 \<Longrightarrow> f64_of_nat n = of_nat n"
  using representable_of_int [of "int n"]
  by (cases "n = 0") (simp_all add: f64_of_nat_def representable_def)

lemma f64_of_nat_nonneg [simp]: "0 \<le> f64_of_nat n"
  by (simp add: f64_of_nat_def f64_round_nonneg)

lemma f64_of_nat_0 [simp]: "f64_of_nat 0 = 0"
  by (simp add: f64_of_nat_def)

lemmas f64_defs = f64_add_def f64_sub_def f64_mul_def f64_div_def

end
