(* ===== verification/Dog_Config.thy ===== *)
theory Dog_Config
  imports Dog_Types F64
begin

text \<open>
  The configuration (\<open>config.rs\<close>) and the protocol configuration it embeds
  (\<open>protocol.rs\<close>), the builder and its setters, and the default transaction identifier.
\<close>

section \<open>The configuration\<close>

datatype validation_mode = Strict | NoValidation

record protocol_config =
  stream_protocol :: string
  protocol_max_transmit_size :: usize
  validation_mode :: validation_mode

definition DOG_PROTOCOL :: string where
  "DOG_PROTOCOL = ''/dog/1.0.0''"

definition DEFAULT_MAX_TRANSMIT_SIZE :: usize where
  "DEFAULT_MAX_TRANSMIT_SIZE = 65536"

definition default_protocol_config :: protocol_config where
  "default_protocol_config =
     \<lparr>stream_protocol = DOG_PROTOCOL,
      protocol_max_transmit_size = DEFAULT_MAX_TRANSMIT_SIZE,
      validation_mode = Strict\<rparr>"

definition protocol_info :: "protocol_config \<Rightarrow> string list" where
  "protocol_info pc = [stream_protocol pc]"

record 'p config =
  protocol :: protocol_config
  transaction_id_fn :: "'p transaction \<Rightarrow> transaction_id"
  max_transactions_per_rpc :: "usize option"
  connection_handler_queue_len :: usize
  cache_time :: duration
  target_redundancy :: f64
  redundancy_delta_percent :: nat
  redundancy_interval :: duration
  connection_handler_publish_duration :: duration
  connection_handler_forward_duration :: duration
  deliver_own_transactions :: bool
  forward_transactions :: bool
  send_have_tx :: bool
  ignore_have_tx :: bool

text \<open>The accessors that are not a field of the same name.\<close>

definition config_protocol_config :: "'p config \<Rightarrow> protocol_config" where
  "config_protocol_config c = protocol c"

definition config_transaction_id :: "'p config \<Rightarrow> 'p transaction \<Rightarrow> transaction_id" where
  "config_transaction_id c tx = transaction_id_fn c tx"

definition max_transmit_size :: "'p config \<Rightarrow> usize" where
  "max_transmit_size c = protocol_max_transmit_size (protocol c)"

definition publish_queue_duration :: "'p config \<Rightarrow> duration" where
  "publish_queue_duration c = connection_handler_publish_duration c"

definition forward_queue_duration :: "'p config \<Rightarrow> duration" where
  "forward_queue_duration c = connection_handler_forward_duration c"

section \<open>The default transaction identifier\<close>

text \<open>\<open>u64::to_string\<close>: the decimal digits without leading zeros.\<close>

definition digit_char :: "nat \<Rightarrow> char" where
  "digit_char d = char_of (48 + d)"

fun decimal :: "nat \<Rightarrow> string" where
  "decimal n = (if n < 10 then [digit_char n] else decimal (n div 10) @ [digit_char (n mod 10)])"

declare decimal.simps [simp del]

definition string_bytes :: "string \<Rightarrow> bytes" where
  "string_bytes s = map of_char s"

definition default_transaction_id ::
  "('p, 'k, 'pk) libp2p_ops \<Rightarrow> 'p transaction \<Rightarrow> transaction_id" where
  "default_transaction_id I tx =
     TransactionId (string_bytes (peer_to_base58 I (tx_from tx) @ decimal (unat (tx_seqno tx))))"

section \<open>The builder\<close>

record 'p config_builder =
  builder_config :: "'p config"

definition default_config_builder :: "('p, 'k, 'pk) libp2p_ops \<Rightarrow> 'p config_builder" where
  "default_config_builder I =
     \<lparr>builder_config =
       \<lparr>protocol = default_protocol_config,
        transaction_id_fn = default_transaction_id I,
        max_transactions_per_rpc = None,
        connection_handler_queue_len = 5000,
        cache_time = duration_from_secs 30,
        target_redundancy = 1,
        redundancy_delta_percent = 10,
        redundancy_interval = duration_from_secs 1,
        connection_handler_publish_duration = duration_from_secs 5,
        connection_handler_forward_duration = duration_from_secs 1,
        deliver_own_transactions = False,
        forward_transactions = True,
        send_have_tx = True,
        ignore_have_tx = False\<rparr>\<rparr>"

definition config_builder_of :: "'p config \<Rightarrow> 'p config_builder" where
  "config_builder_of c = \<lparr>builder_config = c\<rparr>"

definition set_transaction_id_fn ::
  "('p transaction \<Rightarrow> transaction_id) \<Rightarrow> 'p config_builder \<Rightarrow> 'p config_builder" where
  "set_transaction_id_fn f b =
     b\<lparr>builder_config := (builder_config b)\<lparr>transaction_id_fn := f\<rparr>\<rparr>"

definition set_max_transactions_per_rpc :: "usize \<Rightarrow> 'p config_builder \<Rightarrow> 'p config_builder" where
  "set_max_transactions_per_rpc v b =
     b\<lparr>builder_config := (builder_config b)\<lparr>max_transactions_per_rpc := Some v\<rparr>\<rparr>"

definition set_connection_handler_queue_len ::
  "usize \<Rightarrow> 'p config_builder \<Rightarrow> 'p config_builder" where
  "set_connection_handler_queue_len v b =
     b\<lparr>builder_config := (builder_config b)\<lparr>connection_handler_queue_len := v\<rparr>\<rparr>"

definition set_cache_time :: "duration \<Rightarrow> 'p config_builder \<Rightarrow> 'p config_builder" where
  "set_cache_time v b = b\<lparr>builder_config := (builder_config b)\<lparr>cache_time := v\<rparr>\<rparr>"

definition set_target_redundancy :: "f64 \<Rightarrow> 'p config_builder \<Rightarrow> 'p config_builder" where
  "set_target_redundancy v b =
     b\<lparr>builder_config := (builder_config b)\<lparr>target_redundancy := v\<rparr>\<rparr>"

definition set_redundancy_delta_percent :: "nat \<Rightarrow> 'p config_builder \<Rightarrow> 'p config_builder" where
  "set_redundancy_delta_percent v b =
     b\<lparr>builder_config := (builder_config b)\<lparr>redundancy_delta_percent := v\<rparr>\<rparr>"

definition set_redundancy_interval :: "duration \<Rightarrow> 'p config_builder \<Rightarrow> 'p config_builder" where
  "set_redundancy_interval v b =
     b\<lparr>builder_config := (builder_config b)\<lparr>redundancy_interval := v\<rparr>\<rparr>"

definition set_max_transmit_size :: "usize \<Rightarrow> 'p config_builder \<Rightarrow> 'p config_builder" where
  "set_max_transmit_size v b =
     b\<lparr>builder_config := (builder_config b)
         \<lparr>protocol := (protocol (builder_config b))\<lparr>protocol_max_transmit_size := v\<rparr>\<rparr>\<rparr>"

definition set_connection_handler_publish_duration ::
  "duration \<Rightarrow> 'p config_builder \<Rightarrow> 'p config_builder" where
  "set_connection_handler_publish_duration v b =
     b\<lparr>builder_config := (builder_config b)\<lparr>connection_handler_publish_duration := v\<rparr>\<rparr>"

definition set_connection_handler_forward_duration ::
  "duration \<Rightarrow> 'p config_builder \<Rightarrow> 'p config_builder" where
  "set_connection_handler_forward_duration v b =
     b\<lparr>builder_config := (builder_config b)\<lparr>connection_handler_forward_duration := v\<rparr>\<rparr>"

definition set_deliver_own_transactions :: "bool \<Rightarrow> 'p config_builder \<Rightarrow> 'p config_builder" where
  "set_deliver_own_transactions v b =
     b\<lparr>builder_config := (builder_config b)\<lparr>deliver_own_transactions := v\<rparr>\<rparr>"

definition set_forward_transactions :: "bool \<Rightarrow> 'p config_builder \<Rightarrow> 'p config_builder" where
  "set_forward_transactions v b =
     b\<lparr>builder_config := (builder_config b)\<lparr>forward_transactions := v\<rparr>\<rparr>"

definition set_send_have_tx :: "bool \<Rightarrow> 'p config_builder \<Rightarrow> 'p config_builder" where
  "set_send_have_tx v b = b\<lparr>builder_config := (builder_config b)\<lparr>send_have_tx := v\<rparr>\<rparr>"

definition set_ignore_have_tx :: "bool \<Rightarrow> 'p config_builder \<Rightarrow> 'p config_builder" where
  "set_ignore_have_tx v b = b\<lparr>builder_config := (builder_config b)\<lparr>ignore_have_tx := v\<rparr>\<rparr>"

definition set_validation_mode :: "validation_mode \<Rightarrow> 'p config_builder \<Rightarrow> 'p config_builder" where
  "set_validation_mode v b =
     b\<lparr>builder_config := (builder_config b)
         \<lparr>protocol := (protocol (builder_config b))\<lparr>validation_mode := v\<rparr>\<rparr>\<rparr>"

definition build :: "'p config_builder \<Rightarrow> string + 'p config" where
  "build b = Inr (builder_config b)"

definition default_config :: "('p, 'k, 'pk) libp2p_ops \<Rightarrow> 'p config option" where
  "default_config I =
     (case build (default_config_builder I) of Inr c \<Rightarrow> Some c | Inl e \<Rightarrow> None)"

lemmas builder_setter_defs =
  set_transaction_id_fn_def set_max_transactions_per_rpc_def set_connection_handler_queue_len_def
  set_cache_time_def set_target_redundancy_def set_redundancy_delta_percent_def
  set_redundancy_interval_def set_max_transmit_size_def
  set_connection_handler_publish_duration_def set_connection_handler_forward_duration_def
  set_deliver_own_transactions_def set_forward_transactions_def set_send_have_tx_def
  set_ignore_have_tx_def set_validation_mode_def

section \<open>The default identifier separates transactions\<close>

text \<open>Reading the digits back gives the number, so the decimal form is injective.\<close>

definition undecimal :: "string \<Rightarrow> nat" where
  "undecimal s = foldl (\<lambda>n c. 10 * n + (of_char c - 48)) 0 s"

lemma undecimal_decimal: "undecimal (decimal n) = n"
proof (induction n rule: decimal.induct)
  case (1 n)
  show ?case
  proof (cases "n < 10")
    case True
    then show ?thesis by (simp add: decimal.simps [of n] undecimal_def digit_char_def)
  next
    case False
    with 1 have "undecimal (decimal (n div 10)) = n div 10" by simp
    moreover from False have "decimal n = decimal (n div 10) @ [digit_char (n mod 10)]"
      by (simp add: decimal.simps [of n])
    ultimately show ?thesis by (simp add: undecimal_def digit_char_def)
  qed
qed

lemma decimal_inject [simp]: "decimal m = decimal n \<longleftrightarrow> m = n"
  using undecimal_decimal by metis

lemma string_bytes_inject [simp]: "string_bytes s = string_bytes t \<longleftrightarrow> s = t"
proof
  have inj: "(of_char c :: byte) = of_char d \<Longrightarrow> c = d" for c d :: char
  proof -
    assume "(of_char c :: byte) = of_char d"
    then have "unat (of_nat (of_char c) :: byte) = unat (of_nat (of_char d) :: byte)"
      by (simp only: of_nat_of_char)
    then have "(of_char c :: nat) mod 256 = of_char d mod 256"
      by (simp add: unat_of_nat)
    then show "c = d" by (simp only: of_char_mod_256 of_char_eq_iff)
  qed
  assume "string_bytes s = string_bytes t"
  then show "s = t"
    unfolding string_bytes_def by (rule map_injective) (auto intro!: injI inj)
qed simp

text \<open>
  The default transaction identifier is the author's base-58 name followed by the
  sequence number in decimal, with nothing between them. When the names have the same
  length (as those of keys of one kind have) and tell peers apart, two transactions have
  the same identifier only if they have the same author and the same sequence number.
\<close>

theorem default_transaction_id_injective:
  assumes "default_transaction_id I tx = default_transaction_id I tx'"
    and "length (peer_to_base58 I (tx_from tx)) = length (peer_to_base58 I (tx_from tx'))"
    and "inj (peer_to_base58 I)"
  shows "tx_from tx = tx_from tx' \<and> tx_seqno tx = tx_seqno tx'"
proof -
  from assms(1) have "peer_to_base58 I (tx_from tx) @ decimal (unat (tx_seqno tx))
      = peer_to_base58 I (tx_from tx') @ decimal (unat (tx_seqno tx'))"
    by (simp add: default_transaction_id_def)
  with assms(2) have "peer_to_base58 I (tx_from tx) = peer_to_base58 I (tx_from tx')"
    and "unat (tx_seqno tx) = unat (tx_seqno tx')" by simp_all
  with assms(3) show ?thesis by (auto dest: injD simp: word_unat_eq_iff)
qed

end
