(* ===== verification/Dog_Sample.thy ===== *)
theory Dog_Sample
  imports Dog_Config
begin

text \<open>
  One concrete choice of the functions of libp2p, on which the witnesses evaluate: peers,
  keys and public keys are bytes, a peer's bytes are its inlined key behind a two-byte
  header, and a signature is the key in front of the signed bytes. Next to it, the laws
  these functions are documented to have, as a locale.
\<close>

fun sample_from_bytes :: "bytes \<Rightarrow> byte option" where
  "sample_from_bytes [a, b, p] = (if a = 0 \<and> b = 1 then Some p else None)"
| "sample_from_bytes _ = None"

fun sample_decode :: "bytes \<Rightarrow> byte option" where
  "sample_decode [k] = Some k"
| "sample_decode _ = None"

definition sample_write :: "proto_transaction \<Rightarrow> bytes" where
  "sample_write tx =
     proto_from tx @ of_nat (unat (proto_seqno tx)) # proto_data tx
       @ proto_signature tx @ proto_key tx"

definition sample_ops :: "(byte, byte, byte) libp2p_ops" where
  "sample_ops =
     \<lparr>peer_to_bytes = (\<lambda>p. [0, 1, p]),
      peer_from_bytes = sample_from_bytes,
      peer_to_base58 = (\<lambda>p. [char_of (unat p)]),
      keypair_public = (\<lambda>k. k),
      keypair_sign = (\<lambda>k m. Inr (k # m)),
      public_key_encode = (\<lambda>k. [k]),
      public_key_decode = sample_decode,
      public_key_to_peer_id = (\<lambda>k. k),
      public_key_verify = (\<lambda>k m s. s = k # m),
      proto_tx_get_size = (\<lambda>tx. length (sample_write tx)),
      proto_tx_write = sample_write\<rparr>"

text \<open>
  What the crate relies on in \<open>libp2p-identity\<close>: the bytes of a peer identify it; they are
  a multihash, so at least its two-byte header; a public key can be read back from its
  protobuf encoding, and nothing can be read from no bytes; a key of at most 42 encoded
  bytes is inlined in the peer's bytes behind the header; and a signature verifies under
  the public key of the pair that made it.
\<close>

locale libp2p_laws =
  fixes I :: "('p, 'k, 'pk) libp2p_ops"
  assumes from_to_bytes [simp]: "peer_from_bytes I (peer_to_bytes I p) = Some p"
    and to_bytes_header: "2 \<le> length (peer_to_bytes I p)"
    and decode_encode [simp]: "public_key_decode I (public_key_encode I pk) = Some pk"
    and decode_empty [simp]: "public_key_decode I [] = None"
    and inlined_key: "length (public_key_encode I pk) \<le> 42 \<Longrightarrow>
      drop 2 (peer_to_bytes I (public_key_to_peer_id I pk)) = public_key_encode I pk"
    and verify_sign: "keypair_sign I k m = Inr s \<Longrightarrow> public_key_verify I (keypair_public I k) m s"
begin

lemma peer_to_bytes_inject: "peer_to_bytes I p = peer_to_bytes I q \<Longrightarrow> p = q"
  by (metis from_to_bytes option.inject)

lemma encode_nonempty: "public_key_encode I pk \<noteq> []"
  using decode_encode [of pk] decode_empty by fastforce

end

interpretation sample_laws: libp2p_laws sample_ops
  by unfold_locales (auto simp: sample_ops_def)

lemma sample_base58_inj: "inj (peer_to_base58 sample_ops)"
proof (rule injI)
  fix p q :: byte
  assume "peer_to_base58 sample_ops p = peer_to_base58 sample_ops q"
  then have "(of_char (char_of (unat p)) :: nat) = of_char (char_of (unat q))"
    by (simp add: sample_ops_def)
  moreover have "unat r mod 256 = unat r" for r :: byte
    using unsigned_less [of r, where ?'a = nat] by simp
  ultimately have "unat p = unat q" by (simp del: char_of_eq_iff)
  then show "p = q" by (simp add: word_unat_eq_iff)
qed

theorem default_transaction_id_injective_witness:
  "let t = \<lparr>tx_from = 3, tx_seqno = 7, tx_data = [1]\<rparr>; t' = \<lparr>tx_from = 3, tx_seqno = 7, tx_data = [2]\<rparr>
   in default_transaction_id sample_ops t = default_transaction_id sample_ops t'
     \<and> length (peer_to_base58 sample_ops (tx_from t)) = length (peer_to_base58 sample_ops (tx_from t'))
     \<and> tx_from t = tx_from t' \<and> tx_seqno t = tx_seqno t'"
  using default_transaction_id_injective
    [of sample_ops "\<lparr>tx_from = 3, tx_seqno = 7, tx_data = [1]\<rparr>" "\<lparr>tx_from = 3, tx_seqno = 7, tx_data = [2]\<rparr>"]
    sample_base58_inj
  by (simp add: default_transaction_id_def)

definition sample_config :: "byte config" where
  "sample_config = builder_config (default_config_builder sample_ops)"

end
