(* ===== verification/Dog_Controller.thy ===== *)
theory Dog_Controller
  imports Dog_Sample
begin

text \<open>
  The redundancy controller of \<open>dog.rs\<close>: the bounds derived from the configuration, the
  two counters of an interval, and the flag that blocks further \<open>HaveTx\<close> messages. The
  \<open>f64\<close> arithmetic is that of theory F64, with its roundings.
\<close>

section \<open>The controller\<close>

record controller =
  lower_bound :: f64
  upper_bound :: f64
  first_time_txs_count :: usize
  duplicate_txs_count :: usize
  have_tx_blocked :: bool

definition controller_new :: "'p config \<Rightarrow> controller" where
  "controller_new c =
     (let target = target_redundancy c;
          delta = f64_mul target (f64_div (f64_of_nat (redundancy_delta_percent c)) 100)
      in \<lparr>lower_bound = f64_sub target delta,
          upper_bound = f64_add target delta,
          first_time_txs_count = 0,
          duplicate_txs_count = 0,
          have_tx_blocked = False\<rparr>)"

definition incr_first_time_txs_count :: "controller \<Rightarrow> controller" where
  "incr_first_time_txs_count c = c\<lparr>first_time_txs_count := first_time_txs_count c + 1\<rparr>"

definition incr_duplicate_txs_count :: "controller \<Rightarrow> controller" where
  "incr_duplicate_txs_count c = c\<lparr>duplicate_txs_count := duplicate_txs_count c + 1\<rparr>"

definition is_have_tx_blocked :: "controller \<Rightarrow> bool" where
  "is_have_tx_blocked c = have_tx_blocked c"

definition block_have_tx :: "controller \<Rightarrow> controller" where
  "block_have_tx c = c\<lparr>have_tx_blocked := True\<rparr>"

definition redundancy :: "controller \<Rightarrow> f64" where
  "redundancy c =
     (if first_time_txs_count c = 0 then upper_bound c
      else f64_div (f64_of_nat (duplicate_txs_count c)) (f64_of_nat (first_time_txs_count c)))"

text \<open>The redundancy, whether to send a reset route, and the controller afterwards.\<close>

definition evaluate :: "controller \<Rightarrow> (f64 \<times> bool) \<times> controller" where
  "evaluate c =
     (if first_time_txs_count c + duplicate_txs_count c = 0 then ((upper_bound c, False), c)
      else
        let r = redundancy c
        in if r < lower_bound c then ((r, True), c)
           else if r > upper_bound c then ((r, False), c\<lparr>have_tx_blocked := False\<rparr>)
           else ((r, False), c))"

definition reset_counters :: "controller \<Rightarrow> controller" where
  "reset_counters c = c\<lparr>first_time_txs_count := 0, duplicate_txs_count := 0\<rparr>"

section \<open>The bounds\<close>

text \<open>The bounds are doubles, and in order.\<close>

definition bounds_ok :: "controller \<Rightarrow> bool" where
  "bounds_ok c \<longleftrightarrow>
     representable (lower_bound c) \<and> representable (upper_bound c) \<and> lower_bound c \<le> upper_bound c"

lemma bounds_ok_new: "0 \<le> target_redundancy c \<Longrightarrow> bounds_ok (controller_new c)"
proof -
  assume t: "0 \<le> target_redundancy c"
  define delta where
    "delta = f64_mul (target_redundancy c) (f64_div (f64_of_nat (redundancy_delta_percent c)) 100)"
  have "0 \<le> delta"
    unfolding delta_def f64_defs using t by (intro f64_round_nonneg mult_nonneg_nonneg) simp_all
  then show ?thesis
    by (simp add: bounds_ok_def controller_new_def Let_def delta_def [symmetric] f64_sub_def
        f64_add_def f64_round_mono)
qed

lemmas controller_op_defs =
  incr_first_time_txs_count_def incr_duplicate_txs_count_def block_have_tx_def reset_counters_def

lemma bounds_ok_ops [preserve]:
  "bounds_ok c \<Longrightarrow> bounds_ok (incr_first_time_txs_count c)"
  "bounds_ok c \<Longrightarrow> bounds_ok (incr_duplicate_txs_count c)"
  "bounds_ok c \<Longrightarrow> bounds_ok (block_have_tx c)"
  "bounds_ok c \<Longrightarrow> bounds_ok (reset_counters c)"
  "bounds_ok c \<Longrightarrow> bounds_ok (snd (evaluate c))"
  by (simp_all add: bounds_ok_def controller_op_defs evaluate_def Let_def)

lemma evaluate_counts [frame]:
  "first_time_txs_count (snd (evaluate c)) = first_time_txs_count c"
  "duplicate_txs_count (snd (evaluate c)) = duplicate_txs_count c"
  by (simp_all add: evaluate_def Let_def)

lemma have_tx_blocked_ops [frame]:
  "have_tx_blocked (incr_first_time_txs_count c) = have_tx_blocked c"
  "have_tx_blocked (incr_duplicate_txs_count c) = have_tx_blocked c"
  "have_tx_blocked (reset_counters c) = have_tx_blocked c"
  "have_tx_blocked (block_have_tx c)"
  by (simp_all add: controller_op_defs)

section \<open>The decision\<close>

lemma evaluate_reset_iff:
  "snd (fst (evaluate c)) \<longleftrightarrow>
     0 < first_time_txs_count c + duplicate_txs_count c \<and> redundancy c < lower_bound c"
  by (simp add: evaluate_def Let_def)

lemma evaluate_blocked_iff:
  "bounds_ok c \<Longrightarrow> have_tx_blocked (snd (evaluate c)) \<longleftrightarrow>
     have_tx_blocked c
     \<and> \<not> (0 < first_time_txs_count c + duplicate_txs_count c \<and> upper_bound c < redundancy c)"
  by (auto simp: evaluate_def Let_def bounds_ok_def)

text \<open>The quotient of two exactly converted counts is the rounded ratio.\<close>

definition counts_fit :: "controller \<Rightarrow> bool" where
  "counts_fit c \<longleftrightarrow> first_time_txs_count c \<le> 2 ^ 53 \<and> duplicate_txs_count c \<le> 2 ^ 53"

definition ratio :: "controller \<Rightarrow> rat" where
  "ratio c = of_nat (duplicate_txs_count c) / of_nat (first_time_txs_count c)"

lemma redundancy_ratio:
  "counts_fit c \<Longrightarrow> 0 < first_time_txs_count c \<Longrightarrow> redundancy c = f64_round (ratio c)"
  by (simp add: redundancy_def counts_fit_def f64_of_nat_exact f64_div_def ratio_def)

text \<open>
  Rounding keeps the ratio on its side of a bound that is a double, or moves it onto the bound.
\<close>

lemma redundancy_low_iff:
  assumes "bounds_ok c" and "counts_fit c"
  shows "redundancy c < lower_bound c \<longleftrightarrow>
    0 < first_time_txs_count c \<and> ratio c < lower_bound c \<and> f64_round (ratio c) \<noteq> lower_bound c"
proof (cases "first_time_txs_count c = 0")
  case True
  with assms(1) show ?thesis by (simp add: redundancy_def bounds_ok_def)
next
  case False
  then have "redundancy c = f64_round (ratio c)" using redundancy_ratio [OF assms(2)] by simp
  moreover have "lower_bound c \<le> ratio c \<Longrightarrow> lower_bound c \<le> f64_round (ratio c)"
    and "ratio c \<le> lower_bound c \<Longrightarrow> f64_round (ratio c) \<le> lower_bound c"
    using assms(1) by (auto simp: bounds_ok_def intro: f64_round_ge_bound f64_round_le_bound)
  ultimately show ?thesis using False by fastforce
qed

lemma redundancy_high_iff:
  assumes "bounds_ok c" and "counts_fit c"
  shows "upper_bound c < redundancy c \<longleftrightarrow>
    0 < first_time_txs_count c \<and> upper_bound c < ratio c \<and> f64_round (ratio c) \<noteq> upper_bound c"
proof (cases "first_time_txs_count c = 0")
  case True
  then show ?thesis by (simp add: redundancy_def)
next
  case False
  then have "redundancy c = f64_round (ratio c)" using redundancy_ratio [OF assms(2)] by simp
  moreover have "upper_bound c \<le> ratio c \<Longrightarrow> upper_bound c \<le> f64_round (ratio c)"
    and "ratio c \<le> upper_bound c \<Longrightarrow> f64_round (ratio c) \<le> upper_bound c"
    using assms(1) by (auto simp: bounds_ok_def intro: f64_round_ge_bound f64_round_le_bound)
  ultimately show ?thesis using False by fastforce
qed

text \<open>
  C26. What an evaluation decides, against the exact ratio of duplicates to first receptions:
  a reset route is requested if and only if something was received for the first time, the
  ratio is below the lower bound and does not round to it; \<open>HaveTx\<close> messages are unblocked
  if and only if something was received for the first time, the ratio is above the upper
  bound and does not round to it; nothing else of the controller changes; and the redundancy
  reported is the ratio rounded to a double, or the upper bound when nothing was received
  for the first time. So rounding causes no decision, and it prevents one only where it
  takes the ratio to the bound itself.
\<close>

theorem evaluate_correct:
  assumes "bounds_ok c" and "counts_fit c" and "evaluate c = ((r, send_reset_route), c')"
  shows "(send_reset_route \<longleftrightarrow> 0 < first_time_txs_count c
        \<and> ratio c < lower_bound c \<and> f64_round (ratio c) \<noteq> lower_bound c)
    \<and> c' = c\<lparr>have_tx_blocked := have_tx_blocked c \<and> \<not> (0 < first_time_txs_count c
              \<and> upper_bound c < ratio c \<and> f64_round (ratio c) \<noteq> upper_bound c)\<rparr>
    \<and> r = (if first_time_txs_count c = 0 then upper_bound c else f64_round (ratio c))"
proof -
  note low = redundancy_low_iff [OF assms(1,2)] and high = redundancy_high_iff [OF assms(1,2)]
  have r: "redundancy c = (if first_time_txs_count c = 0 then upper_bound c else f64_round (ratio c))"
    using redundancy_ratio [OF assms(2)] by (auto simp: redundancy_def)
  have bounds: "lower_bound c \<le> upper_bound c" using assms(1) by (simp add: bounds_ok_def)
  have "snd (fst (evaluate c)) \<longleftrightarrow> redundancy c < lower_bound c"
    using low by (auto simp: evaluate_reset_iff)
  moreover have "snd (evaluate c) = c\<lparr>have_tx_blocked := have_tx_blocked c \<and> \<not> upper_bound c < redundancy c\<rparr>"
    using bounds by (cases c) (auto simp: evaluate_def redundancy_def Let_def)
  moreover have "fst (fst (evaluate c)) = redundancy c"
    by (auto simp: evaluate_def Let_def redundancy_def)
  ultimately show ?thesis using assms(3) low high r by simp
qed

text \<open>One half and three are doubles.\<close>

lemma f64_round_half: "f64_round (1 / 2) = 1 / 2" and f64_round_three: "f64_round 3 = 3"
  using representable_scaled [of "2 ^ 52" "- 53"] representable_of_int [of 3]
  by (simp_all add: pow2_def representable_def)

lemma sample_counts_ok:
  assumes "c = \<lparr>lower_bound = 1, upper_bound = 2, first_time_txs_count = m, duplicate_txs_count = n,
    have_tx_blocked = True\<rparr>" and "m \<le> 2 ^ 53" and "n \<le> 2 ^ 53"
  shows "bounds_ok c" and "counts_fit c"
  using assms representable_of_int [of 1] representable_of_int [of 2]
  by (simp_all add: bounds_ok_def counts_fit_def)

text \<open>Half a duplicate for each first reception asks for a reset; three of them unblock.\<close>

theorem evaluate_correct_witness:
  "let c = \<lambda>n. \<lparr>lower_bound = 1, upper_bound = 2, first_time_txs_count = 4, duplicate_txs_count = n,
            have_tx_blocked = True\<rparr>
   in snd (fst (evaluate (c 2))) \<and> have_tx_blocked (snd (evaluate (c 2)))
    \<and> \<not> snd (fst (evaluate (c 12))) \<and> \<not> have_tx_blocked (snd (evaluate (c 12)))"
proof -
  let ?c = "\<lambda>n. \<lparr>lower_bound = 1, upper_bound = 2, first_time_txs_count = 4, duplicate_txs_count = n,
    have_tx_blocked = True\<rparr>"
  obtain r b c' r2 b2 c2 where e: "evaluate (?c 2) = ((r, b), c')" "evaluate (?c 12) = ((r2, b2), c2)"
    by (metis prod.collapse)
  note evaluate_correct [OF sample_counts_ok [OF refl, of 4 2] e(1)]
    and evaluate_correct [OF sample_counts_ok [OF refl, of 4 12] e(2)]
  then show ?thesis unfolding Let_def by (simp add: e ratio_def f64_round_half f64_round_three)
qed

text \<open>
  The bounds a controller starts with are in order for every non-negative target, so the
  two decisions exclude each other, and no operation changes them.
\<close>

theorem controller_bounds_ordered:
  assumes "0 \<le> target_redundancy cfg"
  shows "lower_bound (controller_new cfg) \<le> upper_bound (controller_new cfg)
    \<and> representable (lower_bound (controller_new cfg))
    \<and> representable (upper_bound (controller_new cfg))"
  using bounds_ok_new [OF assms] by (simp add: bounds_ok_def)

theorem controller_bounds_ordered_witness:
  "0 \<le> target_redundancy sample_config
    \<and> lower_bound (controller_new sample_config) \<le> upper_bound (controller_new sample_config)"
  using controller_bounds_ordered [of sample_config]
  by (simp add: sample_config_def default_config_builder_def)

text \<open>
  An interval in which only duplicates arrived counts as one with the redundancy of
  the upper bound: it requests no reset route, and blocked HaveTx messages stay blocked,
  however many duplicates there were.
\<close>

theorem only_duplicates_change_nothing:
  assumes "bounds_ok c" and "first_time_txs_count c = 0"
  shows "evaluate c = ((upper_bound c, False), c)"
  using assms by (auto simp: evaluate_def redundancy_def Let_def bounds_ok_def)

theorem only_duplicates_change_nothing_witness:
  "let c = \<lparr>lower_bound = 0, upper_bound = 1, first_time_txs_count = 0, duplicate_txs_count = 1000,
            have_tx_blocked = True\<rparr>
   in have_tx_blocked (snd (evaluate c))"
proof -
  have "representable 1" using representable_of_int [of 1] by simp
  then show ?thesis
    unfolding Let_def
    by (subst only_duplicates_change_nothing) (simp_all add: bounds_ok_def)
qed

end
