(* ===== verification/Dog_Metrics.thy ===== *)
theory Dog_Metrics
  imports F64
begin

text \<open>
  The metrics of \<open>metrics.rs\<close>. A counter is a 64-bit atomic that wraps, a gauge a signed
  number; the conversion of a size to the 64-bit gauge fails from \<open>2^63\<close> on, and the gauge
  is then left as it was.
\<close>

record metrics =
  peers_count :: int
  redundancy_gauge :: f64
  have_tx_sent_counts :: u64
  reset_route_sent_counts :: u64
  disabled_routes_count :: int
  txs_sent_counts :: u64
  txs_sent_bytes :: u64
  txs_sent_published :: u64
  published_txs_dropped :: u64
  forwarded_txs_dropped :: u64
  timedout_txs_dropped :: u64
  txs_recv_counts_unfiltered :: u64
  txs_recv_counts :: u64
  txs_invalid_counts :: u64
  txs_recv_bytes :: u64
  txs_cache_size :: int

definition metrics_new :: metrics where
  "metrics_new =
     \<lparr>peers_count = 0, redundancy_gauge = 0, have_tx_sent_counts = 0,
      reset_route_sent_counts = 0, disabled_routes_count = 0, txs_sent_counts = 0,
      txs_sent_bytes = 0, txs_sent_published = 0, published_txs_dropped = 0,
      forwarded_txs_dropped = 0, timedout_txs_dropped = 0, txs_recv_counts_unfiltered = 0,
      txs_recv_counts = 0, txs_invalid_counts = 0, txs_recv_bytes = 0, txs_cache_size = 0\<rparr>"

definition inc_peers_count :: "metrics \<Rightarrow> metrics" where
  "inc_peers_count m = m\<lparr>peers_count := peers_count m + 1\<rparr>"

definition dec_peers_count :: "metrics \<Rightarrow> metrics" where
  "dec_peers_count m = m\<lparr>peers_count := peers_count m - 1\<rparr>"

definition set_redundancy :: "f64 \<Rightarrow> metrics \<Rightarrow> metrics" where
  "set_redundancy r m = m\<lparr>redundancy_gauge := r\<rparr>"

definition register_have_tx_sent_metric :: "metrics \<Rightarrow> metrics" where
  "register_have_tx_sent_metric m = m\<lparr>have_tx_sent_counts := have_tx_sent_counts m + 1\<rparr>"

definition register_reset_route_sent :: "metrics \<Rightarrow> metrics" where
  "register_reset_route_sent m = m\<lparr>reset_route_sent_counts := reset_route_sent_counts m + 1\<rparr>"

text \<open>\<open>usize\<close> to \<open>i64\<close>, as \<open>try_into\<close> does it.\<close>

definition i64_try_from :: "usize \<Rightarrow> int option" where
  "i64_try_from n = (if n < 2 ^ 63 then Some (int n) else None)"

definition set_disabled_routes_count :: "usize \<Rightarrow> metrics \<Rightarrow> metrics" where
  "set_disabled_routes_count len m =
     (case i64_try_from len of
        Some n \<Rightarrow> m\<lparr>disabled_routes_count := n\<rparr>
      | None \<Rightarrow> m)"

definition tx_sent :: "usize \<Rightarrow> metrics \<Rightarrow> metrics" where
  "tx_sent n m =
     m\<lparr>txs_sent_counts := txs_sent_counts m + 1,
       txs_sent_bytes := txs_sent_bytes m + of_nat n\<rparr>"

definition register_published_tx :: "metrics \<Rightarrow> metrics" where
  "register_published_tx m = m\<lparr>txs_sent_published := txs_sent_published m + 1\<rparr>"

definition tx_recv_unfiltered :: "usize \<Rightarrow> metrics \<Rightarrow> metrics" where
  "tx_recv_unfiltered n m =
     m\<lparr>txs_recv_counts_unfiltered := txs_recv_counts_unfiltered m + 1,
       txs_recv_bytes := txs_recv_bytes m + of_nat n\<rparr>"

definition tx_recv :: "metrics \<Rightarrow> metrics" where
  "tx_recv m = m\<lparr>txs_recv_counts := txs_recv_counts m + 1\<rparr>"

definition register_published_tx_dropped :: "metrics \<Rightarrow> metrics" where
  "register_published_tx_dropped m = m\<lparr>published_txs_dropped := published_txs_dropped m + 1\<rparr>"

definition register_forwarded_tx_dropped :: "metrics \<Rightarrow> metrics" where
  "register_forwarded_tx_dropped m = m\<lparr>forwarded_txs_dropped := forwarded_txs_dropped m + 1\<rparr>"

definition register_timedout_tx_dropped :: "metrics \<Rightarrow> metrics" where
  "register_timedout_tx_dropped m = m\<lparr>timedout_txs_dropped := timedout_txs_dropped m + 1\<rparr>"

definition register_invalid_tx :: "metrics \<Rightarrow> metrics" where
  "register_invalid_tx m = m\<lparr>txs_invalid_counts := txs_invalid_counts m + 1\<rparr>"

definition set_txs_cache_size :: "usize \<Rightarrow> metrics \<Rightarrow> metrics" where
  "set_txs_cache_size len m =
     (case i64_try_from len of
        Some n \<Rightarrow> m\<lparr>txs_cache_size := n\<rparr>
      | None \<Rightarrow> m)"

lemmas metrics_defs =
  inc_peers_count_def dec_peers_count_def set_redundancy_def register_have_tx_sent_metric_def
  register_reset_route_sent_def tx_sent_def register_published_tx_def tx_recv_unfiltered_def
  tx_recv_def register_published_tx_dropped_def register_forwarded_tx_dropped_def
  register_timedout_tx_dropped_def register_invalid_tx_def

lemma set_disabled_routes_count_small [simp]:
  "n < 2 ^ 63 \<Longrightarrow> set_disabled_routes_count n m = m\<lparr>disabled_routes_count := int n\<rparr>"
  by (simp add: set_disabled_routes_count_def i64_try_from_def)

lemma set_txs_cache_size_small [simp]:
  "n < 2 ^ 63 \<Longrightarrow> set_txs_cache_size n m = m\<lparr>txs_cache_size := int n\<rparr>"
  by (simp add: set_txs_cache_size_def i64_try_from_def)

lemma disabled_routes_gauge_frame [frame]:
  "disabled_routes_count (inc_peers_count m) = disabled_routes_count m"
  "disabled_routes_count (dec_peers_count m) = disabled_routes_count m"
  "disabled_routes_count (set_redundancy r m) = disabled_routes_count m"
  "disabled_routes_count (register_have_tx_sent_metric m) = disabled_routes_count m"
  "disabled_routes_count (register_reset_route_sent m) = disabled_routes_count m"
  "disabled_routes_count (tx_sent n m) = disabled_routes_count m"
  "disabled_routes_count (register_published_tx m) = disabled_routes_count m"
  "disabled_routes_count (tx_recv_unfiltered n m) = disabled_routes_count m"
  "disabled_routes_count (tx_recv m) = disabled_routes_count m"
  "disabled_routes_count (register_published_tx_dropped m) = disabled_routes_count m"
  "disabled_routes_count (register_forwarded_tx_dropped m) = disabled_routes_count m"
  "disabled_routes_count (register_timedout_tx_dropped m) = disabled_routes_count m"
  "disabled_routes_count (register_invalid_tx m) = disabled_routes_count m"
  "disabled_routes_count (set_txs_cache_size n m) = disabled_routes_count m"
  by (simp_all add: metrics_defs set_txs_cache_size_def split: option.split)

lemma cache_gauge_frame [frame]:
  "txs_cache_size (inc_peers_count m) = txs_cache_size m"
  "txs_cache_size (dec_peers_count m) = txs_cache_size m"
  "txs_cache_size (set_redundancy r m) = txs_cache_size m"
  "txs_cache_size (register_have_tx_sent_metric m) = txs_cache_size m"
  "txs_cache_size (register_reset_route_sent m) = txs_cache_size m"
  "txs_cache_size (tx_sent n m) = txs_cache_size m"
  "txs_cache_size (register_published_tx m) = txs_cache_size m"
  "txs_cache_size (tx_recv_unfiltered n m) = txs_cache_size m"
  "txs_cache_size (tx_recv m) = txs_cache_size m"
  "txs_cache_size (register_published_tx_dropped m) = txs_cache_size m"
  "txs_cache_size (register_forwarded_tx_dropped m) = txs_cache_size m"
  "txs_cache_size (register_timedout_tx_dropped m) = txs_cache_size m"
  "txs_cache_size (register_invalid_tx m) = txs_cache_size m"
  "txs_cache_size (set_disabled_routes_count n m) = txs_cache_size m"
  by (simp_all add: metrics_defs set_disabled_routes_count_def split: option.split)

end
