(* ===== verification/Dog_Channel.thy ===== *)
theory Dog_Channel
  imports Dog_Prelude
begin

text \<open>
  The channels the send queues are made of (\<open>async_channel\<close>) and the peekable streams over
  their receiving ends (\<open>futures\<close>). Neither is part of the crate: their functions are a
  record, an argument of every definition that uses a queue, and what they are documented
  to do is a locale. \<open>'q\<close> is a channel, \<open>'r\<close> a peekable receiver, \<open>'m\<close> a message.
\<close>

record ('q, 'r, 'm) channel_ops =
  ch_unbounded :: 'q
  ch_bounded :: "nat \<Rightarrow> 'q option"
  ch_try_send :: "'m \<Rightarrow> 'q \<Rightarrow> 'm + 'q"
  rx_peekable :: 'r
  rx_poll_peek :: "'r \<Rightarrow> 'q \<Rightarrow> 'm option poll \<times> 'r \<times> 'q"
  rx_poll_next :: "'r \<Rightarrow> 'q \<Rightarrow> 'm option poll \<times> 'r \<times> 'q"

text \<open>
  \<open>items\<close> are the messages in a channel, \<open>capacity\<close> its bound if it has one, \<open>is_open\<close>
  whether it still has a sending end; \<open>slot\<close> is the message a peekable receiver holds
  back, if it has peeked. A bounded channel cannot be created with capacity 0 (it panics).
  Sending fails, and returns the message, on a full or closed channel. Receiving is first
  in, first out, a peeked message before the others; on an empty channel it is pending
  while the channel is open and ends the stream when it is closed.
\<close>

locale message_channel =
  fixes C :: "('q, 'r, 'm) channel_ops"
    and items :: "'q \<Rightarrow> 'm list"
    and capacity :: "'q \<Rightarrow> nat option"
    and is_open :: "'q \<Rightarrow> bool"
    and slot :: "'r \<Rightarrow> 'm list"
  assumes unbounded_new: "items (ch_unbounded C) = []" "capacity (ch_unbounded C) = None"
      "is_open (ch_unbounded C)"
    and bounded_zero: "ch_bounded C 0 = None"
    and bounded_new: "0 < n \<Longrightarrow>
      \<exists>q. ch_bounded C n = Some q \<and> items q = [] \<and> capacity q = Some n \<and> is_open q"
    and try_send_room: "is_open q \<Longrightarrow> (\<And>n. capacity q = Some n \<Longrightarrow> length (items q) < n) \<Longrightarrow>
      \<exists>q'. ch_try_send C m q = Inr q' \<and> items q' = items q @ [m]
        \<and> capacity q' = capacity q \<and> is_open q'"
    and try_send_full: "is_open q \<Longrightarrow> capacity q = Some n \<Longrightarrow> n \<le> length (items q) \<Longrightarrow>
      ch_try_send C m q = Inl m"
    and try_send_closed: "\<not> is_open q \<Longrightarrow> ch_try_send C m q = Inl m"
    and peekable_new: "slot (rx_peekable C) = []"
    and slot_one: "length (slot r) \<le> 1"
    and next_Cons: "slot r @ items q = m # ms \<Longrightarrow>
      \<exists>r' q'. rx_poll_next C r q = (Ready (Some m), r', q') \<and> slot r' = [] \<and> items q' = ms
        \<and> capacity q' = capacity q \<and> is_open q' = is_open q"
    and next_Nil: "slot r @ items q = [] \<Longrightarrow>
      \<exists>r' q'. rx_poll_next C r q = (if is_open q then Pending else Ready None, r', q')
        \<and> slot r' = [] \<and> items q' = [] \<and> capacity q' = capacity q \<and> is_open q' = is_open q"
    and peek_Cons: "slot r @ items q = m # ms \<Longrightarrow>
      \<exists>r' q'. rx_poll_peek C r q = (Ready (Some m), r', q') \<and> slot r' = [m] \<and> items q' = ms
        \<and> capacity q' = capacity q \<and> is_open q' = is_open q"
    and peek_Nil: "slot r @ items q = [] \<Longrightarrow>
      \<exists>r' q'. rx_poll_peek C r q = (if is_open q then Pending else Ready None, r', q')
        \<and> slot r' = [] \<and> items q' = [] \<and> capacity q' = capacity q \<and> is_open q' = is_open q"
begin

lemma next_cases:
  obtains (empty) r' q' where "slot r @ items q = []"
      and "rx_poll_next C r q = (if is_open q then Pending else Ready None, r', q')"
      and "slot r' @ items q' = []" and "slot r' = []" and "capacity q' = capacity q"
      and "is_open q' = is_open q"
  | (message) m ms r' q' where "slot r @ items q = m # ms"
      and "rx_poll_next C r q = (Ready (Some m), r', q')" and "slot r' @ items q' = ms"
      and "slot r' = []" and "capacity q' = capacity q" and "is_open q' = is_open q"
proof (cases "slot r @ items q")
  case Nil
  then show ?thesis using next_Nil [of r q] empty by auto
next
  case (Cons m ms)
  then show ?thesis using next_Cons [of r q m ms] message by auto
qed

lemma peek_cases:
  obtains (empty) r' q' where "slot r @ items q = []"
      and "rx_poll_peek C r q = (if is_open q then Pending else Ready None, r', q')"
      and "slot r' @ items q' = []" and "slot r' = []" and "capacity q' = capacity q"
      and "is_open q' = is_open q"
  | (message) m ms r' q' where "slot r @ items q = m # ms"
      and "rx_poll_peek C r q = (Ready (Some m), r', q')" and "slot r' @ items q' = m # ms"
      and "slot r' = [m]" and "capacity q' = capacity q" and "is_open q' = is_open q"
proof (cases "slot r @ items q")
  case Nil
  then show ?thesis using peek_Nil [of r q] empty by auto
next
  case (Cons m ms)
  then show ?thesis using peek_Cons [of r q m ms] message by auto
qed

end

section \<open>A channel as a list\<close>

text \<open>
  The smallest thing that behaves so: a list with an optional bound and an open flag, and a
  slot for the peeked message. The witnesses run on it.
\<close>

type_synonym 'm list_queue = "'m list \<times> nat option \<times> bool"

fun list_try_send :: "'m \<Rightarrow> 'm list_queue \<Rightarrow> 'm + 'm list_queue" where
  "list_try_send m (ms, cap, opn) =
     (if opn \<and> (case cap of None \<Rightarrow> True | Some n \<Rightarrow> length ms < n)
      then Inr (ms @ [m], cap, opn) else Inl m)"

fun list_poll_next :: "'m option \<Rightarrow> 'm list_queue \<Rightarrow> 'm option poll \<times> 'm option \<times> 'm list_queue" where
  "list_poll_next (Some m) q = (Ready (Some m), None, q)"
| "list_poll_next None (m # ms, cap, opn) = (Ready (Some m), None, (ms, cap, opn))"
| "list_poll_next None ([], cap, opn) = ((if opn then Pending else Ready None), None, ([], cap, opn))"

fun list_poll_peek :: "'m option \<Rightarrow> 'm list_queue \<Rightarrow> 'm option poll \<times> 'm option \<times> 'm list_queue" where
  "list_poll_peek (Some m) q = (Ready (Some m), Some m, q)"
| "list_poll_peek None (m # ms, cap, opn) = (Ready (Some m), Some m, (ms, cap, opn))"
| "list_poll_peek None ([], cap, opn) = ((if opn then Pending else Ready None), None, ([], cap, opn))"

definition list_channel :: "('m list_queue, 'm option, 'm) channel_ops" where
  "list_channel =
     \<lparr>ch_unbounded = ([], None, True),
      ch_bounded = (\<lambda>n. if n = 0 then None else Some ([], Some n, True)),
      ch_try_send = list_try_send,
      rx_peekable = None,
      rx_poll_peek = list_poll_peek,
      rx_poll_next = list_poll_next\<rparr>"

fun list_items :: "'m list_queue \<Rightarrow> 'm list" where
  "list_items (ms, cap, opn) = ms"

fun list_capacity :: "'m list_queue \<Rightarrow> nat option" where
  "list_capacity (ms, cap, opn) = cap"

fun list_open :: "'m list_queue \<Rightarrow> bool" where
  "list_open (ms, cap, opn) = opn"

fun list_slot :: "'m option \<Rightarrow> 'm list" where
  "list_slot None = []"
| "list_slot (Some m) = [m]"

interpretation lc: message_channel list_channel list_items list_capacity list_open list_slot
proof
  fix q :: "'m list_queue" and r :: "'m option" and m :: 'm and ms n
  obtain l cap opn where q: "q = (l, cap, opn)" by (cases q) auto
  show "\<exists>q'. ch_try_send list_channel m q = Inr q' \<and> list_items q' = list_items q @ [m]
      \<and> list_capacity q' = list_capacity q \<and> list_open q'"
    if "list_open q" and "\<And>n. list_capacity q = Some n \<Longrightarrow> length (list_items q) < n"
    using that q by (auto simp: list_channel_def split: option.split)
  show "\<exists>r' q'. rx_poll_next list_channel r q = (Ready (Some m), r', q') \<and> list_slot r' = []
      \<and> list_items q' = ms \<and> list_capacity q' = list_capacity q \<and> list_open q' = list_open q"
    if "list_slot r @ list_items q = m # ms"
    using that q by (cases r; cases l) (auto simp: list_channel_def)
  show "\<exists>r' q'. rx_poll_peek list_channel r q = (Ready (Some m), r', q') \<and> list_slot r' = [m]
      \<and> list_items q' = ms \<and> list_capacity q' = list_capacity q \<and> list_open q' = list_open q"
    if "list_slot r @ list_items q = m # ms"
    using that q by (cases r; cases l) (auto simp: list_channel_def)
  show "\<exists>r' q'. rx_poll_next list_channel r q = (if list_open q then Pending else Ready None, r', q')
      \<and> list_slot r' = [] \<and> list_items q' = [] \<and> list_capacity q' = list_capacity q
      \<and> list_open q' = list_open q"
    if "list_slot r @ list_items q = []"
    using that q by (cases r; cases l) (auto simp: list_channel_def)
  show "\<exists>r' q'. rx_poll_peek list_channel r q = (if list_open q then Pending else Ready None, r', q')
      \<and> list_slot r' = [] \<and> list_items q' = [] \<and> list_capacity q' = list_capacity q
      \<and> list_open q' = list_open q"
    if "list_slot r @ list_items q = []"
    using that q by (cases r; cases l) (auto simp: list_channel_def)
  show "ch_try_send list_channel m q = Inl m"
    if "list_open q" and "list_capacity q = Some n" and "n \<le> length (list_items q)" for n
    using that q by (auto simp: list_channel_def)
  show "length (list_slot r) \<le> 1" by (cases r) auto
  show "ch_try_send list_channel m q = Inl m" if "\<not> list_open q"
    using that q by (auto simp: list_channel_def)
qed (auto simp: list_channel_def)

end
