(* ===== verification/Dog_Rpc_Queue.thy ===== *)
theory Dog_Rpc_Queue
  imports Dog_Types Dog_Channel
begin

text \<open>
  The send queue of a peer (\<open>rpc.rs\<close>): the \<open>Sender\<close> the behaviour keeps and the
  \<open>Receiver\<close> of each connection handler. They share two channels and an atomic length, the
  record \<open>send_channels\<close>, which the operations of both take and return; the rest of a
  receiver is what its two peekable streams hold back.
\<close>

section \<open>Sender and receiver\<close>

record 'q send_channels =
  queue_len :: u64
  priority_channel :: 'q
  non_priority_channel :: 'q

record 'q sender =
  priority_cap :: usize
  sender_channels :: "'q send_channels"

record 'r receiver =
  priority_receiver :: 'r
  non_priority_receiver :: 'r

text \<open>\<open>None\<close> is the panic of \<open>async_channel::bounded\<close>.\<close>

definition sender_new :: "('q, 'r, 'p rpc_out) channel_ops \<Rightarrow> usize \<Rightarrow> 'q sender option" where
  "sender_new C cap =
     (case ch_bounded C (cap div 2) of
        None \<Rightarrow> None
      | Some non_priority \<Rightarrow>
          Some \<lparr>priority_cap = cap div 2,
                sender_channels =
                  \<lparr>queue_len = 0, priority_channel = ch_unbounded C,
                   non_priority_channel = non_priority\<rparr>\<rparr>)"

definition new_receiver :: "('q, 'r, 'p rpc_out) channel_ops \<Rightarrow> 'q sender \<Rightarrow> 'r receiver" where
  "new_receiver C s =
     \<lparr>priority_receiver = rx_peekable C, non_priority_receiver = rx_peekable C\<rparr>"

definition send_on_priority ::
  "('q, 'r, 'p rpc_out) channel_ops \<Rightarrow> 'p rpc_out \<Rightarrow> 'q send_channels \<Rightarrow>
   ('p rpc_out + unit) \<times> 'q send_channels" where
  "send_on_priority C rpc ch =
     (case ch_try_send C rpc (priority_channel ch) of
        Inl refused \<Rightarrow> (Inl refused, ch)
      | Inr q \<Rightarrow> (Inr (), ch\<lparr>priority_channel := q\<rparr>))"

definition send_on_non_priority ::
  "('q, 'r, 'p rpc_out) channel_ops \<Rightarrow> 'p rpc_out \<Rightarrow> 'q send_channels \<Rightarrow>
   ('p rpc_out + unit) \<times> 'q send_channels" where
  "send_on_non_priority C rpc ch =
     (case ch_try_send C rpc (non_priority_channel ch) of
        Inl refused \<Rightarrow> (Inl refused, ch)
      | Inr q \<Rightarrow> (Inr (), ch\<lparr>non_priority_channel := q\<rparr>))"

text \<open>
  The capacity check and the increment are for \<open>Publish\<close> only; the increment is a load and
  a store, whose interleaving with the receivers is the subject of theory Dog_Queue_Race.
\<close>

definition sender_send_transaction ::
  "('q, 'r, 'p rpc_out) channel_ops \<Rightarrow> 'p rpc_out \<Rightarrow> 'q sender \<Rightarrow>
   ('p rpc_out + unit) \<times> 'q sender" where
  "sender_send_transaction C rpc s =
     (let ch = sender_channels s
      in if is_publish rpc \<and> unat (queue_len ch) \<ge> priority_cap s then (Inl rpc, s)
         else
           let ch = (if is_publish rpc then ch\<lparr>queue_len := queue_len ch + 1\<rparr> else ch);
               (res, ch) =
                 (case rpc of
                    Publish tx timeout \<Rightarrow> send_on_priority C rpc ch
                  | HaveTx h \<Rightarrow> send_on_priority C rpc ch
                  | SendResetRoute x \<Rightarrow> send_on_priority C rpc ch
                  | Forward tx timeout \<Rightarrow> send_on_non_priority C rpc ch)
           in (res, s\<lparr>sender_channels := ch\<rparr>))"

section \<open>Receiving\<close>

type_synonym ('q, 'r) receiving = "'r receiver \<times> 'q send_channels"

text \<open>
  \<open>Receiver::poll_next\<close>: the priority stream first, whatever it is ready with (its end
  included), and the decrement of the atomic length for a \<open>Publish\<close>; \<open>fetch_sub\<close> wraps.
\<close>

definition receiver_poll_next ::
  "('q, 'r, 'p rpc_out) channel_ops \<Rightarrow> ('q, 'r) receiving \<Rightarrow>
   'p rpc_out option poll \<times> ('q, 'r) receiving" where
  "receiver_poll_next C x =
     (let (rv, ch) = x
      in case rx_poll_next C (priority_receiver rv) (priority_channel ch) of
           (Ready rpc, r, q) \<Rightarrow>
             (Ready rpc, rv\<lparr>priority_receiver := r\<rparr>,
              ch\<lparr>priority_channel := q,
                 queue_len := (case rpc of
                                 Some m \<Rightarrow> if is_publish m then queue_len ch - 1 else queue_len ch
                               | None \<Rightarrow> queue_len ch)\<rparr>)
         | (Pending, r, q) \<Rightarrow>
             (case rx_poll_next C (non_priority_receiver rv) (non_priority_channel ch) of
                (res, r', q') \<Rightarrow>
                  (res, rv\<lparr>priority_receiver := r, non_priority_receiver := r'\<rparr>,
                   ch\<lparr>priority_channel := q, non_priority_channel := q'\<rparr>)))"

text \<open>
  \<open>poll_stale\<close> looks at the head of each stream in turn: a \<open>Publish\<close> at the head of the
  priority stream, a \<open>Forward\<close> at the head of the other, is dropped and returned when its
  delay has elapsed. \<open>StalePanic\<close> is the \<open>expect\<close> of the source, \<open>StaleWait\<close> the early
  return of \<open>ready!\<close>.
\<close>

datatype 'm stale = StaleDropped 'm | StaleWait | StalePanic | StaleKeep "'m option poll"

fun publish_timeout :: "'p rpc_out \<Rightarrow> delay option" where
  "publish_timeout (Publish tx timeout) = Some timeout"
| "publish_timeout _ = None"

fun forward_timeout :: "'p rpc_out \<Rightarrow> delay option" where
  "forward_timeout (Forward tx timeout) = Some timeout"
| "forward_timeout _ = None"

definition stale_head ::
  "('q, 'r, 'p rpc_out) channel_ops \<Rightarrow> (delay \<Rightarrow> bool) \<Rightarrow> ('p rpc_out \<Rightarrow> delay option) \<Rightarrow>
   'r \<Rightarrow> 'q \<Rightarrow> 'p rpc_out stale \<times> 'r \<times> 'q" where
  "stale_head C elapsed timeout_of r q =
     (case rx_poll_peek C r q of
        (res, r, q) \<Rightarrow>
          (case res of
             Ready (Some m) \<Rightarrow>
               (case timeout_of m of
                  Some timeout \<Rightarrow>
                    if elapsed timeout then
                      (case rx_poll_next C r q of
                         (Pending, r, q) \<Rightarrow> (StaleWait, r, q)
                       | (Ready None, r, q) \<Rightarrow> (StalePanic, r, q)
                       | (Ready (Some dropped), r, q) \<Rightarrow> (StaleDropped dropped, r, q))
                    else (StaleKeep (Ready None), r, q)
                | None \<Rightarrow> (StaleKeep res, r, q))
           | _ \<Rightarrow> (StaleKeep res, r, q)))"

text \<open>\<open>None\<close> is a panic.\<close>

definition receiver_poll_stale ::
  "('q, 'r, 'p rpc_out) channel_ops \<Rightarrow> (delay \<Rightarrow> bool) \<Rightarrow> ('q, 'r) receiving \<Rightarrow>
   ('p rpc_out option poll \<times> ('q, 'r) receiving) option" where
  "receiver_poll_stale C elapsed x =
     (let (rv, ch) = x;
          (priority, r, q) =
            stale_head C elapsed publish_timeout (priority_receiver rv) (priority_channel ch);
          rv = rv\<lparr>priority_receiver := r\<rparr>;
          ch = ch\<lparr>priority_channel := q\<rparr>
      in case priority of
           StaleDropped m \<Rightarrow> Some (Ready (Some m), rv, ch)
         | StaleWait \<Rightarrow> Some (Pending, rv, ch)
         | StalePanic \<Rightarrow> None
         | StaleKeep p \<Rightarrow>
             (let (non_priority, r, q) =
                    stale_head C elapsed forward_timeout (non_priority_receiver rv)
                      (non_priority_channel ch);
                  rv = rv\<lparr>non_priority_receiver := r\<rparr>;
                  ch = ch\<lparr>non_priority_channel := q\<rparr>
              in case non_priority of
                   StaleDropped m \<Rightarrow> Some (Ready (Some m), rv, ch)
                 | StaleWait \<Rightarrow> Some (Pending, rv, ch)
                 | StalePanic \<Rightarrow> None
                 | StaleKeep n \<Rightarrow>
                     Some (case (p, n) of (Ready None, Ready None) \<Rightarrow> Ready None | _ \<Rightarrow> Pending,
                           rv, ch)))"

definition receiver_poll_is_empty ::
  "('q, 'r, 'p rpc_out) channel_ops \<Rightarrow> ('q, 'r) receiving \<Rightarrow> bool \<times> ('q, 'r) receiving" where
  "receiver_poll_is_empty C x =
     (let (rv, ch) = x;
          (p, r, q) = rx_poll_peek C (priority_receiver rv) (priority_channel ch);
          (n, r', q') = rx_poll_peek C (non_priority_receiver rv) (non_priority_channel ch)
      in (case (p, n) of (Ready None, Ready None) \<Rightarrow> True | _ \<Rightarrow> False,
          \<lparr>priority_receiver = r, non_priority_receiver = r'\<rparr>,
          ch\<lparr>priority_channel := q, non_priority_channel := q'\<rparr>))"

section \<open>Well-formed queues\<close>

definition publishes :: "'p rpc_out list \<Rightarrow> nat" where
  "publishes ms = length (filter is_publish ms)"

lemma publishes_simps [simp]:
  "publishes [] = 0"
  "publishes (m # ms) = (if is_publish m then Suc (publishes ms) else publishes ms)"
  "publishes (ms @ ns) = publishes ms + publishes ns"
  by (simp_all add: publishes_def)

text \<open>
  The channels of a live sender: both open, the priority channel unbounded, the other
  bounded by the capacity that also bounds the atomic length.
\<close>

definition channels_ok ::
  "('q \<Rightarrow> 'p rpc_out list) \<Rightarrow> ('q \<Rightarrow> nat option) \<Rightarrow> ('q \<Rightarrow> bool) \<Rightarrow> nat \<Rightarrow> 'q send_channels \<Rightarrow> bool" where
  "channels_ok items capacity is_open cap ch \<longleftrightarrow>
     is_open (priority_channel ch) \<and> is_open (non_priority_channel ch)
     \<and> capacity (priority_channel ch) = None \<and> capacity (non_priority_channel ch) = Some cap
     \<and> length (items (non_priority_channel ch)) \<le> cap
     \<and> unat (queue_len ch) \<le> cap"

text \<open>Whether \<open>poll_stale\<close> drops the head of a stream with these messages.\<close>

fun drops :: "(delay \<Rightarrow> bool) \<Rightarrow> ('m \<Rightarrow> delay option) \<Rightarrow> 'm list \<Rightarrow> bool" where
  "drops elapsed timeout_of [] = False"
| "drops elapsed timeout_of (m # ms) = (case timeout_of m of Some d \<Rightarrow> elapsed d | None \<Rightarrow> False)"

text \<open>What looking at the head of a stream yields when \<open>poll_stale\<close> does not drop it.\<close>

fun kept :: "('m \<Rightarrow> delay option) \<Rightarrow> bool \<Rightarrow> 'm list \<Rightarrow> 'm option poll" where
  "kept timeout_of opn [] = (if opn then Pending else Ready None)"
| "kept timeout_of opn (m # ms) = (case timeout_of m of None \<Rightarrow> Ready (Some m) | Some d \<Rightarrow> Ready None)"

text \<open>\<open>priority_pending\<close> is what one receiver has still to deliver from the priority stream.\<close>

definition priority_pending ::
  "('q \<Rightarrow> 'm list) \<Rightarrow> ('r \<Rightarrow> 'm list) \<Rightarrow> ('q, 'r) receiving \<Rightarrow> 'm list" where
  "priority_pending items slot x =
     slot (priority_receiver (fst x)) @ items (priority_channel (snd x))"

definition non_priority_pending ::
  "('q \<Rightarrow> 'm list) \<Rightarrow> ('r \<Rightarrow> 'm list) \<Rightarrow> ('q, 'r) receiving \<Rightarrow> 'm list" where
  "non_priority_pending items slot x =
     slot (non_priority_receiver (fst x)) @ items (non_priority_channel (snd x))"

lemmas pending_defs = priority_pending_def non_priority_pending_def

lemma pending_update [simp]:
  "priority_pending items slot (rv\<lparr>priority_receiver := r\<rparr>, ch\<lparr>priority_channel := q, queue_len := n\<rparr>)
    = slot r @ items q"
  "priority_pending items slot (rv\<lparr>priority_receiver := r\<rparr>, ch\<lparr>priority_channel := q\<rparr>) = slot r @ items q"
  "priority_pending items slot (rv\<lparr>priority_receiver := r, non_priority_receiver := r'\<rparr>,
      ch\<lparr>priority_channel := q, non_priority_channel := q'\<rparr>) = slot r @ items q"
  "non_priority_pending items slot (rv\<lparr>priority_receiver := r\<rparr>, ch\<lparr>priority_channel := q, queue_len := n\<rparr>)
    = non_priority_pending items slot (rv, ch)"
  "non_priority_pending items slot (rv\<lparr>priority_receiver := r\<rparr>, ch\<lparr>priority_channel := q\<rparr>)
    = non_priority_pending items slot (rv, ch)"
  "non_priority_pending items slot (rv\<lparr>priority_receiver := r, non_priority_receiver := r'\<rparr>,
      ch\<lparr>priority_channel := q, non_priority_channel := q'\<rparr>) = slot r' @ items q'"
  by (simp_all add: pending_defs)

text \<open>
  The invariant of a sender as one of its receivers sees it: forwarded transactions are in
  the non-priority channel, everything else in the other, and the atomic length is never
  below the number of \<open>Publish\<close> messages this receiver has still to deliver plus the
  number \<open>held\<close> of those the other receivers hold back.
\<close>

definition queue_ok ::
  "('q \<Rightarrow> 'p rpc_out list) \<Rightarrow> ('q \<Rightarrow> nat option) \<Rightarrow> ('q \<Rightarrow> bool) \<Rightarrow> ('r \<Rightarrow> 'p rpc_out list) \<Rightarrow>
   nat \<Rightarrow> 'q sender \<Rightarrow> 'r receiver \<Rightarrow> bool" where
  "queue_ok items capacity is_open slot held s rv \<longleftrightarrow>
     channels_ok items capacity is_open (priority_cap s) (sender_channels s)
     \<and> (\<forall>m \<in> set (priority_pending items slot (rv, sender_channels s)). \<not> is_forward m)
     \<and> (\<forall>m \<in> set (non_priority_pending items slot (rv, sender_channels s)). is_forward m)
     \<and> publishes (priority_pending items slot (rv, sender_channels s)) + held
         \<le> unat (queue_len (sender_channels s))"

lemma u64_dec: "0 < unat (n :: u64) \<Longrightarrow> unat (n - 1) = unat n - 1"
  by (simp add: unat_sub_if_size)

lemma u64_inc: "unat (n :: u64) < c \<Longrightarrow> c < 2 ^ 64 \<Longrightarrow> unat (n + 1) = unat n + 1"
  by (simp add: unat_word_ariths)

section \<open>What the operations do on a lawful channel\<close>

locale rpc_channel = message_channel C items capacity is_open slot
  for C :: "('q, 'r, 'p rpc_out) channel_ops" and items capacity is_open slot
begin

lemma sender_new_Some:
  "2 \<le> cap \<Longrightarrow> \<exists>np. sender_new C cap = Some \<lparr>priority_cap = cap div 2, sender_channels =
     \<lparr>queue_len = 0, priority_channel = ch_unbounded C, non_priority_channel = np\<rparr>\<rparr>
     \<and> items np = [] \<and> capacity np = Some (cap div 2) \<and> is_open np"
  using bounded_new [of "cap div 2"] by (auto simp: sender_new_def)

lemma sender_new_None: "sender_new C cap = None \<longleftrightarrow> cap < 2"
proof (cases "cap < 2")
  case True
  then have "cap div 2 = 0" by simp
  with True show ?thesis by (simp add: sender_new_def bounded_zero)
next
  case False
  then show ?thesis using sender_new_Some [of cap] by auto
qed

lemma send_publish_refused:
  "is_publish m \<Longrightarrow> priority_cap s \<le> unat (queue_len (sender_channels s)) \<Longrightarrow>
   sender_send_transaction C m s = (Inl m, s)"
  by (simp add: sender_send_transaction_def Let_def)

text \<open>A message for the priority channel is appended there, a publish counted.\<close>

lemma send_priority:
  assumes ok: "channels_ok items capacity is_open (priority_cap s) (sender_channels s)"
    and "\<not> is_forward m"
    and room: "is_publish m \<Longrightarrow> unat (queue_len (sender_channels s)) < priority_cap s"
  obtains q where "sender_send_transaction C m s = (Inr (),
      s\<lparr>sender_channels := (sender_channels s)\<lparr>priority_channel := q,
        queue_len := queue_len (sender_channels s) + (if is_publish m then 1 else 0)\<rparr>\<rparr>)"
    and "items q = items (priority_channel (sender_channels s)) @ [m]"
    and "capacity q = None" and "is_open q"
proof -
  from ok obtain q where q: "ch_try_send C m (priority_channel (sender_channels s)) = Inr q"
    "items q = items (priority_channel (sender_channels s)) @ [m]" "capacity q = None" "is_open q"
    using try_send_room [of "priority_channel (sender_channels s)" m] by (auto simp: channels_ok_def)
  show ?thesis
    by (rule that [OF _ q(2-4)])
      (use assms(2) room q(1) in \<open>cases m; simp add: sender_send_transaction_def Let_def send_on_priority_def\<close>)
qed

lemma send_forward_room:
  assumes ok: "channels_ok items capacity is_open (priority_cap s) (sender_channels s)"
    and "is_forward m"
    and "length (items (non_priority_channel (sender_channels s))) < priority_cap s"
  obtains q where "sender_send_transaction C m s =
      (Inr (), s\<lparr>sender_channels := (sender_channels s)\<lparr>non_priority_channel := q\<rparr>\<rparr>)"
    and "items q = items (non_priority_channel (sender_channels s)) @ [m]"
    and "capacity q = Some (priority_cap s)" and "is_open q"
proof -
  from ok assms(3) obtain q where q:
    "ch_try_send C m (non_priority_channel (sender_channels s)) = Inr q"
    "items q = items (non_priority_channel (sender_channels s)) @ [m]"
    "capacity q = Some (priority_cap s)" "is_open q"
    using try_send_room [of "non_priority_channel (sender_channels s)" m] by (auto simp: channels_ok_def)
  show ?thesis
    by (rule that [OF _ q(2-4)])
      (use assms(2) q(1) in \<open>cases m; simp add: sender_send_transaction_def Let_def send_on_non_priority_def\<close>)
qed

lemma send_forward_full:
  assumes ok: "channels_ok items capacity is_open (priority_cap s) (sender_channels s)"
    and "is_forward m"
    and "priority_cap s \<le> length (items (non_priority_channel (sender_channels s)))"
  shows "sender_send_transaction C m s = (Inl m, s)"
proof -
  have "ch_try_send C m (non_priority_channel (sender_channels s)) = Inl m"
    using ok assms(3) by (intro try_send_full) (auto simp: channels_ok_def)
  with assms(2) show ?thesis
    by (cases m; cases s) (simp_all add: sender_send_transaction_def Let_def send_on_non_priority_def)
qed

lemma sender_send_cap:
  "priority_cap (snd (sender_send_transaction C m s)) = priority_cap s"
  by (simp add: sender_send_transaction_def Let_def split: prod.split)

text \<open>Every send keeps the invariant.\<close>

lemma send_queue_ok:
  assumes ok: "queue_ok items capacity is_open slot held s rv" and "priority_cap s < 2 ^ 64"
  shows "queue_ok items capacity is_open slot held (snd (sender_send_transaction C m s)) rv"
proof -
  from ok have ch: "channels_ok items capacity is_open (priority_cap s) (sender_channels s)"
    by (simp add: queue_ok_def)
  show ?thesis
  proof (cases "is_forward m")
    case True
    show ?thesis
    proof (cases "length (items (non_priority_channel (sender_channels s))) < priority_cap s")
      case room: True
      from send_forward_room [OF ch True room] obtain q where
        "sender_send_transaction C m s =
          (Inr (), s\<lparr>sender_channels := (sender_channels s)\<lparr>non_priority_channel := q\<rparr>\<rparr>)"
        "items q = items (non_priority_channel (sender_channels s)) @ [m]"
        "capacity q = Some (priority_cap s)" "is_open q" .
      with ok True room show ?thesis
        by (auto simp: queue_ok_def channels_ok_def pending_defs)
    next
      case False
      with send_forward_full [OF ch True] ok show ?thesis by simp
    qed
  next
    case not_fwd: False
    show ?thesis
    proof (cases "is_publish m \<and> priority_cap s \<le> unat (queue_len (sender_channels s))")
      case True
      with ok send_publish_refused [of m s] show ?thesis by simp
    next
      case False
      then obtain q where q: "sender_send_transaction C m s = (Inr (),
          s\<lparr>sender_channels := (sender_channels s)\<lparr>priority_channel := q,
            queue_len := queue_len (sender_channels s) + (if is_publish m then 1 else 0)\<rparr>\<rparr>)"
        "items q = items (priority_channel (sender_channels s)) @ [m]"
        "capacity q = None" "is_open q"
        using send_priority [OF ch not_fwd] by (metis not_le)
      have "unat (queue_len (sender_channels s) + (if is_publish m then 1 else 0))
          = unat (queue_len (sender_channels s)) + (if is_publish m then 1 else 0)"
        using False assms(2) u64_inc [of "queue_len (sender_channels s)" "priority_cap s"]
        by (cases "is_publish m") auto
      with ok q not_fwd False show ?thesis
        by (auto simp: queue_ok_def channels_ok_def pending_defs)
    qed
  qed
qed

end

section \<open>Receiving on a lawful channel\<close>

context rpc_channel
begin

lemma poll_next_priority:
  assumes "priority_pending items slot (rv, ch) = m # ms"
  obtains r q where "receiver_poll_next C (rv, ch) = (Ready (Some m), rv\<lparr>priority_receiver := r\<rparr>,
      ch\<lparr>priority_channel := q,
         queue_len := (if is_publish m then queue_len ch - 1 else queue_len ch)\<rparr>)"
    and "slot r = []" and "items q = ms"
    and "capacity q = capacity (priority_channel ch)" and "is_open q = is_open (priority_channel ch)"
proof -
  from assms next_Cons [of "priority_receiver rv" "priority_channel ch" m ms] obtain r q where
    "rx_poll_next C (priority_receiver rv) (priority_channel ch) = (Ready (Some m), r, q)"
    "slot r = []" "items q = ms" "capacity q = capacity (priority_channel ch)"
    "is_open q = is_open (priority_channel ch)"
    by (auto simp: priority_pending_def)
  then show ?thesis by (intro that [of r q]) (simp_all add: receiver_poll_next_def)
qed

lemma poll_next_non_priority:
  assumes "priority_pending items slot (rv, ch) = []" and "is_open (priority_channel ch)"
    and "non_priority_pending items slot (rv, ch) = m # ms"
  obtains r q r' q' where "receiver_poll_next C (rv, ch) = (Ready (Some m),
      rv\<lparr>priority_receiver := r, non_priority_receiver := r'\<rparr>,
      ch\<lparr>priority_channel := q, non_priority_channel := q'\<rparr>)"
    and "slot r = []" and "items q = []" and "capacity q = capacity (priority_channel ch)"
    and "is_open q" and "slot r' = []" and "items q' = ms"
    and "capacity q' = capacity (non_priority_channel ch)"
    and "is_open q' = is_open (non_priority_channel ch)"
proof -
  from assms(1,2) next_Nil [of "priority_receiver rv" "priority_channel ch"] obtain r q where
    "rx_poll_next C (priority_receiver rv) (priority_channel ch) = (Pending, r, q)"
    "slot r = []" "items q = []" "capacity q = capacity (priority_channel ch)" "is_open q"
    by (auto simp: priority_pending_def)
  moreover from assms(3) next_Cons [of "non_priority_receiver rv" "non_priority_channel ch" m ms] obtain r' q' where
    "rx_poll_next C (non_priority_receiver rv) (non_priority_channel ch) = (Ready (Some m), r', q')"
    "slot r' = []" "items q' = ms" "capacity q' = capacity (non_priority_channel ch)"
    "is_open q' = is_open (non_priority_channel ch)"
    by (auto simp: non_priority_pending_def)
  ultimately show ?thesis by (intro that [where r = r and q = q and r' = r' and q' = q']) (simp_all add: receiver_poll_next_def)
qed

lemma poll_next_empty:
  assumes "priority_pending items slot (rv, ch) = []" and "is_open (priority_channel ch)"
    and "non_priority_pending items slot (rv, ch) = []" and "is_open (non_priority_channel ch)"
  obtains r q r' q' where "receiver_poll_next C (rv, ch) = (Pending,
      rv\<lparr>priority_receiver := r, non_priority_receiver := r'\<rparr>,
      ch\<lparr>priority_channel := q, non_priority_channel := q'\<rparr>)"
    and "slot r = []" and "items q = []" and "capacity q = capacity (priority_channel ch)"
    and "is_open q" and "slot r' = []" and "items q' = []"
    and "capacity q' = capacity (non_priority_channel ch)" and "is_open q'"
proof -
  from assms(1,2) next_Nil [of "priority_receiver rv" "priority_channel ch"] obtain r q where
    "rx_poll_next C (priority_receiver rv) (priority_channel ch) = (Pending, r, q)"
    "slot r = []" "items q = []" "capacity q = capacity (priority_channel ch)" "is_open q"
    by (auto simp: priority_pending_def)
  moreover from assms(3,4) next_Nil [of "non_priority_receiver rv" "non_priority_channel ch"] obtain r' q' where
    "rx_poll_next C (non_priority_receiver rv) (non_priority_channel ch) = (Pending, r', q')"
    "slot r' = []" "items q' = []" "capacity q' = capacity (non_priority_channel ch)" "is_open q'"
    by (auto simp: non_priority_pending_def)
  ultimately show ?thesis by (intro that [where r = r and q = q and r' = r' and q' = q']) (simp_all add: receiver_poll_next_def)
qed

text \<open>Receiving keeps the invariant; in particular the decrement never wraps.\<close>

lemma poll_next_queue_ok:
  assumes ok: "queue_ok items capacity is_open slot held s rv"
    and "receiver_poll_next C (rv, sender_channels s) = (res, rv', ch')"
  shows "queue_ok items capacity is_open slot held (s\<lparr>sender_channels := ch'\<rparr>) rv'"
proof -
  let ?ch = "sender_channels s"
  have opn: "is_open (priority_channel ?ch)" "is_open (non_priority_channel ?ch)"
    using ok by (auto simp: queue_ok_def channels_ok_def)
  show ?thesis
  proof (cases "priority_pending items slot (rv, ?ch)")
    case (Cons m ms)
    from poll_next_priority [OF Cons] obtain r q where
      "receiver_poll_next C (rv, ?ch) = (Ready (Some m), rv\<lparr>priority_receiver := r\<rparr>,
        ?ch\<lparr>priority_channel := q,
           queue_len := (if is_publish m then queue_len ?ch - 1 else queue_len ?ch)\<rparr>)"
      "slot r = []" "items q = ms" "capacity q = capacity (priority_channel ?ch)"
      "is_open q = is_open (priority_channel ?ch)" .
    moreover have "is_publish m \<Longrightarrow> unat (queue_len ?ch - 1) = unat (queue_len ?ch) - 1"
      using ok Cons by (intro u64_dec) (simp add: queue_ok_def)
    ultimately show ?thesis
      using ok Cons assms(2) by (auto simp: queue_ok_def channels_ok_def)
  next
    case Nil
    show ?thesis
    proof (cases "non_priority_pending items slot (rv, ?ch)")
      case np: Nil
      from poll_next_empty [OF Nil opn(1) np opn(2)] obtain r q r' q' where new:
        "receiver_poll_next C (rv, ?ch) = (Pending,
          rv\<lparr>priority_receiver := r, non_priority_receiver := r'\<rparr>,
          ?ch\<lparr>priority_channel := q, non_priority_channel := q'\<rparr>)"
        and "slot r = []" "items q = []" "capacity q = capacity (priority_channel ?ch)"
        "is_open q" "slot r' = []" "items q' = []"
        "capacity q' = capacity (non_priority_channel ?ch)" "is_open q'" .
      then show ?thesis
        using ok assms(2) new unfolding queue_ok_def channels_ok_def by simp
    next
      case (Cons m ms)
      have "length ms \<le> length (items (non_priority_channel ?ch))"
        using arg_cong [OF Cons, of length] slot_one [of "non_priority_receiver rv"]
        by (simp add: non_priority_pending_def)
      then have len: "length ms \<le> priority_cap s"
        using ok by (simp add: queue_ok_def channels_ok_def)
      from poll_next_non_priority [OF Nil opn(1) Cons] obtain r q r' q' where new:
        "receiver_poll_next C (rv, ?ch) = (Ready (Some m),
          rv\<lparr>priority_receiver := r, non_priority_receiver := r'\<rparr>,
          ?ch\<lparr>priority_channel := q, non_priority_channel := q'\<rparr>)"
        and "slot r = []" "items q = []" "capacity q = capacity (priority_channel ?ch)"
        "is_open q" "slot r' = []" "items q' = ms"
        "capacity q' = capacity (non_priority_channel ?ch)"
        "is_open q' = is_open (non_priority_channel ?ch)" .
      then show ?thesis
        using ok assms(2) new Cons len unfolding queue_ok_def channels_ok_def by simp
    qed
  qed
qed

section \<open>Dropping what is stale\<close>

lemma stale_head_spec:
  obtains r' q' where "stale_head C elapsed timeout_of r q =
      ((case slot r @ items q of
          [] \<Rightarrow> StaleKeep (if is_open q then Pending else Ready None)
        | m # ms \<Rightarrow> (case timeout_of m of
             None \<Rightarrow> StaleKeep (Ready (Some m))
           | Some d \<Rightarrow> if elapsed d then StaleDropped m else StaleKeep (Ready None))), r', q')"
    and "slot r' @ items q' =
      (if drops elapsed timeout_of (slot r @ items q) then tl (slot r @ items q) else slot r @ items q)"
    and "length (items q') \<le> length (items q)"
    and "capacity q' = capacity q" and "is_open q' = is_open q"
proof (cases rule: peek_cases [of r q])
  case (empty r' q')
  then show ?thesis
    by (intro that [of r' q']) (auto simp: stale_head_def)
next
  case (message m ms r' q')
  have len: "length (items q') \<le> length (items q)"
    using arg_cong [OF message(1), of length] arg_cong [OF message(3), of length] message(4) slot_one [of r]
    by simp
  show ?thesis
  proof (cases "drops elapsed timeout_of (m # ms)")
    case False
    with message len show ?thesis
      by (intro that [of r' q']) (auto simp: stale_head_def split: option.splits)
  next
    case True
    then obtain d where d: "timeout_of m = Some d" "elapsed d" by (auto split: option.splits)
    from next_Cons [OF message(3)] obtain r'' q'' where
      "rx_poll_next C r' q' = (Ready (Some m), r'', q'')" "slot r'' = []" "items q'' = ms"
      "capacity q'' = capacity q'" "is_open q'' = is_open q'" by auto
    with message d len show ?thesis
      by (intro that [of r'' q'']) (auto simp: stale_head_def)
  qed
qed

text \<open>
  \<open>poll_stale\<close> never panics: what it peeked at is still there when it takes it. It drops at
  most one message, the head of one stream, and never touches the atomic length.
\<close>

lemma poll_stale_spec:
  fixes rv ch
  defines "pp \<equiv> priority_pending items slot (rv, ch)"
    and "np \<equiv> non_priority_pending items slot (rv, ch)"
  obtains rv' ch' where "receiver_poll_stale C elapsed (rv, ch) = Some
      (if drops elapsed publish_timeout pp then Ready (Some (hd pp))
       else if drops elapsed forward_timeout np then Ready (Some (hd np))
       else (case (kept publish_timeout (is_open (priority_channel ch)) pp,
                   kept forward_timeout (is_open (non_priority_channel ch)) np) of
               (Ready None, Ready None) \<Rightarrow> Ready None | _ \<Rightarrow> Pending), rv', ch')"
    and "queue_len ch' = queue_len ch"
    and "priority_pending items slot (rv', ch') = (if drops elapsed publish_timeout pp then tl pp else pp)"
    and "non_priority_pending items slot (rv', ch') =
      (if \<not> drops elapsed publish_timeout pp \<and> drops elapsed forward_timeout np then tl np else np)"
    and "length (items (non_priority_channel ch')) \<le> length (items (non_priority_channel ch))"
    and "capacity (priority_channel ch') = capacity (priority_channel ch)"
    and "capacity (non_priority_channel ch') = capacity (non_priority_channel ch)"
    and "is_open (priority_channel ch') = is_open (priority_channel ch)"
    and "is_open (non_priority_channel ch') = is_open (non_priority_channel ch)"
proof -
  obtain r q where p: "stale_head C elapsed publish_timeout (priority_receiver rv) (priority_channel ch) =
      ((case pp of
          [] \<Rightarrow> StaleKeep (if is_open (priority_channel ch) then Pending else Ready None)
        | m # ms \<Rightarrow> (case publish_timeout m of
             None \<Rightarrow> StaleKeep (Ready (Some m))
           | Some d \<Rightarrow> if elapsed d then StaleDropped m else StaleKeep (Ready None))), r, q)"
    "slot r @ items q = (if drops elapsed publish_timeout pp then tl pp else pp)"
    "capacity q = capacity (priority_channel ch)" "is_open q = is_open (priority_channel ch)"
    by (rule stale_head_spec [of elapsed publish_timeout "priority_receiver rv" "priority_channel ch"])
      (simp add: pp_def priority_pending_def)
  show ?thesis
  proof (cases "drops elapsed publish_timeout pp")
    case True
    then obtain m ms where "pp = m # ms" by (cases pp) auto
    with True p show ?thesis
      by (intro that [of "rv\<lparr>priority_receiver := r\<rparr>" "ch\<lparr>priority_channel := q\<rparr>"])
        (auto simp: receiver_poll_stale_def np_def pending_defs split: option.splits)
  next
    case False
    have pk: "stale_head C elapsed publish_timeout (priority_receiver rv) (priority_channel ch) =
        (StaleKeep (kept publish_timeout (is_open (priority_channel ch)) pp), r, q)"
      using p(1) False by (cases pp) (auto split: option.splits)
    obtain r' q' where n: "stale_head C elapsed forward_timeout (non_priority_receiver rv)
          (non_priority_channel ch) =
        ((case np of
            [] \<Rightarrow> StaleKeep (if is_open (non_priority_channel ch) then Pending else Ready None)
          | m # ms \<Rightarrow> (case forward_timeout m of
               None \<Rightarrow> StaleKeep (Ready (Some m))
             | Some d \<Rightarrow> if elapsed d then StaleDropped m else StaleKeep (Ready None))), r', q')"
      "slot r' @ items q' = (if drops elapsed forward_timeout np then tl np else np)"
      "length (items q') \<le> length (items (non_priority_channel ch))"
      "capacity q' = capacity (non_priority_channel ch)" "is_open q' = is_open (non_priority_channel ch)"
      by (rule stale_head_spec [of elapsed forward_timeout "non_priority_receiver rv" "non_priority_channel ch"])
        (simp add: np_def non_priority_pending_def)
    have nk: "stale_head C elapsed forward_timeout (non_priority_receiver rv) (non_priority_channel ch) =
        (if drops elapsed forward_timeout np then StaleDropped (hd np)
         else StaleKeep (kept forward_timeout (is_open (non_priority_channel ch)) np), r', q')"
      using n(1) by (cases np) (auto split: option.splits)
    show ?thesis
      by (rule that [of "rv\<lparr>priority_receiver := r, non_priority_receiver := r'\<rparr>"
              "ch\<lparr>priority_channel := q, non_priority_channel := q'\<rparr>"])
        (use False p(2-4) pk n(2-5) nk in \<open>simp_all add: receiver_poll_stale_def\<close>)
  qed
qed

lemma poll_stale_queue_ok:
  assumes ok: "queue_ok items capacity is_open slot held s rv"
    and "receiver_poll_stale C elapsed (rv, sender_channels s) = Some (res, rv', ch')"
  shows "queue_ok items capacity is_open slot held (s\<lparr>sender_channels := ch'\<rparr>) rv'"
proof -
  have tl: "publishes (tl ms) \<le> publishes ms" for ms :: "'c rpc_out list"
    by (cases ms) auto
  have in_tl: "m \<in> set (tl ms) \<Longrightarrow> m \<in> set ms" for m and ms :: "'c rpc_out list"
    by (cases ms) auto
  show ?thesis
    by (rule poll_stale_spec [of elapsed rv "sender_channels s"])
      (use ok assms(2) in \<open>auto simp: queue_ok_def channels_ok_def dest!: in_tl
         split: if_splits intro: order_trans [OF add_right_mono [OF tl]]\<close>)
qed

text \<open>\<open>poll_is_empty\<close> only answers whether both channels are closed and drained.\<close>

lemma poll_is_empty_spec:
  obtains rv' ch' where "receiver_poll_is_empty C (rv, ch) =
      (priority_pending items slot (rv, ch) = [] \<and> \<not> is_open (priority_channel ch)
       \<and> non_priority_pending items slot (rv, ch) = [] \<and> \<not> is_open (non_priority_channel ch), rv', ch')"
    and "queue_len ch' = queue_len ch"
    and "priority_pending items slot (rv', ch') = priority_pending items slot (rv, ch)"
    and "non_priority_pending items slot (rv', ch') = non_priority_pending items slot (rv, ch)"
    and "length (items (non_priority_channel ch')) \<le> length (items (non_priority_channel ch))"
    and "capacity (priority_channel ch') = capacity (priority_channel ch)"
    and "capacity (non_priority_channel ch') = capacity (non_priority_channel ch)"
    and "is_open (priority_channel ch') = is_open (priority_channel ch)"
    and "is_open (non_priority_channel ch') = is_open (non_priority_channel ch)"
proof -
  have peek: "\<exists>r' q'. rx_poll_peek C r q =
      (case slot r @ items q of m # ms \<Rightarrow> Ready (Some m)
         | [] \<Rightarrow> if is_open q then Pending else Ready None, r', q')
      \<and> slot r' @ items q' = slot r @ items q \<and> length (items q') \<le> length (items q)
      \<and> capacity q' = capacity q \<and> is_open q' = is_open q" for r q
  proof (cases rule: peek_cases [of r q])
    case (message m ms r' q')
    moreover have "length (items q') \<le> length (items q)"
      using arg_cong [OF message(1), of length] arg_cong [OF message(3), of length] message(4) slot_one [of r]
      by simp
    ultimately show ?thesis by auto
  qed auto
  obtain r q where p: "rx_poll_peek C (priority_receiver rv) (priority_channel ch) =
      (case priority_pending items slot (rv, ch) of m # ms \<Rightarrow> Ready (Some m)
         | [] \<Rightarrow> if is_open (priority_channel ch) then Pending else Ready None, r, q)"
    "slot r @ items q = priority_pending items slot (rv, ch)"
    "capacity q = capacity (priority_channel ch)" "is_open q = is_open (priority_channel ch)"
    using peek [of "priority_receiver rv" "priority_channel ch"] by (auto simp: priority_pending_def)
  obtain r' q' where n: "rx_poll_peek C (non_priority_receiver rv) (non_priority_channel ch) =
      (case non_priority_pending items slot (rv, ch) of m # ms \<Rightarrow> Ready (Some m)
         | [] \<Rightarrow> if is_open (non_priority_channel ch) then Pending else Ready None, r', q')"
    "slot r' @ items q' = non_priority_pending items slot (rv, ch)"
    "length (items q') \<le> length (items (non_priority_channel ch))"
    "capacity q' = capacity (non_priority_channel ch)" "is_open q' = is_open (non_priority_channel ch)"
    using peek [of "non_priority_receiver rv" "non_priority_channel ch"]
    by (auto simp: non_priority_pending_def)
  show ?thesis
    by (rule that [of "\<lparr>priority_receiver = r, non_priority_receiver = r'\<rparr>"
            "ch\<lparr>priority_channel := q, non_priority_channel := q'\<rparr>"])
      (use p n in \<open>auto simp: receiver_poll_is_empty_def pending_defs split: list.splits if_splits\<close>)
qed

lemma poll_is_empty_queue_ok:
  assumes ok: "queue_ok items capacity is_open slot held s rv"
    and "receiver_poll_is_empty C (rv, sender_channels s) = (b, rv', ch')"
  shows "queue_ok items capacity is_open slot held (s\<lparr>sender_channels := ch'\<rparr>) rv' \<and> \<not> b"
  by (rule poll_is_empty_spec [of rv "sender_channels s"])
    (use ok assms(2) in \<open>auto simp: queue_ok_def channels_ok_def\<close>)

end

end
