(* ===== verification/Dog_Queue_Steps.thy ===== *)
theory Dog_Queue_Steps
  imports Dog_Rpc_Queue
begin

text \<open>
  The send queue of a peer as a machine: one sender, one receiver per connection of the
  peer, and the operations of \<open>rpc.rs\<close> as its steps. The bound of the queue, the order of
  delivery, and what happens to the capacity when a stale transaction is dropped.
\<close>

section \<open>The machine\<close>

type_synonym ('q, 'r) queue_state = "'q sender \<times> 'r receiver list"

text \<open>
  \<open>Attach\<close> is a new connection, \<open>Detach\<close> the end of one: its receiver goes, and with it the
  message it has peeked at.
\<close>

inductive queue_step ::
  "('q, 'r, 'p rpc_out) channel_ops \<Rightarrow> ('q, 'r) queue_state \<Rightarrow> ('q, 'r) queue_state \<Rightarrow> bool" for C where
  Send: "queue_step C (s, rvs) (snd (sender_send_transaction C m s), rvs)"
| Attach: "queue_step C (s, rvs) (s, rvs @ [new_receiver C s])"
| Detach: "i < length rvs \<Longrightarrow> queue_step C (s, rvs) (s, remove_at i rvs)"
| Next: "i < length rvs \<Longrightarrow> receiver_poll_next C (rvs ! i, sender_channels s) = (res, rv, ch) \<Longrightarrow>
    queue_step C (s, rvs) (s\<lparr>sender_channels := ch\<rparr>, rvs[i := rv])"
| Stale: "i < length rvs \<Longrightarrow>
    receiver_poll_stale C elapsed (rvs ! i, sender_channels s) = Some (res, rv, ch) \<Longrightarrow>
    queue_step C (s, rvs) (s\<lparr>sender_channels := ch\<rparr>, rvs[i := rv])"
| Is_Empty: "i < length rvs \<Longrightarrow> receiver_poll_is_empty C (rvs ! i, sender_channels s) = (b, rv, ch) \<Longrightarrow>
    queue_step C (s, rvs) (s\<lparr>sender_channels := ch\<rparr>, rvs[i := rv])"

inductive_cases queue_stepE: "queue_step C (s, rvs) x"

section \<open>Its invariant\<close>

text \<open>
  \<open>in_flight\<close> counts the \<open>Publish\<close> messages that some receiver can still deliver; \<open>lost\<close> is a
  lower bound on the rest of the atomic length.
\<close>

definition in_flight ::
  "('q \<Rightarrow> 'p rpc_out list) \<Rightarrow> ('r \<Rightarrow> 'p rpc_out list) \<Rightarrow> ('q, 'r) queue_state \<Rightarrow> nat" where
  "in_flight items slot x =
     publishes (items (priority_channel (sender_channels (fst x))))
     + sum_list (map (\<lambda>rv. publishes (slot (priority_receiver rv))) (snd x))"

definition receiver_ok :: "('r \<Rightarrow> 'p rpc_out list) \<Rightarrow> 'r receiver \<Rightarrow> bool" where
  "receiver_ok slot rv \<longleftrightarrow>
     (\<forall>m \<in> set (slot (priority_receiver rv)). \<not> is_forward m)
     \<and> (\<forall>m \<in> set (slot (non_priority_receiver rv)). is_forward m)"

definition queue_inv ::
  "('q \<Rightarrow> 'p rpc_out list) \<Rightarrow> ('q \<Rightarrow> nat option) \<Rightarrow> ('q \<Rightarrow> bool) \<Rightarrow> ('r \<Rightarrow> 'p rpc_out list) \<Rightarrow>
   nat \<Rightarrow> nat \<Rightarrow> ('q, 'r) queue_state \<Rightarrow> bool" where
  "queue_inv items capacity is_open slot cap lost x \<longleftrightarrow>
     priority_cap (fst x) = cap \<and> cap < 2 ^ 64
     \<and> channels_ok items capacity is_open cap (sender_channels (fst x))
     \<and> (\<forall>m \<in> set (items (priority_channel (sender_channels (fst x)))). \<not> is_forward m)
     \<and> (\<forall>m \<in> set (items (non_priority_channel (sender_channels (fst x)))). is_forward m)
     \<and> (\<forall>rv \<in> set (snd x). receiver_ok slot rv)
     \<and> in_flight items slot x + lost \<le> unat (queue_len (sender_channels (fst x)))"

lemma publishes_slot_le:
  "i < length rvs \<Longrightarrow> publishes (slot (priority_receiver (rvs ! i)))
     \<le> sum_list (map (\<lambda>rv. publishes (slot (priority_receiver rv))) rvs)"
  by (auto intro: member_le_sum_list)

text \<open>The machine's invariant is the queue's invariant, for each receiver with what the others hold.\<close>

lemma queue_inv_receiver:
  assumes "queue_inv items capacity is_open slot cap lost (s, rvs)" and "i < length rvs"
  shows "queue_ok items capacity is_open slot
      (lost + (sum_list (map (\<lambda>rv. publishes (slot (priority_receiver rv))) rvs)
        - publishes (slot (priority_receiver (rvs ! i))))) s (rvs ! i)"
proof -
  have "receiver_ok slot (rvs ! i)" using assms by (simp add: queue_inv_def)
  then show ?thesis
    using assms publishes_slot_le [OF assms(2), of slot]
    by (auto simp: queue_inv_def queue_ok_def in_flight_def pending_defs receiver_ok_def)
qed

lemma queue_inv_update:
  assumes inv: "queue_inv items capacity is_open slot cap lost (s, rvs)" and i: "i < length rvs"
    and ok: "queue_ok items capacity is_open slot
      (lost + (sum_list (map (\<lambda>rv. publishes (slot (priority_receiver rv))) rvs)
        - publishes (slot (priority_receiver (rvs ! i))))) (s\<lparr>sender_channels := ch\<rparr>) rv"
  shows "queue_inv items capacity is_open slot cap lost (s\<lparr>sender_channels := ch\<rparr>, rvs[i := rv])"
proof -
  let ?f = "\<lambda>rv. publishes (slot (priority_receiver rv))"
  have "sum_list (map ?f (rvs[i := rv])) = sum_list (map ?f rvs) + ?f rv - ?f (rvs ! i)"
    using i by (simp add: map_update sum_list_update)
  moreover have "receiver_ok slot x" if "x \<in> set (rvs[i := rv])" for x
    using set_update_subset_insert [of rvs i rv] that inv ok
    by (auto simp: queue_inv_def queue_ok_def pending_defs receiver_ok_def)
  ultimately show ?thesis
    using inv ok publishes_slot_le [OF i, of slot]
    by (auto simp: queue_inv_def queue_ok_def in_flight_def pending_defs)
qed

lemma sum_list_remove_at:
  fixes f :: "'a \<Rightarrow> nat"
  assumes "i < length xs"
  shows "sum_list (map f (remove_at i xs)) \<le> sum_list (map f xs)"
proof -
  have "sum_list (map f xs) = sum_list (map f (take i xs @ xs ! i # drop (Suc i) xs))"
    using assms by (simp add: id_take_nth_drop [symmetric])
  then show ?thesis by (simp add: remove_at_def)
qed

context rpc_channel
begin

lemma queue_inv_new:
  assumes "sender_new C cap = Some s" and "cap < 2 ^ 64"
  shows "queue_inv items capacity is_open slot (cap div 2) 0 (s, [])"
proof -
  have "\<not> cap < 2" using assms(1) sender_new_None [of cap] by auto
  with assms sender_new_Some [of cap] unbounded_new show ?thesis
    by (auto simp: queue_inv_def channels_ok_def in_flight_def)
qed

lemma queue_inv_send:
  assumes inv: "queue_inv items capacity is_open slot cap lost (s, rvs)"
  shows "queue_inv items capacity is_open slot cap lost (snd (sender_send_transaction C m s), rvs)"
proof -
  let ?held = "lost + sum_list (map (\<lambda>rv. publishes (slot (priority_receiver rv))) rvs)"
  let ?rv = "new_receiver C s"
  have "queue_ok items capacity is_open slot ?held s ?rv"
    using inv by (auto simp: queue_inv_def queue_ok_def in_flight_def pending_defs new_receiver_def peekable_new)
  then have "queue_ok items capacity is_open slot ?held (snd (sender_send_transaction C m s)) ?rv"
    by (rule send_queue_ok) (use inv in \<open>simp add: queue_inv_def\<close>)
  then show ?thesis
    using inv by (auto simp: queue_inv_def queue_ok_def in_flight_def pending_defs new_receiver_def
        peekable_new sender_send_cap)
qed

text \<open>Every step keeps the invariant, for every lower bound on what is lost.\<close>

lemma queue_inv_step [preserve]:
  assumes "queue_step C x y" and "queue_inv items capacity is_open slot cap lost x"
  shows "queue_inv items capacity is_open slot cap lost y"
  using assms
proof (induction rule: queue_step.induct)
  case (Send s rvs m)
  then show ?case by (rule queue_inv_send)
next
  case (Attach s rvs)
  then show ?case
    by (auto simp: queue_inv_def in_flight_def receiver_ok_def new_receiver_def peekable_new)
next
  case (Detach i rvs s)
  then show ?case
    using set_remove_at_subset [of i rvs]
      sum_list_remove_at [of i rvs "\<lambda>rv. publishes (slot (priority_receiver rv))"]
    by (auto simp: queue_inv_def in_flight_def)
next
  case (Next i rvs s res rv ch)
  then show ?case
    by (blast intro: queue_inv_update poll_next_queue_ok queue_inv_receiver)
next
  case (Stale i rvs elapsed s res rv ch)
  then show ?case
    by (blast intro: queue_inv_update poll_stale_queue_ok queue_inv_receiver)
next
  case (Is_Empty i rvs s b rv ch)
  then show ?case
    by (blast intro: queue_inv_update poll_is_empty_queue_ok [THEN conjunct1] queue_inv_receiver)
qed

lemma queue_inv_steps:
  assumes "(queue_step C)\<^sup>*\<^sup>* x y" and "queue_inv items capacity is_open slot cap lost x"
  shows "queue_inv items capacity is_open slot cap lost y"
  using assms by (induction rule: rtranclp_induct) (auto intro: queue_inv_step)

lemma lost_capacity_stays_lost:
  assumes "sender_new C cap = Some s0" and "cap < 2 ^ 64"
    and "(queue_step C)\<^sup>*\<^sup>* (s0, []) x" and "(queue_step C)\<^sup>*\<^sup>* x y"
  shows "unat (queue_len (sender_channels (fst x))) - in_flight items slot x
    \<le> unat (queue_len (sender_channels (fst y))) - in_flight items slot y"
proof -
  have "queue_inv items capacity is_open slot (cap div 2) 0 x"
    using queue_inv_steps [OF assms(3) queue_inv_new [OF assms(1,2)]] .
  then have "queue_inv items capacity is_open slot (cap div 2)
      (unat (queue_len (sender_channels (fst x))) - in_flight items slot x) x"
    by (simp add: queue_inv_def)
  from queue_inv_steps [OF assms(4) this] show ?thesis
    by (auto simp: queue_inv_def)
qed

end

section \<open>Draining a queue\<close>

text \<open>What one receiver yields when it is polled until it has nothing, at most \<open>n\<close> times.\<close>

fun drain ::
  "('q, 'r, 'p rpc_out) channel_ops \<Rightarrow> nat \<Rightarrow> ('q, 'r) receiving \<Rightarrow> 'p rpc_out list" where
  "drain C 0 x = []"
| "drain C (Suc n) x =
     (case receiver_poll_next C x of
        (Ready (Some m), x') \<Rightarrow> m # drain C n x'
      | _ \<Rightarrow> [])"

context rpc_channel
begin

lemma drain_take:
  assumes "is_open (priority_channel ch)" and "is_open (non_priority_channel ch)"
  shows "drain C n (rv, ch) =
    take n (priority_pending items slot (rv, ch) @ non_priority_pending items slot (rv, ch))"
  using assms
proof (induction n arbitrary: rv ch)
  case (Suc n)
  show ?case
  proof (cases "priority_pending items slot (rv, ch)")
    case (Cons m ms)
    from poll_next_priority [OF Cons] obtain r q where
      "receiver_poll_next C (rv, ch) = (Ready (Some m), rv\<lparr>priority_receiver := r\<rparr>,
        ch\<lparr>priority_channel := q,
           queue_len := (if is_publish m then queue_len ch - 1 else queue_len ch)\<rparr>)"
      "slot r = []" "items q = ms" "capacity q = capacity (priority_channel ch)"
      "is_open q = is_open (priority_channel ch)" .
    with Suc Cons show ?thesis by simp
  next
    case Nil
    show ?thesis
    proof (cases "non_priority_pending items slot (rv, ch)")
      case np: Nil
      from poll_next_empty [OF Nil Suc.prems(1) np Suc.prems(2)] obtain r q r' q' where
        "receiver_poll_next C (rv, ch) = (Pending,
          rv\<lparr>priority_receiver := r, non_priority_receiver := r'\<rparr>,
          ch\<lparr>priority_channel := q, non_priority_channel := q'\<rparr>)" .
      with Nil np show ?thesis by simp
    next
      case (Cons m ms)
      from poll_next_non_priority [OF Nil Suc.prems(1) Cons] obtain r q r' q' where
        "receiver_poll_next C (rv, ch) = (Ready (Some m),
          rv\<lparr>priority_receiver := r, non_priority_receiver := r'\<rparr>,
          ch\<lparr>priority_channel := q, non_priority_channel := q'\<rparr>)"
        "slot r = []" "items q = []" "capacity q = capacity (priority_channel ch)" "is_open q"
        "slot r' = []" "items q' = ms"
        "capacity q' = capacity (non_priority_channel ch)"
        "is_open q' = is_open (non_priority_channel ch)" .
      with Suc Nil Cons show ?thesis by simp
    qed
  qed
qed simp

text \<open>A send keeps the channels of a live sender lawful.\<close>

lemma send_channels_ok:
  assumes ok: "channels_ok items capacity is_open (priority_cap s) (sender_channels s)"
    and "priority_cap s < 2 ^ 64"
  shows "channels_ok items capacity is_open (priority_cap s)
    (sender_channels (snd (sender_send_transaction C m s)))"
proof (cases "is_forward m")
  case True
  then show ?thesis
  proof (cases "length (items (non_priority_channel (sender_channels s))) < priority_cap s")
    case room: True
    from send_forward_room [OF ok True room] obtain q where
      "sender_send_transaction C m s =
        (Inr (), s\<lparr>sender_channels := (sender_channels s)\<lparr>non_priority_channel := q\<rparr>\<rparr>)"
      "items q = items (non_priority_channel (sender_channels s)) @ [m]"
      "capacity q = Some (priority_cap s)" "is_open q" .
    with ok room show ?thesis by (simp add: channels_ok_def)
  next
    case False
    with send_forward_full [OF ok True] ok show ?thesis by simp
  qed
next
  case not_fwd: False
  show ?thesis
  proof (cases "is_publish m \<and> priority_cap s \<le> unat (queue_len (sender_channels s))")
    case True
    with send_publish_refused [of m s] ok show ?thesis by simp
  next
    case False
    then obtain q where q: "sender_send_transaction C m s = (Inr (),
        s\<lparr>sender_channels := (sender_channels s)\<lparr>priority_channel := q,
          queue_len := queue_len (sender_channels s) + (if is_publish m then 1 else 0)\<rparr>\<rparr>)"
      "items q = items (priority_channel (sender_channels s)) @ [m]" "capacity q = None" "is_open q"
      using send_priority [OF ok not_fwd] by (metis not_le)
    have "unat (queue_len (sender_channels s) + (if is_publish m then 1 else 0)) \<le> priority_cap s"
      using False assms u64_inc [of "queue_len (sender_channels s)" "priority_cap s"]
      by (cases "is_publish m") (auto simp: channels_ok_def)
    with q ok show ?thesis by (simp add: channels_ok_def)
  qed
qed

text \<open>What a send answers and where the message goes, on every branch.\<close>

lemma send_transaction_cases:
  assumes ok: "channels_ok items capacity is_open (priority_cap s) (sender_channels s)"
  shows "sender_send_transaction C m s =
      (if is_publish m \<and> priority_cap s \<le> unat (queue_len (sender_channels s))
         \<or> is_forward m \<and> priority_cap s \<le> length (items (non_priority_channel (sender_channels s)))
       then (Inl m, s)
       else (Inr (), snd (sender_send_transaction C m s)))"
    and "\<not> is_forward m \<Longrightarrow> fst (sender_send_transaction C m s) = Inr () \<Longrightarrow>
      items (priority_channel (sender_channels (snd (sender_send_transaction C m s))))
        = items (priority_channel (sender_channels s)) @ [m]
      \<and> queue_len (sender_channels (snd (sender_send_transaction C m s)))
        = queue_len (sender_channels s) + (if is_publish m then 1 else 0)
      \<and> non_priority_channel (sender_channels (snd (sender_send_transaction C m s)))
        = non_priority_channel (sender_channels s)"
    and "is_forward m \<Longrightarrow> fst (sender_send_transaction C m s) = Inr () \<Longrightarrow>
      items (non_priority_channel (sender_channels (snd (sender_send_transaction C m s))))
        = items (non_priority_channel (sender_channels s)) @ [m]
      \<and> queue_len (sender_channels (snd (sender_send_transaction C m s))) = queue_len (sender_channels s)
      \<and> priority_channel (sender_channels (snd (sender_send_transaction C m s)))
        = priority_channel (sender_channels s)"
proof (atomize (full), goal_cases)
  case 1
  show ?case
  proof (cases "is_forward m")
    case True
    then have np: "\<not> is_publish m" by (cases m) auto
    show ?thesis
    proof (cases "length (items (non_priority_channel (sender_channels s))) < priority_cap s")
      case room: True
      from send_forward_room [OF ok True room] obtain q where
        "sender_send_transaction C m s =
          (Inr (), s\<lparr>sender_channels := (sender_channels s)\<lparr>non_priority_channel := q\<rparr>\<rparr>)"
        "items q = items (non_priority_channel (sender_channels s)) @ [m]" .
      with room np True show ?thesis by auto
    next
      case False
      with send_forward_full [OF ok True] np True show ?thesis by auto
    qed
  next
    case not_fwd: False
    show ?thesis
    proof (cases "is_publish m \<and> priority_cap s \<le> unat (queue_len (sender_channels s))")
      case True
      with send_publish_refused [of m s] not_fwd show ?thesis by auto
    next
      case False
      then obtain q where "sender_send_transaction C m s = (Inr (),
          s\<lparr>sender_channels := (sender_channels s)\<lparr>priority_channel := q,
            queue_len := queue_len (sender_channels s) + (if is_publish m then 1 else 0)\<rparr>\<rparr>)"
        "items q = items (priority_channel (sender_channels s)) @ [m]"
        using send_priority [OF ok not_fwd] by (metis not_le)
      with False not_fwd show ?thesis by auto
    qed
  qed
qed

end

interpretation lrc: rpc_channel list_channel list_items list_capacity list_open list_slot ..

section \<open>Properties\<close>

text \<open>
  Creating a sender panics exactly for a queue length below 2: half of it, rounded down,
  is the capacity of the bounded channel, and \<open>async_channel::bounded\<close> refuses 0. The
  configuration is not checked for it.
\<close>

theorem sender_new_panics:
  assumes "rpc_channel C items capacity is_open slot"
  shows "sender_new C cap = None \<longleftrightarrow> cap < 2"
  by (rule rpc_channel.sender_new_None [OF assms])

theorem sender_new_panics_witness:
  "sender_new (list_channel :: (_, _, byte rpc_out) channel_ops) 1 = None
   \<and> sender_new (list_channel :: (_, _, byte rpc_out) channel_ops) 2 \<noteq> None"
  using sender_new_panics [OF lrc.rpc_channel_axioms, of 1] sender_new_panics [OF lrc.rpc_channel_axioms, of 2]
  by auto

text \<open>
  C28. What a send answers: a publish is refused when the atomic length has reached the
  capacity, a forward when the bounded channel is full, each with the message returned and
  nothing changed; a control message is never refused. What is accepted is appended to its
  channel, counted if it is a publish, and the other channel is untouched.
\<close>

theorem sender_send_transaction_correct:
  assumes "rpc_channel C items capacity is_open slot"
    and "channels_ok items capacity is_open (priority_cap s) (sender_channels s)"
    and "sender_send_transaction C m s = (res, s')"
  shows "if is_publish m \<and> priority_cap s \<le> unat (queue_len (sender_channels s))
         \<or> is_forward m \<and> priority_cap s \<le> length (items (non_priority_channel (sender_channels s)))
    then res = Inl m \<and> s' = s
    else res = Inr ()
      \<and> items (priority_channel (sender_channels s'))
          = items (priority_channel (sender_channels s)) @ (if is_forward m then [] else [m])
      \<and> items (non_priority_channel (sender_channels s'))
          = items (non_priority_channel (sender_channels s)) @ (if is_forward m then [m] else [])
      \<and> queue_len (sender_channels s')
          = queue_len (sender_channels s) + (if is_publish m then 1 else 0)"
  using rpc_channel.send_transaction_cases [OF assms(1,2), of m, unfolded assms(3) fst_conv snd_conv]
    publish_not_forward [of m]
  by (cases "is_forward m"; cases "is_publish m") (simp_all split: if_splits)

definition sample_tx :: "byte raw_transaction" where
  "sample_tx = \<lparr>raw_from = 1, raw_seqno = 0, raw_data = [], raw_signature = None, raw_key = None\<rparr>"

definition sample_publish :: "byte rpc_out" where
  "sample_publish = Publish sample_tx (Delay 0 0)"

definition sample_sender :: "byte rpc_out list_queue sender" where
  "sample_sender = the (sender_new list_channel 2)"

theorem sender_send_transaction_correct_witness:
  "\<exists>s. sender_send_transaction list_channel sample_publish sample_sender = (Inr (), s)
     \<and> list_items (priority_channel (sender_channels s)) = [sample_publish]
     \<and> queue_len (sender_channels s) = 1"
proof -
  obtain res s where s: "sender_send_transaction list_channel sample_publish sample_sender = (res, s)"
    by fastforce
  have "channels_ok list_items list_capacity list_open (priority_cap sample_sender) (sender_channels sample_sender)"
    by (simp add: sample_sender_def sender_new_def list_channel_def channels_ok_def)
  from sender_send_transaction_correct [OF lrc.rpc_channel_axioms this s] s show ?thesis
    by (auto simp: sample_sender_def sender_new_def list_channel_def sample_publish_def)
qed

text \<open>
  C17. The send queue is bounded. Whatever the sender, its receivers and new connections do,
  the publishes in flight are at most the atomic length, which is at most half of the
  configured length (so the decrement of a receiver never wraps); the forwards are at most
  the other half; and forwards are in the non-priority channel only.
\<close>

theorem send_queue_bounded:
  assumes "rpc_channel C items capacity is_open slot"
    and "sender_new C cap = Some s0" and "cap < 2 ^ 64"
    and "(queue_step C)\<^sup>*\<^sup>* (s0, []) (s, rvs)"
  shows "in_flight items slot (s, rvs) \<le> unat (queue_len (sender_channels s))
    \<and> unat (queue_len (sender_channels s)) \<le> cap div 2
    \<and> length (items (non_priority_channel (sender_channels s))) \<le> cap div 2
    \<and> (\<forall>m \<in> set (items (priority_channel (sender_channels s))). \<not> is_forward m)
    \<and> (\<forall>m \<in> set (items (non_priority_channel (sender_channels s))). is_forward m)"
  using rpc_channel.queue_inv_steps [OF assms(1,4) rpc_channel.queue_inv_new [OF assms(1-3)]]
  by (simp add: queue_inv_def channels_ok_def)

lemma sample_sender_new: "sender_new list_channel 2 = Some sample_sender"
  by (simp add: sample_sender_def sender_new_def list_channel_def)

theorem send_queue_bounded_witness:
  "let s = snd (sender_send_transaction list_channel sample_publish sample_sender)
   in in_flight list_items list_slot (s, []) \<le> unat (queue_len (sender_channels s))
     \<and> unat (queue_len (sender_channels s)) \<le> 1"
  using send_queue_bounded [OF lrc.rpc_channel_axioms sample_sender_new _
      r_into_rtranclp [of "queue_step list_channel", OF Send [of _ sample_sender "[]" sample_publish]]]
  by (simp add: Let_def)

text \<open>
  C24. A receiver that is polled until it has nothing delivers everything of the priority
  channel in the order it was sent, then everything of the non-priority channel in the
  order it was sent.
\<close>

theorem drain_priority_first:
  assumes "rpc_channel C items capacity is_open slot"
    and "channels_ok items capacity is_open cap ch"
  shows "drain C n (rv, ch) =
    take n (priority_pending items slot (rv, ch) @ non_priority_pending items slot (rv, ch))"
  using assms(2) by (intro rpc_channel.drain_take [OF assms(1)]) (simp_all add: channels_ok_def)

definition sample_forward :: "byte rpc_out" where
  "sample_forward = Forward sample_tx (Delay 0 0)"

definition sample_filled :: "byte rpc_out list_queue send_channels" where
  "sample_filled =
     \<lparr>queue_len = 1, priority_channel = ([sample_publish, HaveTx \<lparr>have_tx_id = TransactionId []\<rparr>], None, True),
      non_priority_channel = ([sample_forward], Some 1, True)\<rparr>"

theorem drain_priority_first_witness:
  "drain list_channel 5 (new_receiver list_channel sample_sender, sample_filled) =
     [sample_publish, HaveTx \<lparr>have_tx_id = TransactionId []\<rparr>, sample_forward]"
proof -
  have "channels_ok list_items list_capacity list_open 1 sample_filled"
    by (simp add: channels_ok_def sample_filled_def)
  from drain_priority_first [OF lrc.rpc_channel_axioms this, of 5 "new_receiver list_channel sample_sender"]
  show ?thesis
    by (simp add: pending_defs sample_filled_def new_receiver_def list_channel_def)
qed

text \<open>
  C38. Capacity that is lost never comes back. A stale publish is dropped without the
  decrement its delivery would have made, so the atomic length can reach the capacity with
  no publish in flight; from then on every publish to this peer is refused, whatever
  happens to the queue.
\<close>

theorem stale_publish_starves:
  assumes "rpc_channel C items capacity is_open slot"
    and "sender_new C cap = Some s0" and "cap < 2 ^ 64"
    and "(queue_step C)\<^sup>*\<^sup>* (s0, []) (s, rvs)"
    and "in_flight items slot (s, rvs) = 0" and "unat (queue_len (sender_channels s)) = cap div 2"
    and "(queue_step C)\<^sup>*\<^sup>* (s, rvs) (s', rvs')" and "is_publish m"
  shows "sender_send_transaction C m s' = (Inl m, s')"
proof -
  have "cap div 2 \<le> unat (queue_len (sender_channels s'))"
    using rpc_channel.lost_capacity_stays_lost [OF assms(1-4,7)] assms(5,6) by simp
  moreover have "priority_cap s' = cap div 2"
    using rpc_channel.queue_inv_steps [OF assms(1) rtranclp_trans [OF assms(4,7)]
        rpc_channel.queue_inv_new [OF assms(1-3)]]
    by (simp add: queue_inv_def)
  ultimately show ?thesis
    using assms(8) by (intro rpc_channel.send_publish_refused [OF assms(1)]) simp_all
qed

definition starved_sender :: "byte rpc_out list_queue sender" where
  "starved_sender =
     \<lparr>priority_cap = 1, sender_channels =
        \<lparr>queue_len = 1, priority_channel = ([], None, True), non_priority_channel = ([], Some 1, True)\<rparr>\<rparr>"

text \<open>One publish, one connection that finds it stale: the queue of length 2 is starved.\<close>

lemma starved_reachable:
  "(queue_step list_channel)\<^sup>*\<^sup>* (sample_sender, [])
     (starved_sender, [\<lparr>priority_receiver = None, non_priority_receiver = None\<rparr>])"
proof -
  let ?rv = "\<lparr>priority_receiver = None, non_priority_receiver = None\<rparr> :: byte rpc_out option receiver"
  let ?s = "snd (sender_send_transaction list_channel sample_publish sample_sender)"
  have "queue_step list_channel (sample_sender, []) (?s, [])"
    by (rule Send)
  moreover have "queue_step list_channel (?s, []) (?s, [?rv])"
    using Attach [of list_channel ?s "[]"] by (simp add: new_receiver_def list_channel_def)
  moreover have "queue_step list_channel (?s, [?rv]) (starved_sender, [?rv])"
    using Stale [of 0 "[?rv]" list_channel "\<lambda>_. True" ?s "Ready (Some sample_publish)" ?rv
        "sender_channels starved_sender"]
    by (simp add: sample_sender_def sender_new_def list_channel_def sample_publish_def starved_sender_def
        sender_send_transaction_def send_on_priority_def receiver_poll_stale_def stale_head_def)
  ultimately show ?thesis
    by (meson rtranclp.rtrancl_refl rtranclp.rtrancl_into_rtrancl)
qed

theorem stale_publish_starves_witness:
  "sender_send_transaction list_channel sample_publish starved_sender = (Inl sample_publish, starved_sender)"
  using stale_publish_starves [OF lrc.rpc_channel_axioms sample_sender_new _ starved_reachable
      _ _ rtranclp.rtrancl_refl, of sample_publish]
  by (simp add: in_flight_def starved_sender_def sample_publish_def)

end
