(* ===== verification/Dog_Codec.thy ===== *)
theory Dog_Codec
  imports Dog_Sample
begin

text \<open>
  The codec of \<open>protocol.rs\<close>: what the frames of a substream are decoded to, and the
  validation of the transactions in them. The framing of protobuf messages
  (\<open>quick_protobuf_codec\<close>) is an argument; \<open>'b\<close> is a buffer and \<open>'e\<close> an error of that crate.
\<close>

section \<open>The codec\<close>

definition SIGNING_PREFIX :: bytes where
  "SIGNING_PREFIX = string_bytes ''libp2p-dog:''"

record ('b, 'e) frame_codec =
  frame_decode :: "usize \<Rightarrow> 'b \<Rightarrow> ('e + proto_rpc option) \<times> 'b"
  frame_encode :: "usize \<Rightarrow> proto_rpc \<Rightarrow> 'b \<Rightarrow> ('e + unit) \<times> 'b"

text \<open>\<open>codec_max_length\<close> is what the inner codec was created with.\<close>

record dog_codec =
  codec_validation_mode :: validation_mode
  codec_max_length :: usize

definition dog_codec_new :: "usize \<Rightarrow> validation_mode \<Rightarrow> dog_codec" where
  "dog_codec_new max_length mode =
     \<lparr>codec_validation_mode = mode, codec_max_length = max_length\<rparr>"

text \<open>\<open>Framed::new\<close> pairs a socket with a codec.\<close>

definition upgrade_inbound :: "protocol_config \<Rightarrow> 's \<Rightarrow> 's \<times> dog_codec" where
  "upgrade_inbound pc socket =
     (socket, dog_codec_new (protocol_max_transmit_size pc) (validation_mode pc))"

definition upgrade_outbound :: "protocol_config \<Rightarrow> 's \<Rightarrow> 's \<times> dog_codec" where
  "upgrade_outbound pc socket =
     (socket, dog_codec_new (protocol_max_transmit_size pc) (validation_mode pc))"

definition codec_encode ::
  "('b, 'e) frame_codec \<Rightarrow> dog_codec \<Rightarrow> proto_rpc \<Rightarrow> 'b \<Rightarrow> ('e + unit) \<times> 'b" where
  "codec_encode F c item dst = frame_encode F (codec_max_length c) item dst"

section \<open>Signatures\<close>

text \<open>The slice \<open>xs[n..]\<close>; \<open>None\<close> is the panic of an index out of range.\<close>

definition slice_from :: "nat \<Rightarrow> 'a list \<Rightarrow> 'a list option" where
  "slice_from n xs = (if n \<le> length xs then Some (drop n xs) else None)"

text \<open>What a signature is over: the prefix and the encoded transaction without the signature and key.\<close>

definition signed_bytes :: "('p, 'k, 'pk) libp2p_ops \<Rightarrow> proto_transaction \<Rightarrow> bytes" where
  "signed_bytes I t = SIGNING_PREFIX @ proto_tx_write I (t\<lparr>proto_signature := [], proto_key := []\<rparr>)"

text \<open>\<open>None\<close> is a panic.\<close>

definition verify_signature :: "('p, 'k, 'pk) libp2p_ops \<Rightarrow> proto_transaction \<Rightarrow> bool option" where
  "verify_signature I t =
     (case peer_from_bytes I (proto_from t) of
        None \<Rightarrow> Some False
      | Some peer_id \<Rightarrow>
          (case (case public_key_decode I (proto_key t) of
                   Some key \<Rightarrow> Some (Some key)
                 | None \<Rightarrow> map_option (public_key_decode I) (slice_from 2 (peer_to_bytes I peer_id))) of
             None \<Rightarrow> None
           | Some None \<Rightarrow> Some False
           | Some (Some public_key) \<Rightarrow>
               if peer_id \<noteq> public_key_to_peer_id I public_key then Some False
               else Some (public_key_verify I public_key (signed_bytes I t) (proto_signature t))))"

section \<open>Decoding\<close>

definition optional :: "bytes \<Rightarrow> bytes option" where
  "optional bs = (if bs = [] then None else Some bs)"

definition raw_of_proto :: "'p \<Rightarrow> proto_transaction \<Rightarrow> 'p raw_transaction" where
  "raw_of_proto source t =
     \<lparr>raw_from = source, raw_seqno = proto_seqno t, raw_data = proto_data t,
      raw_signature = optional (proto_signature t), raw_key = optional (proto_key t)\<rparr>"

text \<open>
  One transaction of a frame: \<open>Inl\<close> with the reason when it is invalid. \<open>stranger\<close> is the
  random peer that stands for an author that cannot be read.
\<close>

definition decode_transaction ::
  "('p, 'k, 'pk) libp2p_ops \<Rightarrow> validation_mode \<Rightarrow> 'p \<Rightarrow> proto_transaction \<Rightarrow>
   ('p raw_transaction \<times> validation_error + 'p raw_transaction) option" where
  "decode_transaction I mode stranger t =
     (let verify = (case mode of Strict \<Rightarrow> True | NoValidation \<Rightarrow> False)
      in case peer_from_bytes I (proto_from t) of
           None \<Rightarrow> Some (Inl (raw_of_proto stranger t, InvalidPeerId))
         | Some source \<Rightarrow>
             (case (if verify then verify_signature I t else Some True) of
                None \<Rightarrow> None
              | Some False \<Rightarrow> Some (Inl (raw_of_proto source t, InvalidSignature))
              | Some True \<Rightarrow> Some (Inr (raw_of_proto source t))))"

text \<open>The loop over a frame; the \<open>i\<close>th draw of a random peer is \<open>strangers i\<close>.\<close>

fun decode_transactions ::
  "('p, 'k, 'pk) libp2p_ops \<Rightarrow> validation_mode \<Rightarrow> (nat \<Rightarrow> 'p) \<Rightarrow> nat \<Rightarrow> proto_transaction list \<Rightarrow>
   ('p raw_transaction list \<times> ('p raw_transaction \<times> validation_error) list) option" where
  "decode_transactions I mode strangers i [] = Some ([], [])"
| "decode_transactions I mode strangers i (t # ts) =
     (case decode_transaction I mode (strangers i) t of
        None \<Rightarrow> None
      | Some res \<Rightarrow>
          (case decode_transactions I mode strangers (i + 1) ts of
             None \<Rightarrow> None
           | Some (valid, invalid) \<Rightarrow>
               Some (case res of
                       Inl bad \<Rightarrow> (valid, bad # invalid)
                     | Inr good \<Rightarrow> (good # valid, invalid))))"

fun ok_of :: "'e + 'a \<Rightarrow> 'a option" where
  "ok_of (Inl e) = None"
| "ok_of (Inr a) = Some a"

definition decode_control :: "proto_control option \<Rightarrow> control_action list" where
  "decode_control control =
     (case control of
        None \<Rightarrow> []
      | Some c \<Rightarrow>
          List.map_filter (\<lambda>h. map_option HaveTxAction (ok_of (have_tx_try_from h))) (proto_have_tx c)
          @ map (\<lambda>r. ResetRouteAction ResetRoute) (proto_reset_route c))"

definition codec_decode ::
  "('p, 'k, 'pk) libp2p_ops \<Rightarrow> ('b, 'e) frame_codec \<Rightarrow> (nat \<Rightarrow> 'p) \<Rightarrow> dog_codec \<Rightarrow> 'b \<Rightarrow>
   (('e + 'p handler_event option) \<times> 'b) option" where
  "codec_decode I F strangers c src =
     (case frame_decode F (codec_max_length c) src of
        (Inl e, src) \<Rightarrow> Some (Inl e, src)
      | (Inr None, src) \<Rightarrow> Some (Inr None, src)
      | (Inr (Some r), src) \<Rightarrow>
          map_option
            (\<lambda>(valid, invalid).
               (Inr (Some (TransactionEvent
                  \<lparr>rpc_transactions = valid, rpc_control_msgs = decode_control (proto_control_msg r)\<rparr>
                  invalid)), src))
            (decode_transactions I (codec_validation_mode c) strangers 0 (proto_txs r)))"

section \<open>Lemmas\<close>

lemma optional_simps [simp]:
  "optional [] = None" "bs \<noteq> [] \<Longrightarrow> optional bs = Some bs"
  "(case optional bs of Some s \<Rightarrow> s | None \<Rightarrow> []) = bs"
  by (auto simp: optional_def)

text \<open>A raw transaction whose optional fields are not empty byte strings survives the wire.\<close>

definition wire_fit :: "'p raw_transaction \<Rightarrow> bool" where
  "wire_fit raw \<longleftrightarrow> raw_signature raw \<noteq> Some [] \<and> raw_key raw \<noteq> Some []"

lemma raw_of_proto_of_raw:
  "wire_fit raw \<Longrightarrow> raw_of_proto (raw_from raw) (proto_of_raw_transaction I raw) = raw"
  by (cases raw) (auto simp: wire_fit_def raw_of_proto_def proto_of_raw_transaction_def optional_def split: option.splits)

lemma map_filter_have_tx:
  "List.map_filter (\<lambda>h. map_option HaveTxAction (ok_of (have_tx_try_from h))) (map proto_of_have_tx hs)
     = map HaveTxAction hs"
  by (induction hs) (simp_all add: List.map_filter_def have_tx_roundtrip)

context libp2p_laws
begin

text \<open>The slice is in range: the bytes of a peer are a multihash.\<close>

lemma verify_signature_no_panic: "verify_signature I t \<noteq> None"
  using to_bytes_header
  by (auto simp: verify_signature_def slice_from_def split: option.splits)

lemma decode_transaction_no_panic: "decode_transaction I mode stranger t \<noteq> None"
  using verify_signature_no_panic [of t]
  by (auto simp: decode_transaction_def Let_def split: option.splits bool.splits validation_mode.splits)

lemma decode_transactions_no_panic: "decode_transactions I mode strangers i ts \<noteq> None"
proof (induction ts arbitrary: i)
  case (Cons t ts)
  obtain res where "decode_transaction I mode (strangers i) t = Some res"
    using decode_transaction_no_panic by blast
  moreover obtain valid invalid where "decode_transactions I mode strangers (i + 1) ts = Some (valid, invalid)"
    using Cons.IH [of "i + 1"] by (metis option.exhaust surj_pair)
  ultimately show ?case by simp
qed simp

text \<open>A signature made with the key pair of the author verifies, with the key sent or inlined.\<close>

lemma verify_signed:
  assumes "proto_from t = peer_to_bytes I (public_key_to_peer_id I (keypair_public I k))"
    and "keypair_sign I k (signed_bytes I t) = Inr (proto_signature t)"
    and "proto_key t = public_key_encode I (keypair_public I k)
      \<or> proto_key t = [] \<and> length (public_key_encode I (keypair_public I k)) \<le> 42"
  shows "verify_signature I t = Some True"
  using assms(3)
proof
  assume "proto_key t = public_key_encode I (keypair_public I k)"
  then show ?thesis
    using assms(1,2) by (simp add: verify_signature_def verify_sign)
next
  assume "proto_key t = [] \<and> length (public_key_encode I (keypair_public I k)) \<le> 42"
  then show ?thesis
    using assms(1,2) to_bytes_header by (simp add: verify_signature_def slice_from_def inlined_key verify_sign)
qed

end

text \<open>
  The specification of the validation: which transactions are accepted, and the reason the
  others are not.
\<close>

definition accepted :: "('p, 'k, 'pk) libp2p_ops \<Rightarrow> validation_mode \<Rightarrow> proto_transaction \<Rightarrow> bool" where
  "accepted I mode t \<longleftrightarrow>
     peer_from_bytes I (proto_from t) \<noteq> None \<and> (mode = Strict \<longrightarrow> verify_signature I t = Some True)"

definition author :: "('p, 'k, 'pk) libp2p_ops \<Rightarrow> proto_transaction \<Rightarrow> 'p" where
  "author I t = the (peer_from_bytes I (proto_from t))"

definition reason :: "('p, 'k, 'pk) libp2p_ops \<Rightarrow> proto_transaction \<Rightarrow> validation_error" where
  "reason I t = (if peer_from_bytes I (proto_from t) = None then InvalidPeerId else InvalidSignature)"

lemma decode_transaction_accepted:
  assumes "decode_transaction I mode stranger t = Some res"
  shows "if accepted I mode t then res = Inr (raw_of_proto (author I t) t)
    else \<exists>raw. res = Inl (raw, reason I t)"
  using assms
  by (auto simp: decode_transaction_def accepted_def author_def reason_def Let_def
      split: option.splits bool.splits validation_mode.splits if_splits)

lemma decode_transactions_accepted:
  assumes "decode_transactions I mode strangers i ts = Some (valid, invalid)"
  shows "valid = map (\<lambda>t. raw_of_proto (author I t) t) (filter (accepted I mode) ts)
    \<and> map snd invalid = map (reason I) (filter (\<lambda>t. \<not> accepted I mode t) ts)"
  using assms
proof (induction ts arbitrary: i valid invalid)
  case (Cons t ts)
  then obtain r v w where r: "decode_transaction I mode (strangers i) t = Some r"
    and vw: "decode_transactions I mode strangers (i + 1) ts = Some (v, w)"
    and new: "(valid, invalid) = (case r of Inl bad \<Rightarrow> (v, bad # w) | Inr good \<Rightarrow> (good # v, w))"
    by (auto split: option.splits)
  from Cons.IH [OF vw] new decode_transaction_accepted [OF r] show ?case
    by (auto split: if_splits)
qed simp

section \<open>Properties\<close>

text \<open>
  C16. Decoding a frame never panics, and splits its transactions: those whose author can be
  read and, in strict mode, whose signature verifies are delivered, in their order and with
  their content; every other one is reported with its reason, in order. The control
  messages are delivered with them, the \<open>HaveTx\<close> messages first.
\<close>

theorem codec_decode_correct:
  assumes "libp2p_laws I"
    and "frame_decode F (codec_max_length c) src = (Inr (Some r), src')"
  shows "\<exists>invalid. codec_decode I F strangers c src =
      Some (Inr (Some (TransactionEvent
        \<lparr>rpc_transactions = map (\<lambda>t. raw_of_proto (author I t) t)
            (filter (accepted I (codec_validation_mode c)) (proto_txs r)),
         rpc_control_msgs = decode_control (proto_control_msg r)\<rparr> invalid)), src')
    \<and> map snd invalid =
        map (reason I) (filter (\<lambda>t. \<not> accepted I (codec_validation_mode c) t) (proto_txs r))"
proof -
  from libp2p_laws.decode_transactions_no_panic [OF assms(1)] obtain valid invalid where
    d: "decode_transactions I (codec_validation_mode c) strangers 0 (proto_txs r) = Some (valid, invalid)"
    by (metis option.exhaust surj_pair)
  with decode_transactions_accepted [OF d] assms(2) show ?thesis
    by (auto simp: codec_decode_def)
qed

text \<open>A framing for the witnesses: the buffer is a list of decoded frames.\<close>

definition sample_frames :: "(proto_rpc list, string) frame_codec" where
  "sample_frames =
     \<lparr>frame_decode = (\<lambda>n b. case b of [] \<Rightarrow> (Inr None, []) | r # rs \<Rightarrow> (Inr (Some r), rs)),
      frame_encode = (\<lambda>n r b. (Inr (), b @ [r]))\<rparr>"

definition sample_unsigned :: proto_transaction where
  "sample_unsigned =
     \<lparr>proto_from = [0, 1, 7], proto_seqno = 3, proto_data = [9], proto_signature = [], proto_key = []\<rparr>"

definition sample_signed :: proto_transaction where
  "sample_signed = sample_unsigned\<lparr>proto_signature := 7 # signed_bytes sample_ops sample_unsigned\<rparr>"

lemma sample_accepted:
  "accepted sample_ops Strict sample_signed" "\<not> accepted sample_ops Strict sample_unsigned"
  by (simp_all add: accepted_def verify_signature_def sample_signed_def sample_unsigned_def sample_ops_def
      slice_from_def signed_bytes_def)

theorem codec_decode_correct_witness:
  "\<exists>invalid. codec_decode sample_ops sample_frames (\<lambda>i. 0) (dog_codec_new 100 Strict)
      [\<lparr>proto_txs = [sample_unsigned, sample_signed], proto_control_msg = None\<rparr>] =
      Some (Inr (Some (TransactionEvent
        \<lparr>rpc_transactions = [raw_of_proto (author sample_ops sample_signed) sample_signed],
         rpc_control_msgs = []\<rparr> invalid)), [])
    \<and> map snd invalid = [reason sample_ops sample_unsigned]"
  using codec_decode_correct [OF sample_laws.libp2p_laws_axioms, of sample_frames "dog_codec_new 100 Strict"
      "[\<lparr>proto_txs = [sample_unsigned, sample_signed], proto_control_msg = None\<rparr>]"
      "\<lparr>proto_txs = [sample_unsigned, sample_signed], proto_control_msg = None\<rparr>" "[]" "\<lambda>i. 0"]
  by (simp add: sample_frames_def dog_codec_new_def sample_accepted decode_control_def)

text \<open>
  C11. In strict mode a delivered transaction is authentic: its signature verifies, over the
  prefix and the encoding of the transaction without signature and key, under a public key
  whose peer is the author.
\<close>

theorem accepted_is_authentic:
  assumes "accepted I Strict t"
  shows "\<exists>pk. peer_from_bytes I (proto_from t) = Some (public_key_to_peer_id I pk)
    \<and> public_key_verify I pk (signed_bytes I t) (proto_signature t)"
  using assms
  by (auto simp: accepted_def verify_signature_def split: option.splits if_splits)

theorem accepted_is_authentic_witness:
  "\<exists>pk. peer_from_bytes sample_ops (proto_from sample_signed) = Some (public_key_to_peer_id sample_ops pk)
    \<and> public_key_verify sample_ops pk (signed_bytes sample_ops sample_signed) (proto_signature sample_signed)"
  by (rule accepted_is_authentic) (rule sample_accepted)

text \<open>
  C25. What a message queued for a peer is encoded to, the peer's codec decodes to the same
  transaction or control message, when it does not check signatures: nothing is lost in the
  conversions to and from protobuf.
\<close>

theorem rpc_out_roundtrip:
  assumes "libp2p_laws I" and "codec_validation_mode c = NoValidation"
    and "frame_decode F (codec_max_length c) src = (Inr (Some (rpc_out_into_protobuf I m)), src')"
    and "\<And>raw timeout. m = Publish raw timeout \<or> m = Forward raw timeout \<Longrightarrow> wire_fit raw"
  shows "codec_decode I F strangers c src =
    Some (Inr (Some (TransactionEvent
      \<lparr>rpc_transactions = (case m of Publish raw timeout \<Rightarrow> [raw] | Forward raw timeout \<Rightarrow> [raw] | _ \<Rightarrow> []),
       rpc_control_msgs = (case m of HaveTx h \<Rightarrow> [HaveTxAction h]
         | SendResetRoute r \<Rightarrow> [ResetRouteAction r] | _ \<Rightarrow> [])\<rparr> [])), src')"
proof -
  have from_to: "peer_from_bytes I (peer_to_bytes I p) = Some p" for p
    using assms(1) by (rule libp2p_laws.from_to_bytes)
  have raw: "decode_transactions I NoValidation strangers 0 [proto_of_raw_transaction I tx] = Some ([tx], [])"
    if "wire_fit tx" for tx
    using that from_to [of "raw_from tx"] raw_of_proto_of_raw [of tx I]
    by (simp add: decode_transaction_def proto_of_raw_transaction_def)
  have reset: "ResetRoute = r" for r by (cases r) simp
  show ?thesis
    using assms(2-4) raw
    by (cases m) (auto simp: codec_decode_def rpc_out_into_protobuf_def decode_control_def
        List.map_filter_def have_tx_roundtrip reset)
qed

theorem rpc_out_roundtrip_witness:
  "let raw = \<lparr>raw_from = 7, raw_seqno = 3, raw_data = [9], raw_signature = Some [1], raw_key = None\<rparr>
   in codec_decode sample_ops sample_frames (\<lambda>i. 0) (dog_codec_new 100 NoValidation)
        [rpc_out_into_protobuf sample_ops (Forward raw (Delay 0 0))] =
      Some (Inr (Some (TransactionEvent \<lparr>rpc_transactions = [raw], rpc_control_msgs = []\<rparr> [])), [])"
  using rpc_out_roundtrip [OF sample_laws.libp2p_laws_axioms, of "dog_codec_new 100 NoValidation" sample_frames
      "[rpc_out_into_protobuf sample_ops (Forward
          \<lparr>raw_from = 7, raw_seqno = 3, raw_data = [9], raw_signature = Some [1], raw_key = None\<rparr> (Delay 0 0))]"
      "Forward \<lparr>raw_from = 7, raw_seqno = 3, raw_data = [9], raw_signature = Some [1], raw_key = None\<rparr> (Delay 0 0)"
      "[]" "\<lambda>i. 0"]
  by (simp add: sample_frames_def dog_codec_new_def wire_fit_def Let_def)

end
