(* ===== verification/Dog_Handler.thy ===== *)
theory Dog_Handler
  imports Dog_Queue_Steps Dog_Codec
begin

text \<open>
  The connection handler (\<open>handler.rs\<close>): one inbound and one outbound substream, the queue of
  messages for the peer, and the two loops of its \<open>poll\<close>. A framed substream is a value of
  type \<open>'s\<close>; the functions it is driven by (\<open>asynchronous_codec::Framed\<close>) are a record.
\<close>

section \<open>The state of a handler\<close>

definition MAX_SUBSTREAM_ATTEMPS :: usize where
  "MAX_SUBSTREAM_ATTEMPS = 5"

datatype 's inbound_substream_state = WaitingInput 's | Closing 's | InboundPoisoned

datatype 's outbound_substream_state =
    WaitingOutput 's
  | PendingSend 's proto_rpc
  | PendingFlush 's
  | OutboundPoisoned

record ('s, 'r) enabled_handler =
  listen_protocol :: protocol_config
  outbound_substream :: "'s outbound_substream_state option"
  inbound_substream :: "'s inbound_substream_state option"
  send_queue :: "'r receiver"
  outbound_substream_establishing :: bool
  outbound_substream_attempts :: usize
  inbound_substream_attempts :: usize

datatype disabled_handler = ProtocolUnsupported | MaxSubstreamAttempts

datatype ('s, 'r) handler = Enabled "('s, 'r) enabled_handler" | Disabled disabled_handler

definition handler_new :: "protocol_config \<Rightarrow> 'r receiver \<Rightarrow> ('s, 'r) handler" where
  "handler_new pc queue =
     Enabled
       \<lparr>listen_protocol = pc, outbound_substream = None, inbound_substream = None,
        send_queue = queue, outbound_substream_establishing = False,
        outbound_substream_attempts = 0, inbound_substream_attempts = 0\<rparr>"

text \<open>What a substream does when it is driven; the new value of the substream comes with it.\<close>

record ('s, 'p) framed_ops =
  sink_poll_ready :: "'s \<Rightarrow> (io_error + unit) poll \<times> 's"
  sink_start_send :: "'s \<Rightarrow> proto_rpc \<Rightarrow> (io_error + unit) \<times> 's"
  sink_poll_flush :: "'s \<Rightarrow> (io_error + unit) poll \<times> 's"
  sink_poll_close :: "'s \<Rightarrow> (io_error + unit) poll \<times> 's"
  stream_poll_next :: "'s \<Rightarrow> (io_error + 'p handler_event) option poll \<times> 's"

text \<open>\<open>ConnectionHandlerEvent\<close>, the two cases the handler makes.\<close>

datatype 'p connection_handler_event =
    OutboundSubstreamRequest protocol_config
  | NotifyBehaviour "'p handler_event"

section \<open>Loops\<close>

text \<open>
  How an iteration of a \<open>loop\<close> ends: it goes on, leaves the loop, returns from the function,
  or panics. A loop that never ends has the value \<open>None\<close>.
\<close>

datatype 'e loop_exit = Continue | Break | Return 'e | Panic

partial_function (option) run_loop :: "('x \<Rightarrow> 'e loop_exit \<times> 'x) \<Rightarrow> 'x \<Rightarrow> ('e loop_exit \<times> 'x) option" where
  "run_loop step x =
     (case step x of
        (Continue, x') \<Rightarrow> run_loop step x'
      | (exit, x') \<Rightarrow> Some (exit, x'))"

text \<open>A loop ends when a measure decreases with every iteration that goes on.\<close>

lemma run_loop_terminates:
  fixes m :: "'x \<Rightarrow> nat"
  assumes "\<And>x x'. P x \<Longrightarrow> step x = (Continue, x') \<Longrightarrow> P x' \<and> m x' < m x"
    and "\<And>x exit x'. P x \<Longrightarrow> step x = (exit, x') \<Longrightarrow> exit \<noteq> Continue \<Longrightarrow> Q exit x'"
    and "P x"
  shows "\<exists>exit x'. run_loop step x = Some (exit, x') \<and> exit \<noteq> Continue \<and> Q exit x'"
  using assms(3)
proof (induction "m x" arbitrary: x rule: less_induct)
  case less
  obtain exit x' where s: "step x = (exit, x')" by fastforce
  show ?case
  proof (cases exit)
    case Continue
    with less s assms(1) have "\<exists>exit y. run_loop step x' = Some (exit, y) \<and> exit \<noteq> Continue \<and> Q exit y"
      by blast
    then show ?thesis
      by (subst run_loop.simps) (simp add: s Continue)
  qed (use assms(2) less.prems s in \<open>subst run_loop.simps, auto\<close>)+
qed

section \<open>Polling the handler\<close>

fun rpc_timeout :: "'p rpc_out \<Rightarrow> delay option" where
  "rpc_timeout (Publish tx timeout) = Some timeout"
| "rpc_timeout (Forward tx timeout) = Some timeout"
| "rpc_timeout _ = None"

text \<open>
  One iteration of the outbound loop. \<open>mem::replace\<close> leaves \<open>Poisoned\<close> behind; each branch
  puts a state back.
\<close>

definition outbound_step ::
  "('q, 'r, 'p rpc_out) channel_ops \<Rightarrow> ('p, 'k, 'pk) libp2p_ops \<Rightarrow> ('s, 'p) framed_ops \<Rightarrow>
   (delay \<Rightarrow> bool) \<Rightarrow> ('s, 'r) enabled_handler \<times> 'q send_channels \<Rightarrow>
   'p connection_handler_event loop_exit \<times> ('s, 'r) enabled_handler \<times> 'q send_channels" where
  "outbound_step C I F elapsed x =
     (let (h, ch) = x;
          old = outbound_substream h;
          h = h\<lparr>outbound_substream := Some OutboundPoisoned\<rparr>
      in case old of
           Some (WaitingOutput substream) \<Rightarrow>
             (case receiver_poll_next C (send_queue h, ch) of
                (res, rv, ch) \<Rightarrow>
                  (let h = h\<lparr>send_queue := rv\<rparr>
                   in case res of
                        Ready (Some m) \<Rightarrow>
                          (if (case rpc_timeout m of Some timeout \<Rightarrow> elapsed timeout | None \<Rightarrow> False)
                           then (Return (NotifyBehaviour (TransactionDropped m)),
                                 h\<lparr>outbound_substream := Some (WaitingOutput substream)\<rparr>, ch)
                           else (Continue,
                                 h\<lparr>outbound_substream :=
                                     Some (PendingSend substream (rpc_out_into_protobuf I m))\<rparr>, ch))
                      | _ \<Rightarrow> (Break, h\<lparr>outbound_substream := Some (WaitingOutput substream)\<rparr>, ch)))
         | Some (PendingSend substream r) \<Rightarrow>
             (case sink_poll_ready F substream of
                (Ready (Inr u), substream) \<Rightarrow>
                  (case sink_start_send F substream r of
                     (Inr u, substream) \<Rightarrow>
                       (Continue, h\<lparr>outbound_substream := Some (PendingFlush substream)\<rparr>, ch)
                   | (Inl e, substream) \<Rightarrow> (Break, h\<lparr>outbound_substream := None\<rparr>, ch))
              | (Ready (Inl e), substream) \<Rightarrow> (Break, h\<lparr>outbound_substream := None\<rparr>, ch)
              | (Pending, substream) \<Rightarrow>
                  (Break, h\<lparr>outbound_substream := Some (PendingSend substream r)\<rparr>, ch))
         | Some (PendingFlush substream) \<Rightarrow>
             (case sink_poll_flush F substream of
                (Ready (Inr u), substream) \<Rightarrow>
                  (Continue, h\<lparr>outbound_substream := Some (WaitingOutput substream)\<rparr>, ch)
              | (Ready (Inl e), substream) \<Rightarrow> (Break, h\<lparr>outbound_substream := None\<rparr>, ch)
              | (Pending, substream) \<Rightarrow>
                  (Break, h\<lparr>outbound_substream := Some (PendingFlush substream)\<rparr>, ch))
         | None \<Rightarrow> (Break, h\<lparr>outbound_substream := None\<rparr>, ch)
         | Some OutboundPoisoned \<Rightarrow> (Panic, h, ch))"

definition inbound_step ::
  "('s, 'p) framed_ops \<Rightarrow> ('s, 'r) enabled_handler \<Rightarrow>
   'p connection_handler_event loop_exit \<times> ('s, 'r) enabled_handler" where
  "inbound_step F h =
     (let old = inbound_substream h;
          h = h\<lparr>inbound_substream := Some InboundPoisoned\<rparr>
      in case old of
           Some (WaitingInput substream) \<Rightarrow>
             (case stream_poll_next F substream of
                (Ready (Some (Inr event)), substream) \<Rightarrow>
                  (Return (NotifyBehaviour event), h\<lparr>inbound_substream := Some (WaitingInput substream)\<rparr>)
              | (Ready (Some (Inl e)), substream) \<Rightarrow>
                  (Continue, h\<lparr>inbound_substream := Some (Closing substream)\<rparr>)
              | (Ready None, substream) \<Rightarrow>
                  (Continue, h\<lparr>inbound_substream := Some (Closing substream)\<rparr>)
              | (Pending, substream) \<Rightarrow>
                  (Break, h\<lparr>inbound_substream := Some (WaitingInput substream)\<rparr>))
         | Some (Closing substream) \<Rightarrow>
             (case sink_poll_close F substream of
                (Ready res, substream) \<Rightarrow> (Break, h\<lparr>inbound_substream := None\<rparr>)
              | (Pending, substream) \<Rightarrow>
                  (Break, h\<lparr>inbound_substream := Some (Closing substream)\<rparr>))
         | None \<Rightarrow> (Break, h\<lparr>inbound_substream := None\<rparr>)
         | Some InboundPoisoned \<Rightarrow> (Panic, h))"

datatype 'a outcome = Panicked | Returned 'a

definition enabled_poll ::
  "('q, 'r, 'p rpc_out) channel_ops \<Rightarrow> ('p, 'k, 'pk) libp2p_ops \<Rightarrow> ('s, 'p) framed_ops \<Rightarrow>
   (delay \<Rightarrow> bool) \<Rightarrow> ('s, 'r) enabled_handler \<times> 'q send_channels \<Rightarrow>
   ('p connection_handler_event poll \<times> ('s, 'r) enabled_handler \<times> 'q send_channels) outcome option" where
  "enabled_poll C I F elapsed x =
     (let (h, ch) = x;
          (is_empty, rv, ch) = receiver_poll_is_empty C (send_queue h, ch);
          h = h\<lparr>send_queue := rv\<rparr>
      in if \<not> is_empty \<and> outbound_substream h = None \<and> \<not> outbound_substream_establishing h
         then Some (Returned (Ready (OutboundSubstreamRequest (listen_protocol h)),
                h\<lparr>outbound_substream_establishing := True\<rparr>, ch))
         else
           (case run_loop (outbound_step C I F elapsed) (h, ch) of
              None \<Rightarrow> None
            | Some (Return event, x) \<Rightarrow> Some (Returned (Ready event, x))
            | Some (Break, h, ch) \<Rightarrow>
                (case run_loop (inbound_step F) h of
                   None \<Rightarrow> None
                 | Some (Return event, h) \<Rightarrow> Some (Returned (Ready event, h, ch))
                 | Some (Break, h) \<Rightarrow>
                     (case receiver_poll_stale C elapsed (send_queue h, ch) of
                        None \<Rightarrow> Some Panicked
                      | Some (res, rv, ch) \<Rightarrow>
                          (let h = h\<lparr>send_queue := rv\<rparr>
                           in case res of
                                Ready (Some m) \<Rightarrow>
                                  Some (Returned (Ready (NotifyBehaviour (TransactionDropped m)), h, ch))
                              | _ \<Rightarrow> Some (Returned (Pending, h, ch))))
                 | Some _ \<Rightarrow> Some Panicked)
            | Some _ \<Rightarrow> Some Panicked))"

definition handler_poll ::
  "('q, 'r, 'p rpc_out) channel_ops \<Rightarrow> ('p, 'k, 'pk) libp2p_ops \<Rightarrow> ('s, 'p) framed_ops \<Rightarrow>
   (delay \<Rightarrow> bool) \<Rightarrow> ('s, 'r) handler \<times> 'q send_channels \<Rightarrow>
   ('p connection_handler_event poll \<times> ('s, 'r) handler \<times> 'q send_channels) outcome option" where
  "handler_poll C I F elapsed x =
     (case x of
        (Enabled h, ch) \<Rightarrow>
          (case enabled_poll C I F elapsed (h, ch) of
             None \<Rightarrow> None
           | Some Panicked \<Rightarrow> Some Panicked
           | Some (Returned (res, h, ch)) \<Rightarrow> Some (Returned (res, Enabled h, ch)))
      | (Disabled ProtocolUnsupported, ch) \<Rightarrow> Some (Returned (Pending, x))
      | (Disabled MaxSubstreamAttempts, ch) \<Rightarrow> Some (Returned (Pending, x)))"

definition handler_listen_protocol :: "('s, 'r) handler \<Rightarrow> protocol_config option" where
  "handler_listen_protocol h =
     (case h of Enabled h \<Rightarrow> Some (listen_protocol h) | Disabled d \<Rightarrow> None)"

section \<open>Connection events\<close>

text \<open>
  The events of \<open>libp2p-swarm\<close> the handler looks into, without the cases whose content has an
  uninhabited type; \<open>'o\<close> are all the others.
\<close>

datatype stream_upgrade_error = Timeout | NegotiationFailed | IoFailed io_error

datatype ('s, 'o) connection_event =
    FullyNegotiatedInbound 's
  | FullyNegotiatedOutbound 's
  | DialUpgradeError stream_upgrade_error
  | OtherEvent 'o

definition on_fully_negotiated_inbound :: "'s \<Rightarrow> ('s, 'r) enabled_handler \<Rightarrow> ('s, 'r) enabled_handler" where
  "on_fully_negotiated_inbound substream h =
     h\<lparr>inbound_substream := Some (WaitingInput substream)\<rparr>"

text \<open>\<open>None\<close> is the failed assertion.\<close>

definition on_fully_negotiated_outbound ::
  "'s \<Rightarrow> ('s, 'r) enabled_handler \<Rightarrow> ('s, 'r) enabled_handler option" where
  "on_fully_negotiated_outbound substream h =
     (if outbound_substream h = None
      then Some (h\<lparr>outbound_substream := Some (WaitingOutput substream)\<rparr>) else None)"

text \<open>\<open>is_inbound\<close> and \<open>is_outbound\<close> are methods of the event, in \<open>libp2p-swarm\<close>.\<close>

definition on_connection_event ::
  "(('s, 'o) connection_event \<Rightarrow> bool) \<Rightarrow> (('s, 'o) connection_event \<Rightarrow> bool) \<Rightarrow>
   ('s, 'o) connection_event \<Rightarrow> ('s, 'r) handler \<Rightarrow> ('s, 'r) handler option" where
  "on_connection_event is_inbound is_outbound event handler =
     (case handler of
        Disabled d \<Rightarrow> Some (Disabled d)
      | Enabled h \<Rightarrow>
          (let h = (if is_inbound event
                    then h\<lparr>inbound_substream_attempts := inbound_substream_attempts h + 1\<rparr> else h)
           in if is_inbound event \<and> inbound_substream_attempts h = MAX_SUBSTREAM_ATTEMPS
              then Some (Disabled MaxSubstreamAttempts)
              else
                let h = (if is_outbound event
                         then h\<lparr>outbound_substream_establishing := False,
                                outbound_substream_attempts := outbound_substream_attempts h + 1\<rparr>
                         else h)
                in if is_outbound event \<and> outbound_substream_attempts h = MAX_SUBSTREAM_ATTEMPS
                   then Some (Disabled MaxSubstreamAttempts)
                   else (case event of
                           FullyNegotiatedInbound substream \<Rightarrow>
                             Some (Enabled (on_fully_negotiated_inbound substream h))
                         | FullyNegotiatedOutbound substream \<Rightarrow>
                             map_option Enabled (on_fully_negotiated_outbound substream h)
                         | DialUpgradeError Timeout \<Rightarrow> Some (Enabled h)
                         | DialUpgradeError NegotiationFailed \<Rightarrow> Some (Disabled ProtocolUnsupported)
                         | DialUpgradeError (IoFailed e) \<Rightarrow> Some (Enabled h)
                         | OtherEvent other \<Rightarrow> Some (Enabled h))))"

end
