(* ===== verification/Dog_Behaviour.thy ===== *)
theory Dog_Behaviour
  imports Dog_Transform Dog_Time_Cache Dog_Router Dog_Controller Dog_Metrics Dog_Handler
begin

text \<open>
  The network behaviour (\<open>behaviour.rs\<close>): the state of a node and every handler of it, each
  a function from the state to the state. What a handler gets from outside is an argument:
  the functions of libp2p \<open>I\<close>, the channels \<open>C\<close>, and a \<open>world\<close> with the clock, the
  iteration order of its hash maps and its random draw.
\<close>

section \<open>Publishing configuration\<close>

datatype ('k, 'p) transaction_authenticity = Signed 'k | Author 'p

text \<open>The last sequence number is a \<open>u64\<close>, created from the clock in nanoseconds.\<close>

definition sequence_number_new :: "nat \<Rightarrow> u64" where
  "sequence_number_new unix_nanos = of_nat unix_nanos"

text \<open>\<open>checked_add\<close>; \<open>None\<close> is the panic of its \<open>expect\<close>.\<close>

definition sequence_number_next :: "u64 \<Rightarrow> u64 option" where
  "sequence_number_next n = (if unat n + 1 < 2 ^ 64 then Some (n + 1) else None)"

datatype ('k, 'p) publish_config =
    Signing 'k 'p "bytes option" u64
  | PublishAuthor 'p u64

fun get_own_id :: "('k, 'p) publish_config \<Rightarrow> 'p" where
  "get_own_id (Signing keypair own_id inline_key last_seqno) = own_id"
| "get_own_id (PublishAuthor own_id last_seqno) = own_id"

fun publish_config_of ::
  "('p, 'k, 'pk) libp2p_ops \<Rightarrow> nat \<Rightarrow> ('k, 'p) transaction_authenticity \<Rightarrow> ('k, 'p) publish_config" where
  "publish_config_of I unix_nanos (Signed kp) =
     (let public_key = keypair_public I kp;
          key_enc = public_key_encode I public_key;
          key = (if length key_enc \<le> 42 then None else Some key_enc)
      in Signing kp (public_key_to_peer_id I public_key) key (sequence_number_new unix_nanos))"
| "publish_config_of I unix_nanos (Author a) = PublishAuthor a (sequence_number_new unix_nanos)"

section \<open>The state\<close>

datatype 'p event =
    TransactionReceived 'p transaction_id "'p transaction"
  | TransactionSent 'p transaction_id "'p transaction"
  | HaveTxReceived 'p transaction_id
  | HaveTxSent 'p transaction_id
  | ResetRouteReceived 'p
  | ResetRouteSent 'p
  | RoutingUpdated "'p route list"

type_synonym connection_id = nat

record 'q peer_connections =
  connections :: "connection_id list"
  peer_sender :: "'q sender"

text \<open>Every event pushed is a \<open>ToSwarm::GenerateEvent\<close>; the queue is of what these carry.\<close>

record ('p, 'k, 'q) behaviour =
  bconfig :: "'p config"
  events :: "'p event list"
  publish_config :: "('k, 'p) publish_config"
  data_transform :: "'p data_transform"
  connected_peers :: "'p \<rightharpoonup> 'q peer_connections"
  redundancy_timer :: delay
  redundancy_controller :: controller
  router :: "'p router"
  cache :: "(transaction_id, 'p) duplicate_cache"
  metrics :: "metrics option"

record 'p world =
  clock :: instant
  peer_order :: "'p list"
  have_tx_order :: "'p list"
  draw :: nat

definition behaviour_new ::
  "('p, 'k, 'pk) libp2p_ops \<Rightarrow> instant \<Rightarrow> nat \<Rightarrow> ('k, 'p) transaction_authenticity \<Rightarrow> 'p config \<Rightarrow>
   bool \<Rightarrow> 'p data_transform \<Rightarrow> string + ('p, 'k, 'q) behaviour" where
  "behaviour_new I now unix_nanos authenticity cfg with_registry transform =
     Inr \<lparr>bconfig = cfg,
          events = [],
          publish_config = publish_config_of I unix_nanos authenticity,
          data_transform = transform,
          connected_peers = Map.empty,
          redundancy_timer = Delay now (redundancy_interval cfg),
          redundancy_controller = controller_new cfg,
          router = router_new,
          cache = cache_new (cache_time cfg),
          metrics = (if with_registry then Some metrics_new else None)\<rparr>"

definition with_metrics :: "(metrics \<Rightarrow> metrics) \<Rightarrow> ('p, 'k, 'q) behaviour \<Rightarrow> ('p, 'k, 'q) behaviour" where
  "with_metrics f b = b\<lparr>metrics := map_option f (metrics b)\<rparr>"

definition push_event :: "'p event \<Rightarrow> ('p, 'k, 'q) behaviour \<Rightarrow> ('p, 'k, 'q) behaviour" where
  "push_event e b = b\<lparr>events := events b @ [e]\<rparr>"

section \<open>Building and sending\<close>

text \<open>\<open>None\<close> is the panic of \<open>SequenceNumber::next\<close>. The number is used up when signing fails.\<close>

definition build_raw_transaction ::
  "('p, 'k, 'pk) libp2p_ops \<Rightarrow> bytes \<Rightarrow> ('p, 'k, 'q) behaviour \<Rightarrow>
   ((publish_error + 'p raw_transaction) \<times> ('p, 'k, 'q) behaviour) option" where
  "build_raw_transaction I data b =
     (case publish_config b of
        Signing kp own_id inline_key last_seqno \<Rightarrow>
          (case sequence_number_next last_seqno of
             None \<Rightarrow> None
           | Some seqno \<Rightarrow>
               (let b = b\<lparr>publish_config := Signing kp own_id inline_key seqno\<rparr>;
                    unsigned = \<lparr>proto_from = peer_to_bytes I own_id, proto_seqno = seqno,
                                proto_data = data, proto_signature = [], proto_key = []\<rparr>
                in case keypair_sign I kp (SIGNING_PREFIX @ proto_tx_write I unsigned) of
                     Inl e \<Rightarrow> Some (Inl (publish_error_of_signing e), b)
                   | Inr signature \<Rightarrow>
                       Some (Inr \<lparr>raw_from = own_id, raw_seqno = seqno, raw_data = data,
                                  raw_signature = Some signature, raw_key = inline_key\<rparr>, b)))
      | PublishAuthor own_id last_seqno \<Rightarrow>
          (case sequence_number_next last_seqno of
             None \<Rightarrow> None
           | Some seqno \<Rightarrow>
               (let b = b\<lparr>publish_config := PublishAuthor own_id seqno\<rparr>
                in Some (Inr \<lparr>raw_from = own_id, raw_seqno = seqno, raw_data = data,
                              raw_signature = None, raw_key = None\<rparr>, b))))"

text \<open>The metrics count a transaction before it is known whether it can be sent.\<close>

definition count_sent ::
  "('p, 'k, 'pk) libp2p_ops \<Rightarrow> 'p rpc_out \<Rightarrow> ('p, 'k, 'q) behaviour \<Rightarrow> ('p, 'k, 'q) behaviour" where
  "count_sent I rpc b =
     (case rpc of
        Publish tx timeout \<Rightarrow> with_metrics (tx_sent (raw_protobuf_len I tx)) b
      | Forward tx timeout \<Rightarrow> with_metrics (tx_sent (raw_protobuf_len I tx)) b
      | _ \<Rightarrow> b)"

definition send_transaction ::
  "('q, 'r, 'p rpc_out) channel_ops \<Rightarrow> ('p, 'k, 'pk) libp2p_ops \<Rightarrow> 'p \<Rightarrow> 'p rpc_out \<Rightarrow>
   ('p, 'k, 'q) behaviour \<Rightarrow> bool \<times> ('p, 'k, 'q) behaviour" where
  "send_transaction C I peer_id rpc b =
     (let b = count_sent I rpc b
      in case connected_peers b peer_id of
           None \<Rightarrow> (False, b)
         | Some peer \<Rightarrow>
             (case sender_send_transaction C rpc (peer_sender peer) of
                (res, s) \<Rightarrow>
                  (case res of Inr u \<Rightarrow> True | Inl refused \<Rightarrow> False,
                   b\<lparr>connected_peers := (connected_peers b)(peer_id \<mapsto> peer\<lparr>peer_sender := s\<rparr>)\<rparr>)))"

text \<open>
  The loop over the recipients of a transaction, in \<open>publish\<close> and in \<open>forward_transaction\<close>:
  the first component of the result is whether any peer took it.
\<close>

fun send_to_all ::
  "('q, 'r, 'p rpc_out) channel_ops \<Rightarrow> ('p, 'k, 'pk) libp2p_ops \<Rightarrow> 'p rpc_out \<Rightarrow> transaction_id \<Rightarrow>
   'p transaction \<Rightarrow> 'p list \<Rightarrow> ('p, 'k, 'q) behaviour \<Rightarrow> bool \<times> ('p, 'k, 'q) behaviour" where
  "send_to_all C I rpc tx_id tx [] b = (False, b)"
| "send_to_all C I rpc tx_id tx (peer_id # peers) b =
     (case send_transaction C I peer_id rpc b of
        (True, b) \<Rightarrow>
          (case send_to_all C I rpc tx_id tx peers (push_event (TransactionSent peer_id tx_id tx) b) of
             (_, b) \<Rightarrow> (True, b))
      | (False, b) \<Rightarrow> send_to_all C I rpc tx_id tx peers b)"

text \<open>
  The result of \<open>publish\<close>; \<open>None\<close> is a panic. The peers are visited in the order the map of
  connected peers yields them.
\<close>

definition publish ::
  "('q, 'r, 'p rpc_out) channel_ops \<Rightarrow> ('p, 'k, 'pk) libp2p_ops \<Rightarrow> 'p world \<Rightarrow> bytes \<Rightarrow>
   ('p, 'k, 'q) behaviour \<Rightarrow> ((publish_error + transaction_id) \<times> ('p, 'k, 'q) behaviour) option" where
  "publish C I w data b =
     (case outbound_transform (data_transform b) data of
        Inl e \<Rightarrow> Some (Inl (publish_error_of_io e), b)
      | Inr transformed_data \<Rightarrow>
          if length transformed_data > max_transmit_size (bconfig b)
          then Some (Inl TransactionTooLarge, b)
          else
            (case build_raw_transaction I transformed_data b of
               None \<Rightarrow> None
             | Some (Inl e, b) \<Rightarrow> Some (Inl e, b)
             | Some (Inr raw, b) \<Rightarrow>
                 (let tx = \<lparr>tx_from = raw_from raw, tx_seqno = raw_seqno raw, tx_data = data\<rparr>;
                      tx_id = config_transaction_id (bconfig b) tx
                  in if cache_contains tx_id (cache b) then Some (Inl Duplicate, b)
                     else
                       let b = b\<lparr>cache := snd (cache_insert (clock w) tx_id
                                                 (get_own_id (publish_config b)) (cache b))\<rparr>;
                           b = with_metrics (set_txs_cache_size (cache_len (cache b))) b;
                           recipient_peers =
                             filter_valid_routes (get_own_id (publish_config b)) (peer_order w) (router b);
                           (any_sent, b) =
                             send_to_all C I
                               (Publish raw (Delay (clock w) (publish_queue_duration (bconfig b))))
                               tx_id tx recipient_peers b
                       in if recipient_peers = [] then Some (Inl InsufficientPeers, b)
                          else if \<not> any_sent
                          then Some (Inl (AllQueuesFull (card (dom (connected_peers b)))), b)
                          else Some (Inr tx_id, with_metrics register_published_tx b))))"

definition forward_transaction ::
  "('q, 'r, 'p rpc_out) channel_ops \<Rightarrow> ('p, 'k, 'pk) libp2p_ops \<Rightarrow> 'p world \<Rightarrow> transaction_id \<Rightarrow>
   'p raw_transaction \<Rightarrow> 'p \<Rightarrow> ('p, 'k, 'q) behaviour \<Rightarrow> bool \<times> ('p, 'k, 'q) behaviour" where
  "forward_transaction C I w tx_id raw propagation_source b =
     (let recipient_peers =
            filter_valid_routes propagation_source
              (filter (\<lambda>peer. peer \<noteq> propagation_source \<and> peer \<noteq> raw_from raw) (peer_order w))
              (router b)
      in if recipient_peers = [] then (False, b)
         else
           let tx = \<lparr>tx_from = raw_from raw, tx_seqno = raw_seqno raw, tx_data = raw_data raw\<rparr>;
               (_, b) =
                 send_to_all C I (Forward raw (Delay (clock w) (forward_queue_duration (bconfig b))))
                   tx_id tx recipient_peers b
           in (True, b))"

section \<open>Receiving\<close>

definition handle_invalid_transaction ::
  "'p \<Rightarrow> 'p raw_transaction \<Rightarrow> ('p, 'k, 'q) behaviour \<Rightarrow> ('p, 'k, 'q) behaviour" where
  "handle_invalid_transaction propagation_source raw b = with_metrics register_invalid_tx b"

definition handle_received_transaction ::
  "('q, 'r, 'p rpc_out) channel_ops \<Rightarrow> ('p, 'k, 'pk) libp2p_ops \<Rightarrow> 'p world \<Rightarrow> 'p raw_transaction \<Rightarrow>
   'p \<Rightarrow> ('p, 'k, 'q) behaviour \<Rightarrow> ('p, 'k, 'q) behaviour" where
  "handle_received_transaction C I w raw propagation_source b =
     (let b = with_metrics (tx_recv_unfiltered (raw_protobuf_len I raw)) b
      in case inbound_transform (data_transform b) raw of
           Inl e \<Rightarrow> handle_invalid_transaction propagation_source raw b
         | Inr tx \<Rightarrow>
             (let tx_id = config_transaction_id (bconfig b) tx;
                  b = push_event (TransactionReceived propagation_source tx_id tx) b;
                  (is_new, c) = cache_insert (clock w) tx_id propagation_source (cache b);
                  b = b\<lparr>cache := c\<rparr>
              in if \<not> is_new then
                   let b = with_metrics (set_txs_cache_size (cache_len (cache b))) b;
                       b = b\<lparr>redundancy_controller :=
                             incr_duplicate_txs_count (redundancy_controller b)\<rparr>
                   in if \<not> send_have_tx (bconfig b) then b
                      else if is_have_tx_blocked (redundancy_controller b) then b
                      else
                        (case send_transaction C I propagation_source
                                (HaveTx \<lparr>have_tx_id = tx_id\<rparr>) b of
                           (False, b) \<Rightarrow> b
                         | (True, b) \<Rightarrow>
                             (let b = b\<lparr>router := register_have_tx_sent propagation_source (router b)\<rparr>;
                                  b = b\<lparr>redundancy_controller :=
                                        block_have_tx (redundancy_controller b)\<rparr>;
                                  b = with_metrics register_have_tx_sent_metric b
                              in push_event (HaveTxSent propagation_source tx_id) b))
                 else
                   let b = b\<lparr>redundancy_controller :=
                             incr_first_time_txs_count (redundancy_controller b)\<rparr>;
                       b = with_metrics (set_txs_cache_size (cache_len (cache b)) \<circ> tx_recv) b
                   in if forward_transactions (bconfig b)
                      then snd (forward_transaction C I w tx_id raw propagation_source b)
                      else b))"

section \<open>Control messages\<close>

fun disable_routes_of ::
  "transaction_id list \<Rightarrow> 'p \<Rightarrow> ('p, 'k, 'q) behaviour \<Rightarrow> ('p, 'k, 'q) behaviour" where
  "disable_routes_of [] propagation_source b = b"
| "disable_routes_of (tx_id # tx_ids) propagation_source b =
     (let b = push_event (HaveTxReceived propagation_source tx_id) b
      in case cache_get tx_id (cache b) of
           Some source \<Rightarrow>
             if source = propagation_source then disable_routes_of tx_ids propagation_source b
             else disable_routes_of tx_ids propagation_source
                    (b\<lparr>router := disable_route source propagation_source (router b)\<rparr>)
         | None \<Rightarrow> disable_routes_of tx_ids propagation_source b)"

definition handle_have_tx ::
  "transaction_id list \<Rightarrow> 'p \<Rightarrow> ('p, 'k, 'q) behaviour \<Rightarrow> ('p, 'k, 'q) behaviour" where
  "handle_have_tx tx_ids propagation_source b =
     (let b = disable_routes_of tx_ids propagation_source b;
          b = push_event (RoutingUpdated (get_disabled_routes (router b))) b
      in with_metrics (set_disabled_routes_count (length (get_disabled_routes (router b)))) b)"

definition handle_reset_route :: "'p world \<Rightarrow> 'p \<Rightarrow> ('p, 'k, 'q) behaviour \<Rightarrow> ('p, 'k, 'q) behaviour" where
  "handle_reset_route w propagation_source b =
     (let b = push_event (ResetRouteReceived propagation_source) b
      in case enable_random_route_to_peer (draw w) propagation_source (router b) of
           (Some route, r) \<Rightarrow>
             (let b = b\<lparr>router := r\<rparr>;
                  b = push_event (RoutingUpdated (get_disabled_routes (router b))) b
              in with_metrics (set_disabled_routes_count (length (get_disabled_routes (router b)))) b)
         | (None, r) \<Rightarrow> b\<lparr>router := r\<rparr>)"

section \<open>Redundancy\<close>

definition adjust_redundancy ::
  "('q, 'r, 'p rpc_out) channel_ops \<Rightarrow> ('p, 'k, 'pk) libp2p_ops \<Rightarrow> 'p world \<Rightarrow>
   ('p, 'k, 'q) behaviour \<Rightarrow> ('p, 'k, 'q) behaviour" where
  "adjust_redundancy C I w b =
     (let ((r, send_reset_route), c) = evaluate (redundancy_controller b);
          b = b\<lparr>redundancy_controller := c\<rparr>;
          b = (if send_reset_route then
                 (case get_random_have_tx_sent_peer (have_tx_order w) (draw w) (router b) of
                    Some peer_id \<Rightarrow>
                      (case send_transaction C I peer_id (SendResetRoute ResetRoute) b of
                         (True, b) \<Rightarrow>
                           push_event (ResetRouteSent peer_id)
                             (with_metrics register_reset_route_sent
                               (b\<lparr>router := remove_have_tx_sent peer_id (router b)\<rparr>))
                       | (False, b) \<Rightarrow> b)
                  | None \<Rightarrow> b)
               else b);
          b = with_metrics (set_redundancy r) b
      in b\<lparr>redundancy_controller := reset_counters (redundancy_controller b)\<rparr>)"

section \<open>Connections\<close>

definition on_connection_established :: "'p \<Rightarrow> ('p, 'k, 'q) behaviour \<Rightarrow> ('p, 'k, 'q) behaviour" where
  "on_connection_established peer_id b = with_metrics inc_peers_count b"

definition on_connection_closed ::
  "('q, 'r, 'p rpc_out) channel_ops \<Rightarrow> ('p, 'k, 'pk) libp2p_ops \<Rightarrow> 'p world \<Rightarrow> 'p \<Rightarrow> connection_id \<Rightarrow> usize \<Rightarrow>
   ('p, 'k, 'q) behaviour \<Rightarrow> ('p, 'k, 'q) behaviour" where
  "on_connection_closed C I w peer_id connection_id remaining_established b =
     (if remaining_established \<noteq> 0 then
        (case connected_peers b peer_id of
           Some peer \<Rightarrow>
             b\<lparr>connected_peers := (connected_peers b)(peer_id \<mapsto>
                 peer\<lparr>connections := filter (\<lambda>i. i \<noteq> connection_id) (connections peer)\<rparr>)\<rparr>
         | None \<Rightarrow> b)
      else
        let (removed, r) = reset_routes_with_peer peer_id (router b);
            b = b\<lparr>router := r\<rparr>;
            b = (if removed \<noteq> [] then
                   with_metrics (set_disabled_routes_count (length (get_disabled_routes (router b))))
                     (push_event (RoutingUpdated (get_disabled_routes (router b))) b)
                 else b);
            b = b\<lparr>connected_peers := (connected_peers b)(peer_id := None)\<rparr>;
            b = adjust_redundancy C I w b
        in with_metrics dec_peers_count b)"

text \<open>
  The two \<open>handle_established\<close> methods have the same body. The sender is created before the
  map is looked at, so creating it panics, with \<open>None\<close>, also for a peer that has one.
\<close>

definition handle_established_connection ::
  "('q, 'r, 'p rpc_out) channel_ops \<Rightarrow> connection_id \<Rightarrow> 'p \<Rightarrow> ('p, 'k, 'q) behaviour \<Rightarrow>
   (('s, 'r) handler \<times> ('p, 'k, 'q) behaviour) option" where
  "handle_established_connection C connection_id peer_id b =
     (case sender_new C (connection_handler_queue_len (bconfig b)) of
        None \<Rightarrow> None
      | Some s \<Rightarrow>
          (let peer = (case connected_peers b peer_id of
                         Some peer \<Rightarrow> peer
                       | None \<Rightarrow> \<lparr>connections = [], peer_sender = s\<rparr>);
               peer = peer\<lparr>connections := connections peer @ [connection_id]\<rparr>
           in Some (handler_new (config_protocol_config (bconfig b)) (new_receiver C (peer_sender peer)),
                    b\<lparr>connected_peers := (connected_peers b)(peer_id \<mapsto> peer)\<rparr>)))"

definition handle_established_inbound_connection ::
  "('q, 'r, 'p rpc_out) channel_ops \<Rightarrow> connection_id \<Rightarrow> 'p \<Rightarrow> ('p, 'k, 'q) behaviour \<Rightarrow>
   (('s, 'r) handler \<times> ('p, 'k, 'q) behaviour) option" where
  "handle_established_inbound_connection C connection_id peer_id b =
     handle_established_connection C connection_id peer_id b"

definition handle_established_outbound_connection ::
  "('q, 'r, 'p rpc_out) channel_ops \<Rightarrow> connection_id \<Rightarrow> 'p \<Rightarrow> ('p, 'k, 'q) behaviour \<Rightarrow>
   (('s, 'r) handler \<times> ('p, 'k, 'q) behaviour) option" where
  "handle_established_outbound_connection C connection_id peer_id b =
     handle_established_connection C connection_id peer_id b"

section \<open>Events of the handlers and of the swarm\<close>

text \<open>
  The loop over the transactions of a message; \<open>count\<close> is the index of the first one. The
  \<open>i\<close>th transaction is handled in the world \<open>ws i\<close>.
\<close>

fun receive_all ::
  "('q, 'r, 'p rpc_out) channel_ops \<Rightarrow> ('p, 'k, 'pk) libp2p_ops \<Rightarrow> (nat \<Rightarrow> 'p world) \<Rightarrow> 'p \<Rightarrow> nat \<Rightarrow>
   'p raw_transaction list \<Rightarrow> ('p, 'k, 'q) behaviour \<Rightarrow> ('p, 'k, 'q) behaviour" where
  "receive_all C I ws propagation_source i [] b = b"
| "receive_all C I ws propagation_source i (raw # raws) b =
     (if (case max_transactions_per_rpc (bconfig b) of Some limit \<Rightarrow> i \<ge> limit | None \<Rightarrow> False) then b
      else receive_all C I ws propagation_source (i + 1) raws
             (handle_received_transaction C I (ws i) raw propagation_source b))"

definition on_connection_handler_event ::
  "('q, 'r, 'p rpc_out) channel_ops \<Rightarrow> ('p, 'k, 'pk) libp2p_ops \<Rightarrow> (nat \<Rightarrow> 'p world) \<Rightarrow> 'p world \<Rightarrow> 'p \<Rightarrow>
   'p handler_event \<Rightarrow> ('p, 'k, 'q) behaviour \<Rightarrow> ('p, 'k, 'q) behaviour" where
  "on_connection_handler_event C I ws w propagation_source event b =
     (case event of
        TransactionEvent r invalid \<Rightarrow>
          (let b = receive_all C I ws propagation_source 0 (rpc_transactions r) b;
               have_tx_ids = List.map_filter (\<lambda>c. map_option have_tx_id (have_tx_of_action c)) (rpc_control_msgs r);
               reset = list_ex (\<lambda>c. reset_route_of_action c \<noteq> None) (rpc_control_msgs r);
               b = (if have_tx_ids \<noteq> [] \<and> \<not> ignore_have_tx (bconfig b)
                    then handle_have_tx have_tx_ids propagation_source b else b)
           in if reset then handle_reset_route w propagation_source b else b)
      | TransactionDropped m \<Rightarrow>
          with_metrics
            (\<lambda>m'. register_timedout_tx_dropped
               (case m of
                  Publish tx timeout \<Rightarrow> register_published_tx_dropped m'
                | Forward tx timeout \<Rightarrow> register_forwarded_tx_dropped m'
                | _ \<Rightarrow> m')) b)"

definition behaviour_poll ::
  "('q, 'r, 'p rpc_out) channel_ops \<Rightarrow> ('p, 'k, 'pk) libp2p_ops \<Rightarrow> 'p world \<Rightarrow> (delay \<Rightarrow> bool) \<Rightarrow>
   ('p, 'k, 'q) behaviour \<Rightarrow> 'p event poll \<times> ('p, 'k, 'q) behaviour" where
  "behaviour_poll C I w elapsed b =
     (case events b of
        event # rest \<Rightarrow> (Ready event, b\<lparr>events := rest\<rparr>)
      | [] \<Rightarrow>
          (if elapsed (redundancy_timer b)
           then (Pending, (adjust_redundancy C I w b)
                   \<lparr>redundancy_timer := Delay (clock w) (redundancy_interval (bconfig b))\<rparr>)
           else (Pending, b)))"

datatype 'p from_swarm =
    ConnectionEstablished 'p
  | ConnectionClosed 'p connection_id usize
  | OtherSwarmEvent

definition on_swarm_event ::
  "('q, 'r, 'p rpc_out) channel_ops \<Rightarrow> ('p, 'k, 'pk) libp2p_ops \<Rightarrow> 'p world \<Rightarrow> 'p from_swarm \<Rightarrow>
   ('p, 'k, 'q) behaviour \<Rightarrow> ('p, 'k, 'q) behaviour" where
  "on_swarm_event C I w event b =
     (case event of
        ConnectionEstablished peer_id \<Rightarrow> on_connection_established peer_id b
      | ConnectionClosed peer_id connection_id remaining \<Rightarrow>
          on_connection_closed C I w peer_id connection_id remaining b
      | OtherSwarmEvent \<Rightarrow> b)"

end
