(* ===== verification/Dog_Behaviour_Send.thy ===== *)
theory Dog_Behaviour_Send
  imports Dog_Behaviour
begin

text \<open>
  What sending does to a node: everything but the queues, the event queue and the counters
  of sent transactions stays, and each recipient with room gets the message at the end of
  its queue.
\<close>

section \<open>What the helpers leave alone\<close>

lemma with_metrics_frame [simp]:
  "bconfig (with_metrics f b) = bconfig b"
  "events (with_metrics f b) = events b"
  "publish_config (with_metrics f b) = publish_config b"
  "data_transform (with_metrics f b) = data_transform b"
  "connected_peers (with_metrics f b) = connected_peers b"
  "redundancy_timer (with_metrics f b) = redundancy_timer b"
  "redundancy_controller (with_metrics f b) = redundancy_controller b"
  "router (with_metrics f b) = router b"
  "cache (with_metrics f b) = cache b"
  "metrics (with_metrics f b) = map_option f (metrics b)"
  by (simp_all add: with_metrics_def)

lemma push_event_frame [simp]:
  "bconfig (push_event e b) = bconfig b"
  "events (push_event e b) = events b @ [e]"
  "publish_config (push_event e b) = publish_config b"
  "data_transform (push_event e b) = data_transform b"
  "connected_peers (push_event e b) = connected_peers b"
  "redundancy_timer (push_event e b) = redundancy_timer b"
  "redundancy_controller (push_event e b) = redundancy_controller b"
  "router (push_event e b) = router b"
  "cache (push_event e b) = cache b"
  "metrics (push_event e b) = metrics b"
  by (simp_all add: push_event_def)

text \<open>The parts of a node that sending a message does not change.\<close>

definition same_node :: "('p, 'k, 'q) behaviour \<Rightarrow> ('p, 'k, 'q) behaviour \<Rightarrow> bool" where
  "same_node b b' \<longleftrightarrow>
     bconfig b' = bconfig b \<and> publish_config b' = publish_config b \<and> data_transform b' = data_transform b
     \<and> redundancy_timer b' = redundancy_timer b \<and> redundancy_controller b' = redundancy_controller b
     \<and> router b' = router b \<and> cache b' = cache b
     \<and> dom (connected_peers b') = dom (connected_peers b)
     \<and> map_option disabled_routes_count (metrics b') = map_option disabled_routes_count (metrics b)
     \<and> map_option txs_cache_size (metrics b') = map_option txs_cache_size (metrics b)"

lemma same_node_refl [simp]: "same_node b b"
  by (simp add: same_node_def)

lemma same_node_trans: "same_node a b \<Longrightarrow> same_node b c \<Longrightarrow> same_node a c"
  by (simp add: same_node_def)

lemma same_node_push [simp]: "same_node a (push_event e b) = same_node a b"
  by (simp add: same_node_def)

lemma count_sent_frame [simp]:
  "same_node b (count_sent I m b)"
  "connected_peers (count_sent I m b) = connected_peers b"
  "events (count_sent I m b) = events b"
  by (cases m; simp add: count_sent_def same_node_def frame option.map_comp comp_def)+

lemma same_node_peers:
  "connected_peers b p \<noteq> None \<Longrightarrow> same_node b (b\<lparr>connected_peers := (connected_peers b)(p \<mapsto> pc)\<rparr>)"
  by (auto simp: same_node_def)

lemma send_transaction_same_node [frame]:
  "same_node b (snd (send_transaction C I p m b))"
proof (cases "connected_peers b p")
  case None
  then show ?thesis by (simp add: send_transaction_def)
next
  case (Some pc)
  then show ?thesis
    using same_node_peers [of "count_sent I m b" p]
    by (auto simp: send_transaction_def intro: same_node_trans [OF count_sent_frame(1)] split: prod.split)
qed

lemma send_transaction_events [frame]:
  "events (snd (send_transaction C I p m b)) = events b"
  by (simp add: send_transaction_def Let_def split: option.split prod.split)

lemma send_to_all_same_node [frame]:
  "same_node b (snd (send_to_all C I m tx_id tx ps b))"
proof (induction ps arbitrary: b)
  case (Cons p ps)
  obtain ok b' where s: "send_transaction C I p m b = (ok, b')" by fastforce
  then have "same_node b b'" using send_transaction_same_node [of b C I p m] by simp
  then have "same_node b (snd (send_to_all C I m tx_id tx ps (push_event (TransactionSent p tx_id tx) b')))"
    "same_node b (snd (send_to_all C I m tx_id tx ps b'))"
    using Cons.IH [of "push_event (TransactionSent p tx_id tx) b'"] Cons.IH [of b']
    by (auto intro: same_node_trans [of b "push_event (TransactionSent p tx_id tx) b'"] same_node_trans)
  with s show ?case
    by (cases ok) (simp_all add: case_prod_beta)
qed simp

section \<open>The queues of the peers\<close>

text \<open>What is queued for a peer, in the channels of a model of the channels.\<close>

definition forwards_to :: "('q \<Rightarrow> 'p rpc_out list) \<Rightarrow> ('p, 'k, 'q) behaviour \<Rightarrow> 'p \<Rightarrow> 'p rpc_out list" where
  "forwards_to items b p =
     (case connected_peers b p of
        Some peer \<Rightarrow> items (non_priority_channel (sender_channels (peer_sender peer)))
      | None \<Rightarrow> [])"

definition priorities_to :: "('q \<Rightarrow> 'p rpc_out list) \<Rightarrow> ('p, 'k, 'q) behaviour \<Rightarrow> 'p \<Rightarrow> 'p rpc_out list" where
  "priorities_to items b p =
     (case connected_peers b p of
        Some peer \<Rightarrow> items (priority_channel (sender_channels (peer_sender peer)))
      | None \<Rightarrow> [])"

text \<open>Whether the queue of a peer takes a message.\<close>

definition takes :: "('q \<Rightarrow> 'p rpc_out list) \<Rightarrow> 'p rpc_out \<Rightarrow> ('p, 'k, 'q) behaviour \<Rightarrow> 'p \<Rightarrow> bool" where
  "takes items m b p \<longleftrightarrow>
     (case connected_peers b p of
        None \<Rightarrow> False
      | Some peer \<Rightarrow>
          \<not> (is_publish m \<and> priority_cap (peer_sender peer) \<le> unat (queue_len (sender_channels (peer_sender peer))))
          \<and> \<not> (is_forward m \<and> priority_cap (peer_sender peer)
                 \<le> length (items (non_priority_channel (sender_channels (peer_sender peer))))))"

definition peers_ok ::
  "('q \<Rightarrow> 'p rpc_out list) \<Rightarrow> ('q \<Rightarrow> nat option) \<Rightarrow> ('q \<Rightarrow> bool) \<Rightarrow> nat \<Rightarrow> ('p, 'k, 'q) behaviour \<Rightarrow> bool" where
  "peers_ok items capacity is_open cap b \<longleftrightarrow>
     (\<forall>p peer. connected_peers b p = Some peer \<longrightarrow>
        priority_cap (peer_sender peer) = cap
        \<and> channels_ok items capacity is_open cap (sender_channels (peer_sender peer)))"

lemma queues_cong:
  "connected_peers b' = connected_peers b \<Longrightarrow> forwards_to items b' = forwards_to items b"
  "connected_peers b' = connected_peers b \<Longrightarrow> priorities_to items b' = priorities_to items b"
  "connected_peers b' = connected_peers b \<Longrightarrow> takes items m b' = takes items m b"
  "connected_peers b' = connected_peers b \<Longrightarrow>
     peers_ok items capacity is_open cap b' = peers_ok items capacity is_open cap b"
  by (simp_all add: fun_eq_iff forwards_to_def priorities_to_def takes_def peers_ok_def)

lemma queues_frame [simp]:
  "forwards_to items (with_metrics f b) = forwards_to items b"
  "priorities_to items (with_metrics f b) = priorities_to items b"
  "takes items m (with_metrics f b) = takes items m b"
  "peers_ok items capacity is_open cap (with_metrics f b) = peers_ok items capacity is_open cap b"
  "forwards_to items (push_event e b) = forwards_to items b"
  "priorities_to items (push_event e b) = priorities_to items b"
  "takes items m (push_event e b) = takes items m b"
  "peers_ok items capacity is_open cap (push_event e b) = peers_ok items capacity is_open cap b"
  "forwards_to items (b\<lparr>cache := c\<rparr>) = forwards_to items b"
  "priorities_to items (b\<lparr>cache := c\<rparr>) = priorities_to items b"
  "takes items m (b\<lparr>cache := c\<rparr>) = takes items m b"
  "peers_ok items capacity is_open cap (b\<lparr>cache := c\<rparr>) = peers_ok items capacity is_open cap b"
  "forwards_to items (b\<lparr>router := r\<rparr>) = forwards_to items b"
  "priorities_to items (b\<lparr>router := r\<rparr>) = priorities_to items b"
  "takes items m (b\<lparr>router := r\<rparr>) = takes items m b"
  "peers_ok items capacity is_open cap (b\<lparr>router := r\<rparr>) = peers_ok items capacity is_open cap b"
  "forwards_to items (b\<lparr>redundancy_controller := k\<rparr>) = forwards_to items b"
  "priorities_to items (b\<lparr>redundancy_controller := k\<rparr>) = priorities_to items b"
  "takes items m (b\<lparr>redundancy_controller := k\<rparr>) = takes items m b"
  "peers_ok items capacity is_open cap (b\<lparr>redundancy_controller := k\<rparr>) = peers_ok items capacity is_open cap b"
  by (rule queues_cong, simp)+

lemma takes_connected: "takes items m b p \<Longrightarrow> p \<in> dom (connected_peers b)"
  by (auto simp: takes_def split: option.splits)

context rpc_channel
begin

lemma send_queues:
  assumes "peers_ok items capacity is_open cap b" and "cap < 2 ^ 64"
    and "send_transaction C I p m b = (ok, b')"
  shows "ok = takes items m b p
    \<and> peers_ok items capacity is_open cap b'
    \<and> forwards_to items b' = (forwards_to items b)
        (p := forwards_to items b p @ (if ok \<and> is_forward m then [m] else []))
    \<and> priorities_to items b' = (priorities_to items b)
        (p := priorities_to items b p @ (if ok \<and> \<not> is_forward m then [m] else []))
    \<and> (\<forall>q. q \<noteq> p \<longrightarrow> connected_peers b' q = connected_peers b q)"
proof (cases "connected_peers b p")
  case None
  then have "ok = False" "connected_peers b' = connected_peers b"
    using assms(3) by (auto simp: send_transaction_def)
  with None assms(1) queues_cong [of b' b] show ?thesis
    by (simp add: takes_def)
next
  case (Some peer)
  let ?s = "peer_sender peer"
  obtain res s' where s: "sender_send_transaction C m ?s = (res, s')" by fastforce
  have cap: "priority_cap ?s = cap" and ch: "channels_ok items capacity is_open (priority_cap ?s) (sender_channels ?s)"
    using assms(1) Some by (auto simp: peers_ok_def)
  have "(ok, b') = (case res of Inr u \<Rightarrow> True | Inl x \<Rightarrow> False,
      (count_sent I m b)\<lparr>connected_peers := (connected_peers b)(p \<mapsto> peer\<lparr>peer_sender := s'\<rparr>)\<rparr>)"
    using assms(3) Some s by (simp add: send_transaction_def)
  then have new: "ok = (case res of Inr u \<Rightarrow> True | Inl x \<Rightarrow> False)"
    "connected_peers b' = (connected_peers b)(p \<mapsto> peer\<lparr>peer_sender := s'\<rparr>)"
    by simp_all
  note sends = send_transaction_cases [OF ch, of m, unfolded s fst_conv snd_conv]
  have ok: "ok = takes items m b p"
    using sends(1) new(1) Some unfolding takes_def by (auto split: if_splits)
  have refused: "s' = ?s" if "\<not> ok"
    using that sends(1) new(1) by (auto split: if_splits)
  have acc: "res = Inr ()" if ok
    using that new(1) by (cases res) auto
  have ch': "priority_cap s' = cap" "channels_ok items capacity is_open cap (sender_channels s')"
    using send_channels_ok [OF ch, of m] s cap assms(2) sender_send_cap [of m ?s] by simp_all
  have fwd: "items (non_priority_channel (sender_channels s')) =
      items (non_priority_channel (sender_channels ?s)) @ (if ok \<and> is_forward m then [m] else [])"
    using sends(2,3) acc refused by (cases ok; cases "is_forward m") simp_all
  have pri: "items (priority_channel (sender_channels s')) =
      items (priority_channel (sender_channels ?s)) @ (if ok \<and> \<not> is_forward m then [m] else [])"
    using sends(2,3) acc refused by (cases ok; cases "is_forward m") simp_all
  have "peers_ok items capacity is_open cap b'"
    using assms(1) ch' new(2) by (simp add: peers_ok_def)
  moreover have "forwards_to items b' = (forwards_to items b)
      (p := forwards_to items b p @ (if ok \<and> is_forward m then [m] else []))"
    using new(2) Some fwd by (simp add: forwards_to_def fun_eq_iff)
  moreover have "priorities_to items b' = (priorities_to items b)
      (p := priorities_to items b p @ (if ok \<and> \<not> is_forward m then [m] else []))"
    using new(2) Some pri by (simp add: priorities_to_def fun_eq_iff)
  ultimately show ?thesis using ok new(2) by simp
qed

lemma takes_cong: "connected_peers b' q = connected_peers b q \<Longrightarrow> takes items m b' q = takes items m b q"
  by (simp add: takes_def)

text \<open>The loop over the recipients: each one with room gets the message, once, and an event.\<close>

lemma send_to_all_queues:
  assumes "peers_ok items capacity is_open cap b" and "cap < 2 ^ 64" and "distinct ps"
    and "send_to_all C I m tx_id tx ps b = (any, b')"
  shows "any = (\<exists>p \<in> set ps. takes items m b p)
    \<and> peers_ok items capacity is_open cap b'
    \<and> events b' = events b @ map (\<lambda>p. TransactionSent p tx_id tx) (filter (takes items m b) ps)
    \<and> (\<forall>p. forwards_to items b' p =
        forwards_to items b p @ (if p \<in> set ps \<and> takes items m b p \<and> is_forward m then [m] else []))
    \<and> (\<forall>p. priorities_to items b' p =
        priorities_to items b p @ (if p \<in> set ps \<and> takes items m b p \<and> \<not> is_forward m then [m] else []))"
  using assms(1,3,4)
proof (induction ps arbitrary: b any)
  case (Cons p ps)
  obtain ok b1 where s: "send_transaction C I p m b = (ok, b1)" by fastforce
  note q = send_queues [OF Cons.prems(1) assms(2) s]
  have ev: "events b1 = events b"
    using send_transaction_events [of C I p m b] s by simp
  define c where "c = (if ok then push_event (TransactionSent p tx_id tx) b1 else b1)"
  have c: "peers_ok items capacity is_open cap c"
    "events c = events b @ (if ok then [TransactionSent p tx_id tx] else [])"
    "connected_peers c = connected_peers b1"
    using q ev by (simp_all add: c_def)
  have queues: "forwards_to items c = forwards_to items b1" "priorities_to items c = priorities_to items b1"
    by (rule queues_cong, rule c(3))+
  obtain rest b2 where r2: "send_to_all C I m tx_id tx ps c = (rest, b2)" by fastforce
  have b2: "b2 = b'" and any: "any = (ok \<or> rest)"
    using Cons.prems(3) s r2 unfolding c_def by (cases ok; simp)+
  have dist: "p \<notin> set ps" "distinct ps" using Cons.prems(2) by simp_all
  note IH = Cons.IH [OF c(1) dist(2) r2 [unfolded b2]]
  have takes: "takes items m c x = takes items m b x" if "x \<noteq> p" for x
    using that q c(3) by (intro takes_cong) simp
  have same: "takes items m c x = takes items m b x" if "x \<in> set ps" for x
    using takes [of x] that dist(1) by blast
  have flt: "filter (takes items m c) ps = filter (takes items m b) ps"
    by (rule filter_cong) (simp_all add: same)
  have ex: "(\<exists>x \<in> set ps. takes items m c x) = (\<exists>x \<in> set ps. takes items m b x)"
    by (rule bex_cong) (simp_all add: same)
  have ok: "ok = takes items m b p" using q by blast
  have fwd: "forwards_to items b' x =
      forwards_to items b x @ (if x \<in> set (p # ps) \<and> takes items m b x \<and> is_forward m then [m] else [])" for x
  proof -
    have "forwards_to items b' x = forwards_to items c x
        @ (if x \<in> set ps \<and> takes items m c x \<and> is_forward m then [m] else [])"
      using IH by blast
    moreover have "forwards_to items c x = forwards_to items b x @ (if x = p \<and> ok \<and> is_forward m then [m] else [])"
      using q queues by simp
    ultimately show ?thesis
      using dist(1) ok takes [of x] by (cases "x = p") simp_all
  qed
  have pri: "priorities_to items b' x =
      priorities_to items b x @ (if x \<in> set (p # ps) \<and> takes items m b x \<and> \<not> is_forward m then [m] else [])" for x
  proof -
    have "priorities_to items b' x = priorities_to items c x
        @ (if x \<in> set ps \<and> takes items m c x \<and> \<not> is_forward m then [m] else [])"
      using IH by blast
    moreover have "priorities_to items c x = priorities_to items b x @ (if x = p \<and> ok \<and> \<not> is_forward m then [m] else [])"
      using q queues by simp
    ultimately show ?thesis
      using dist(1) ok takes [of x] by (cases "x = p") simp_all
  qed
  have "any = (\<exists>x \<in> set (p # ps). takes items m b x)"
    using IH any ok ex by simp
  moreover have "events b' = events b @ map (\<lambda>p. TransactionSent p tx_id tx) (filter (takes items m b) (p # ps))"
    using IH flt c(2) ok by simp
  ultimately show ?case
    using IH fwd pri by blast
qed simp

end

end
