(* ===== verification/Dog_Gossip.thy ===== *)
theory Dog_Gossip
  imports Dog_Behaviour_Send
begin

text \<open>
  What a node does with a transaction, received or published: who gets it, what a duplicate
  causes, and what the publisher is told.
\<close>

section \<open>Forwarding\<close>

text \<open>Where a transaction from \<open>source\<close> may be forwarded to.\<close>

definition valid_target :: "'p \<Rightarrow> 'p raw_transaction \<Rightarrow> ('p, 'k, 'q) behaviour \<Rightarrow> 'p \<Rightarrow> bool" where
  "valid_target source raw b p \<longleftrightarrow>
     p \<noteq> source \<and> p \<noteq> raw_from raw \<and> route_new source p \<notin> set (disabled_routes (router b))"

context rpc_channel
begin

lemma forward_queues:
  assumes ok: "peers_ok items capacity is_open cap b" and cap: "cap < 2 ^ 64"
    and order: "key_order (peer_order w) (connected_peers b)"
    and m: "m = Forward raw (Delay (clock w) (forward_queue_duration (bconfig b)))"
    and fwd: "forward_transaction C I w tx_id raw source b = (res, b')"
  shows "same_node b b' \<and> peers_ok items capacity is_open cap b'
    \<and> (\<forall>p. forwards_to items b' p =
        forwards_to items b p @ (if valid_target source raw b p \<and> takes items m b p then [m] else []))
    \<and> (\<forall>p. priorities_to items b' p = priorities_to items b p)
    \<and> (\<exists>es. events b' = events b @ es \<and> (\<forall>e \<in> set es. \<exists>p tx. e = TransactionSent p tx_id tx))"
proof -
  let ?ps = "filter_valid_routes source
      (filter (\<lambda>peer. peer \<noteq> source \<and> peer \<noteq> raw_from raw) (peer_order w)) (router b)"
  have set: "set ?ps = {p \<in> dom (connected_peers b). valid_target source raw b p}"
    using order by (auto simp: filter_valid_routes_eq valid_target_def key_order_def)
  have dist: "distinct ?ps"
    using order by (simp add: filter_valid_routes_eq key_order_def)
  have cond: "(p \<in> set ?ps \<and> takes items m b p) = (valid_target source raw b p \<and> takes items m b p)" for p
    using takes_connected [of items m b p] set by auto
  show ?thesis
  proof (cases "?ps = []")
    case True
    have "\<not> (valid_target source raw b p \<and> takes items m b p)" for p
      using cond [of p] True by simp
    then show ?thesis
      using fwd True ok by (auto simp: forward_transaction_def Let_def)
  next
    case False
    let ?tx = "\<lparr>tx_from = raw_from raw, tx_seqno = raw_seqno raw, tx_data = raw_data raw\<rparr>"
    obtain any b2 where s: "send_to_all C I m tx_id ?tx ?ps b = (any, b2)" by fastforce
    have b2: "b2 = b'"
      using fwd False s by (simp add: forward_transaction_def Let_def m)
    from send_to_all_queues [OF ok cap dist s] b2 cond
    have "forwards_to items b' p =
        forwards_to items b p @ (if valid_target source raw b p \<and> takes items m b p then [m] else [])"
      "priorities_to items b' p = priorities_to items b p" for p
      by (simp_all add: m)
    moreover have "same_node b b'"
      using send_to_all_same_node [of b C I m tx_id ?tx ?ps] s b2 by simp
    ultimately show ?thesis
      using send_to_all_queues [OF ok cap dist s] b2 by auto
  qed
qed

end

section \<open>The two cases of a received transaction\<close>

lemma received_invalid:
  "inbound_transform (data_transform b) raw = Inl e \<Longrightarrow>
   handle_received_transaction C I w raw source b =
     with_metrics register_invalid_tx (with_metrics (tx_recv_unfiltered (raw_protobuf_len I raw)) b)"
  by (simp add: handle_received_transaction_def handle_invalid_transaction_def)

text \<open>A new transaction: remembered, counted and forwarded.\<close>

definition new_received ::
  "('p, 'k, 'pk) libp2p_ops \<Rightarrow> 'p raw_transaction \<Rightarrow> 'p \<Rightarrow> transaction_id \<Rightarrow> 'p transaction \<Rightarrow>
   (transaction_id, 'p) duplicate_cache \<Rightarrow> ('p, 'k, 'q) behaviour \<Rightarrow> ('p, 'k, 'q) behaviour" where
  "new_received I raw source tx_id tx c b =
     with_metrics (set_txs_cache_size (cache_len c) \<circ> tx_recv)
       ((push_event (TransactionReceived source tx_id tx)
          (with_metrics (tx_recv_unfiltered (raw_protobuf_len I raw)) b))
        \<lparr>cache := c, redundancy_controller := incr_first_time_txs_count (redundancy_controller b)\<rparr>)"

lemma received_new:
  assumes "inbound_transform (data_transform b) raw = Inr tx"
    and "tx_id = config_transaction_id (bconfig b) tx"
    and "cache_insert (clock w) tx_id source (cache b) = (True, c)"
  shows "handle_received_transaction C I w raw source b =
    (if forward_transactions (bconfig b)
     then snd (forward_transaction C I w tx_id raw source (new_received I raw source tx_id tx c b))
     else new_received I raw source tx_id tx c b)"
  using assms by (simp add: handle_received_transaction_def new_received_def Let_def)

text \<open>A transaction that is remembered: counted, and at most answered with a \<open>HaveTx\<close>.\<close>

definition duplicate_received ::
  "('p, 'k, 'pk) libp2p_ops \<Rightarrow> 'p raw_transaction \<Rightarrow> 'p \<Rightarrow> transaction_id \<Rightarrow> 'p transaction \<Rightarrow>
   (transaction_id, 'p) duplicate_cache \<Rightarrow> ('p, 'k, 'q) behaviour \<Rightarrow> ('p, 'k, 'q) behaviour" where
  "duplicate_received I raw source tx_id tx c b =
     (with_metrics (set_txs_cache_size (cache_len c))
        ((push_event (TransactionReceived source tx_id tx)
           (with_metrics (tx_recv_unfiltered (raw_protobuf_len I raw)) b))\<lparr>cache := c\<rparr>))
     \<lparr>redundancy_controller := incr_duplicate_txs_count (redundancy_controller b)\<rparr>"

definition have_tx_sent_to :: "'p \<Rightarrow> transaction_id \<Rightarrow> ('p, 'k, 'q) behaviour \<Rightarrow> ('p, 'k, 'q) behaviour" where
  "have_tx_sent_to source tx_id b =
     push_event (HaveTxSent source tx_id)
       (with_metrics register_have_tx_sent_metric
          (b\<lparr>router := register_have_tx_sent source (router b),
             redundancy_controller := block_have_tx (redundancy_controller b)\<rparr>))"

lemma received_duplicate:
  assumes "inbound_transform (data_transform b) raw = Inr tx"
    and "tx_id = config_transaction_id (bconfig b) tx"
    and "cache_insert (clock w) tx_id source (cache b) = (False, c)"
  shows "handle_received_transaction C I w raw source b =
    (let b1 = duplicate_received I raw source tx_id tx c b
     in if \<not> send_have_tx (bconfig b) \<or> have_tx_blocked (redundancy_controller b) then b1
        else
          (case send_transaction C I source (HaveTx \<lparr>have_tx_id = tx_id\<rparr>) b1 of
             (False, b2) \<Rightarrow> b2
           | (True, b2) \<Rightarrow> have_tx_sent_to source tx_id b2))"
  using assms
  by (simp add: handle_received_transaction_def duplicate_received_def have_tx_sent_to_def Let_def
      is_have_tx_blocked_def incr_duplicate_txs_count_def split: prod.split bool.split)

lemma new_received_frame [simp]:
  "bconfig (new_received I raw source tx_id tx c b) = bconfig b"
  "publish_config (new_received I raw source tx_id tx c b) = publish_config b"
  "data_transform (new_received I raw source tx_id tx c b) = data_transform b"
  "connected_peers (new_received I raw source tx_id tx c b) = connected_peers b"
  "router (new_received I raw source tx_id tx c b) = router b"
  "cache (new_received I raw source tx_id tx c b) = c"
  "events (new_received I raw source tx_id tx c b) = events b @ [TransactionReceived source tx_id tx]"
  "redundancy_controller (new_received I raw source tx_id tx c b)
     = incr_first_time_txs_count (redundancy_controller b)"
  by (simp_all add: new_received_def)

lemma duplicate_received_frame [simp]:
  "bconfig (duplicate_received I raw source tx_id tx c b) = bconfig b"
  "publish_config (duplicate_received I raw source tx_id tx c b) = publish_config b"
  "data_transform (duplicate_received I raw source tx_id tx c b) = data_transform b"
  "connected_peers (duplicate_received I raw source tx_id tx c b) = connected_peers b"
  "router (duplicate_received I raw source tx_id tx c b) = router b"
  "cache (duplicate_received I raw source tx_id tx c b) = c"
  "events (duplicate_received I raw source tx_id tx c b) = events b @ [TransactionReceived source tx_id tx]"
  "redundancy_controller (duplicate_received I raw source tx_id tx c b)
     = incr_duplicate_txs_count (redundancy_controller b)"
  by (simp_all add: duplicate_received_def)

lemma have_tx_sent_to_frame [simp]:
  "bconfig (have_tx_sent_to source tx_id b) = bconfig b"
  "publish_config (have_tx_sent_to source tx_id b) = publish_config b"
  "data_transform (have_tx_sent_to source tx_id b) = data_transform b"
  "connected_peers (have_tx_sent_to source tx_id b) = connected_peers b"
  "router (have_tx_sent_to source tx_id b) = register_have_tx_sent source (router b)"
  "cache (have_tx_sent_to source tx_id b) = cache b"
  "events (have_tx_sent_to source tx_id b) = events b @ [HaveTxSent source tx_id]"
  "redundancy_controller (have_tx_sent_to source tx_id b) = block_have_tx (redundancy_controller b)"
  by (simp_all add: have_tx_sent_to_def)

lemma received_queues [simp]:
  "forwards_to items (new_received I raw source tx_id tx c b) = forwards_to items b"
  "priorities_to items (new_received I raw source tx_id tx c b) = priorities_to items b"
  "takes items m (new_received I raw source tx_id tx c b) = takes items m b"
  "peers_ok items capacity is_open cap (new_received I raw source tx_id tx c b)
     = peers_ok items capacity is_open cap b"
  "forwards_to items (duplicate_received I raw source tx_id tx c b) = forwards_to items b"
  "priorities_to items (duplicate_received I raw source tx_id tx c b) = priorities_to items b"
  "takes items m (duplicate_received I raw source tx_id tx c b) = takes items m b"
  "peers_ok items capacity is_open cap (duplicate_received I raw source tx_id tx c b)
     = peers_ok items capacity is_open cap b"
  "forwards_to items (have_tx_sent_to source tx_id b) = forwards_to items b"
  "priorities_to items (have_tx_sent_to source tx_id b) = priorities_to items b"
  "takes items m (have_tx_sent_to source tx_id b) = takes items m b"
  "peers_ok items capacity is_open cap (have_tx_sent_to source tx_id b)
     = peers_ok items capacity is_open cap b"
  by (rule queues_cong, simp)+

context rpc_channel
begin

lemma received_new_queues:
  assumes ok: "peers_ok items capacity is_open cap b" and cap: "cap < 2 ^ 64"
    and order: "key_order (peer_order w) (connected_peers b)"
    and tx: "inbound_transform (data_transform b) raw = Inr tx"
      "tx_id = config_transaction_id (bconfig b) tx"
      "cache_insert (clock w) tx_id source (cache b) = (True, c)"
    and m: "m = Forward raw (Delay (clock w) (forward_queue_duration (bconfig b)))"
    and b': "b' = handle_received_transaction C I w raw source b"
  shows "same_node (new_received I raw source tx_id tx c b) b' \<and> peers_ok items capacity is_open cap b'
    \<and> (\<forall>p. forwards_to items b' p = forwards_to items b p
        @ (if forward_transactions (bconfig b) \<and> valid_target source raw b p \<and> takes items m b p
           then [m] else []))
    \<and> (\<forall>p. priorities_to items b' p = priorities_to items b p)
    \<and> (\<exists>es. events b' = events b @ TransactionReceived source tx_id tx # es
        \<and> (\<forall>e \<in> set es. \<exists>p tx. e = TransactionSent p tx_id tx))"
proof (cases "forward_transactions (bconfig b)")
  case False
  then show ?thesis
    using ok unfolding b' received_new [OF tx] by simp
next
  case True
  let ?n = "new_received I raw source tx_id tx c b"
  obtain res b2 where f: "forward_transaction C I w tx_id raw source ?n = (res, b2)" by fastforce
  have b2: "b2 = b'" using True f unfolding b' received_new [OF tx] by simp
  have target: "valid_target source raw ?n = valid_target source raw b"
    by (simp add: fun_eq_iff valid_target_def)
  from forward_queues [OF _ cap _ _ f, of m] ok order m True target b2
  show ?thesis by auto
qed

lemma received_duplicate_queues:
  assumes ok: "peers_ok items capacity is_open cap b" and cap: "cap < 2 ^ 64"
    and tx: "inbound_transform (data_transform b) raw = Inr tx"
      "tx_id = config_transaction_id (bconfig b) tx"
      "cache_insert (clock w) tx_id source (cache b) = (False, c)"
    and asks: "asks \<longleftrightarrow> send_have_tx (bconfig b) \<and> \<not> have_tx_blocked (redundancy_controller b)
      \<and> source \<in> dom (connected_peers b)"
    and b': "b' = handle_received_transaction C I w raw source b"
  shows "(if asks then same_node (have_tx_sent_to source tx_id (duplicate_received I raw source tx_id tx c b)) b'
      else same_node (duplicate_received I raw source tx_id tx c b) b')
    \<and> peers_ok items capacity is_open cap b'
    \<and> (\<forall>p. forwards_to items b' p = forwards_to items b p)
    \<and> (\<forall>p. priorities_to items b' p = priorities_to items b p
        @ (if asks \<and> p = source then [HaveTx \<lparr>have_tx_id = tx_id\<rparr>] else []))
    \<and> events b' = events b @ TransactionReceived source tx_id tx
        # (if asks then [HaveTxSent source tx_id] else [])"
proof (cases "send_have_tx (bconfig b) \<and> \<not> have_tx_blocked (redundancy_controller b)")
  case False
  then show ?thesis
    using ok asks unfolding b' received_duplicate [OF tx] by (auto simp: Let_def)
next
  case True
  let ?d = "duplicate_received I raw source tx_id tx c b"
  let ?m = "HaveTx \<lparr>have_tx_id = tx_id\<rparr>"
  obtain sent b2 where s: "send_transaction C I source ?m ?d = (sent, b2)" by fastforce
  have "takes items ?m b source = (source \<in> dom (connected_peers b))"
    by (auto simp: takes_def split: option.split)
  with send_queues [OF _ cap s] ok asks True have q: "sent = asks"
    "peers_ok items capacity is_open cap b2"
    "forwards_to items b2 = forwards_to items b"
    "priorities_to items b2 = (priorities_to items b)
       (source := priorities_to items b source @ (if asks then [?m] else []))"
    by auto
  have same: "same_node ?d b2" and ev: "events b2 = events ?d"
    using send_transaction_same_node [of ?d C I source ?m] send_transaction_events [of C I source ?m ?d] s
    by simp_all
  have b'_eq: "b' = (if asks then have_tx_sent_to source tx_id b2 else b2)"
    using True s q(1) unfolding b' received_duplicate [OF tx] by (cases asks) (simp_all add: Let_def)
  have "same_node (have_tx_sent_to source tx_id ?d) (have_tx_sent_to source tx_id b2)"
    using same by (simp add: same_node_def have_tx_sent_to_def frame option.map_comp comp_def)
  with same ev q b'_eq show ?thesis by (cases asks) auto
qed

end

end
