(* ===== verification/Dog_Publish.thy ===== *)
theory Dog_Publish
  imports Dog_Gossip
begin

text \<open>
  Publishing: the transaction that is built and its signature, the peers that get it, and
  what the caller is told.
\<close>

section \<open>Building\<close>

fun seqno_of :: "('k, 'p) publish_config \<Rightarrow> u64" where
  "seqno_of (Signing kp own_id inline_key last_seqno) = last_seqno"
| "seqno_of (PublishAuthor own_id last_seqno) = last_seqno"

lemma sequence_number_next_Some:
  "sequence_number_next n = Some k \<longleftrightarrow> k = n + 1 \<and> unat k = unat n + 1"
  using unsigned_less [of n, where ?'a = nat] unsigned_less [of k, where ?'a = nat]
  by (auto simp: sequence_number_next_def unat_word_ariths mod_Suc)

lemma sequence_number_next_None: "sequence_number_next n = None \<longleftrightarrow> unat n = 2 ^ 64 - 1"
  using unsigned_less [of n, where ?'a = nat] by (auto simp: sequence_number_next_def)

text \<open>Building only advances the sequence number, by one, and panics when it is exhausted.\<close>

lemma build_raw_transaction_panic:
  "build_raw_transaction I d b = None \<longleftrightarrow> unat (seqno_of (publish_config b)) = 2 ^ 64 - 1"
  unfolding sequence_number_next_None [symmetric]
  by (cases "publish_config b")
    (auto simp: build_raw_transaction_def Let_def split: option.split sum.split)

lemma build_raw_transaction_cases:
  assumes "build_raw_transaction I d b = Some (res, b')"
  shows "b' = b\<lparr>publish_config := publish_config b'\<rparr>"
    and "get_own_id (publish_config b') = get_own_id (publish_config b)"
    and "unat (seqno_of (publish_config b')) = unat (seqno_of (publish_config b)) + 1"
    and "res = Inr raw \<Longrightarrow> raw_from raw = get_own_id (publish_config b)
      \<and> raw_seqno raw = seqno_of (publish_config b') \<and> raw_data raw = d"
    and "res = Inl e \<Longrightarrow> \<exists>s. e = SigningError s"
  using assms
  by (cases "publish_config b";
      auto simp: build_raw_transaction_def Let_def sequence_number_next_Some publish_error_of_signing_def
        split: option.splits sum.splits)+

section \<open>Publishing\<close>

text \<open>The peers a node publishes to.\<close>

definition publish_target :: "('p, 'k, 'q) behaviour \<Rightarrow> 'p \<Rightarrow> bool" where
  "publish_target b p \<longleftrightarrow> p \<in> dom (connected_peers b)
     \<and> route_new (get_own_id (publish_config b)) p \<notin> set (disabled_routes (router b))"

lemma publish_rejected:
  "outbound_transform (data_transform b) data = Inl e \<Longrightarrow>
     publish C I w data b = Some (Inl (TransformFailed e), b)"
  "outbound_transform (data_transform b) data = Inr d \<Longrightarrow> max_transmit_size (bconfig b) < length d \<Longrightarrow>
     publish C I w data b = Some (Inl TransactionTooLarge, b)"
  by (simp_all add: publish_def publish_error_of_io_def)

context rpc_channel
begin

lemma publish_queues:
  assumes ok: "peers_ok items capacity is_open cap b" and cap: "cap < 2 ^ 64"
    and order: "key_order (peer_order w) (connected_peers b)"
    and out: "outbound_transform (data_transform b) data = Inr d" "length d \<le> max_transmit_size (bconfig b)"
    and raw: "build_raw_transaction I d b = Some (Inr raw, b0)"
    and id: "tx_id = config_transaction_id (bconfig b)
      \<lparr>tx_from = raw_from raw, tx_seqno = raw_seqno raw, tx_data = data\<rparr>"
    and new: "\<not> cache_contains tx_id (cache b)"
    and m: "m = Publish raw (Delay (clock w) (publish_queue_duration (bconfig b)))"
    and pub: "publish C I w data b = Some (res, b')"
  shows "res =
      (if \<not> (\<exists>p. publish_target b p) then Inl InsufficientPeers
       else if \<not> (\<exists>p. publish_target b p \<and> takes items m b p)
       then Inl (AllQueuesFull (card (dom (connected_peers b))))
       else Inr tx_id)
    \<and> (\<forall>p. priorities_to items b' p = priorities_to items b p
        @ (if publish_target b p \<and> takes items m b p then [m] else []))
    \<and> (\<forall>p. forwards_to items b' p = forwards_to items b p)
    \<and> peers_ok items capacity is_open cap b'
    \<and> cache b' = snd (cache_insert (clock w) tx_id (get_own_id (publish_config b)) (cache b))
    \<and> publish_config b' = publish_config b0 \<and> router b' = router b \<and> bconfig b' = bconfig b
    \<and> data_transform b' = data_transform b
    \<and> dom (connected_peers b') = dom (connected_peers b)"
proof -
  define pc where "pc = publish_config b0"
  have b0: "b0 = b\<lparr>publish_config := pc\<rparr>" and own: "get_own_id pc = get_own_id (publish_config b)"
    using build_raw_transaction_cases(1,2) [OF raw] by (simp_all add: pc_def)
  let ?own = "get_own_id (publish_config b)"
  let ?tx = "\<lparr>tx_from = raw_from raw, tx_seqno = raw_seqno raw, tx_data = data\<rparr>"
  define c where "c = snd (cache_insert (clock w) tx_id ?own (cache b))"
  define b1 where "b1 = with_metrics (set_txs_cache_size (cache_len c)) (b0\<lparr>cache := c\<rparr>)"
  let ?ps = "filter_valid_routes ?own (peer_order w) (router b)"
  have b1: "connected_peers b1 = connected_peers b" "bconfig b1 = bconfig b" "router b1 = router b"
    "cache b1 = c" "publish_config b1 = pc" "data_transform b1 = data_transform b"
    by (simp_all add: b1_def b0)
  have queues: "forwards_to items b1 = forwards_to items b" "priorities_to items b1 = priorities_to items b"
    "takes items m b1 = takes items m b" "peers_ok items capacity is_open cap b1"
    using ok queues_cong [OF b1(1)] by simp_all
  obtain any b2 where s: "send_to_all C I m tx_id ?tx ?ps b1 = (any, b2)" by fastforce
  have set: "p \<in> set ?ps \<longleftrightarrow> publish_target b p" for p
    using order by (auto simp: filter_valid_routes_eq publish_target_def key_order_def)
  have dist: "distinct ?ps" using order by (simp add: filter_valid_routes_eq key_order_def)
  note sent = send_to_all_queues [OF queues(4) cap dist s, unfolded set queues]
  have any: "any = (\<exists>p. publish_target b p \<and> takes items m b p)"
    using sent set by auto
  have empty: "?ps = [] \<longleftrightarrow> \<not> (\<exists>p. publish_target b p)"
    using set by (metis list.set_intros(1) list.exhaust empty_iff list.set(1))
  have "publish C I w data b =
      (if ?ps = [] then Some (Inl InsufficientPeers, b2)
       else if \<not> any then Some (Inl (AllQueuesFull (card (dom (connected_peers b2)))), b2)
       else Some (Inr tx_id, with_metrics register_published_tx b2))"
    using out raw new id s own b0 by (simp add: publish_def m b1_def c_def)
  moreover have same: "same_node b1 b2"
    using send_to_all_same_node [of b1 C I m tx_id ?tx ?ps] s by simp
  ultimately have res: "res =
      (if \<not> (\<exists>p. publish_target b p) then Inl InsufficientPeers
       else if \<not> any then Inl (AllQueuesFull (card (dom (connected_peers b)))) else Inr tx_id)"
    and b': "b' = b2 \<or> b' = with_metrics register_published_tx b2"
    using pub empty b1(1) by (auto simp: same_node_def split: if_splits)
  have peers: "connected_peers b' = connected_peers b2" using b' by auto
  note b'_queues = queues_cong [OF peers]
  have "cache b' = c \<and> publish_config b' = pc \<and> router b' = router b \<and> bconfig b' = bconfig b
      \<and> data_transform b' = data_transform b"
    using b' same b1 by (auto simp: same_node_def)
  moreover have "dom (connected_peers b') = dom (connected_peers b)"
    using same b1(1) by (simp add: peers same_node_def)
  ultimately have frame: "cache b' = c \<and> publish_config b' = pc \<and> router b' = router b \<and> bconfig b' = bconfig b
      \<and> data_transform b' = data_transform b \<and> dom (connected_peers b') = dom (connected_peers b)"
    by simp
  have "priorities_to items b' p = priorities_to items b p
      @ (if publish_target b p \<and> takes items m b p then [m] else [])" for p
    using sent b'_queues m by simp
  moreover have "forwards_to items b' p = forwards_to items b p" for p
    using sent b'_queues m by simp
  moreover have "peers_ok items capacity is_open cap b'"
    using sent b'_queues by simp
  ultimately show ?thesis
    using res any frame unfolding c_def pc_def by simp
qed

end

section \<open>Signatures\<close>

text \<open>
  What a signing node builds, the codec of a peer accepts in strict mode and reads back
  unchanged.
\<close>

lemma built_transaction_accepted:
  assumes laws: "libp2p_laws I"
    and pc: "publish_config_of I nanos (Signed kp) = Signing kp own_id key n0"
    and b: "publish_config b = Signing kp own_id key n"
    and raw: "build_raw_transaction I d b = Some (Inr raw, b')"
  shows "accepted I Strict (proto_of_raw_transaction I raw)
    \<and> author I (proto_of_raw_transaction I raw) = own_id"
proof -
  let ?pk = "keypair_public I kp"
  have own: "own_id = public_key_to_peer_id I ?pk"
    and key: "key = (if length (public_key_encode I ?pk) \<le> 42 then None else Some (public_key_encode I ?pk))"
    using pc by (auto simp: Let_def)
  from raw b obtain s sig where raw': "raw = \<lparr>raw_from = own_id, raw_seqno = s, raw_data = d,
      raw_signature = Some sig, raw_key = key\<rparr>"
    and sig: "keypair_sign I kp (SIGNING_PREFIX @ proto_tx_write I
      \<lparr>proto_from = peer_to_bytes I own_id, proto_seqno = s, proto_data = d, proto_signature = [], proto_key = []\<rparr>)
      = Inr sig"
    by (auto simp: build_raw_transaction_def Let_def split: option.splits sum.splits)
  let ?t = "proto_of_raw_transaction I raw"
  have "verify_signature I ?t = Some True"
    by (rule libp2p_laws.verify_signed [OF laws, of ?t kp])
      (use raw' sig own key in \<open>simp_all add: proto_of_raw_transaction_def signed_bytes_def\<close>)
  moreover have "peer_from_bytes I (proto_from ?t) = Some own_id"
    using libp2p_laws.from_to_bytes [OF laws] raw' by (simp add: proto_of_raw_transaction_def)
  ultimately show ?thesis by (simp add: accepted_def author_def)
qed

end
