(* ===== verification/Dog_Node.thy ===== *)
theory Dog_Node
  imports Dog_Publish
begin

text \<open>
  A node as a machine: publishing, what its connections deliver, connections coming and
  going, polls of the swarm, and what the handlers do to the queues. Its invariant, operation
  by operation.
\<close>

section \<open>The cache over time\<close>

inductive cache_evolves ::
  "instant \<Rightarrow> (transaction_id, 'p) duplicate_cache \<Rightarrow> instant \<Rightarrow> (transaction_id, 'p) duplicate_cache \<Rightarrow> bool" where
  Stay: "t \<le> t' \<Longrightarrow> cache_evolves t c t' c"
| Insert: "cache_evolves t c t1 c1 \<Longrightarrow> t1 \<le> now \<Longrightarrow> now \<le> t' \<Longrightarrow>
    cache_evolves t c t' (snd (cache_insert now k v c1))"

lemma cache_evolves_le: "cache_evolves t c t' c' \<Longrightarrow> t \<le> t'"
  by (induction rule: cache_evolves.induct) auto

lemma cache_evolves_later: "cache_evolves t c t' c' \<Longrightarrow> t' \<le> t'' \<Longrightarrow> cache_evolves t c t'' c'"
  by (erule cache_evolves.cases) (auto intro: cache_evolves.intros)

lemma cache_evolves_trans:
  assumes "cache_evolves t1 c1 t2 c2" and "cache_evolves t2 c2 t3 c3"
  shows "cache_evolves t1 c1 t3 c3"
  using assms(2,1)
  by (induction rule: cache_evolves.induct) (auto intro: cache_evolves_later cache_evolves.Insert)

lemma cache_evolves_inv:
  assumes "cache_evolves t c t' c'" and "cache_inv t c"
  shows "cache_inv t' c'" and "cache_ttl c' = cache_ttl c"
proof -
  from assms have "cache_inv t' c' \<and> cache_ttl c' = cache_ttl c"
  proof (induction rule: cache_evolves.induct)
    case (Stay t t' c)
    then show ?case by (auto intro: cache_inv_later)
  next
    case (Insert t c t1 c1 now t' k v)
    then have "cache_inv now (snd (cache_insert now k v c1))"
      by (auto intro: cache_insert_inv)
    with Insert show ?case
      by (auto intro: cache_inv_later simp: dup.ins_life)
  qed
  then show "cache_inv t' c'" and "cache_ttl c' = cache_ttl c" by simp_all
qed

text \<open>What is remembered until \<open>e\<close> is still remembered before \<open>e\<close>.\<close>

lemma cache_evolves_remembers:
  assumes "cache_evolves t c t' c'" and "cache_inv t c" and "timed_of c k = Some (v, e)" and "t' < e"
  shows "timed_of c' k = Some (v, e)"
  using assms
proof (induction rule: cache_evolves.induct)
  case (Insert t c t1 c1 now t' k' v')
  from Insert.hyps Insert.prems have "cache_inv t1 c1" by (auto intro: cache_evolves_inv)
  moreover from Insert have "timed_of c1 k = Some (v, e)" by simp
  ultimately show ?case
    using Insert.hyps Insert.prems by (auto intro: timed_seen_insert_other)
qed

section \<open>The invariant of a node\<close>

definition gauges_ok :: "('p, 'k, 'q) behaviour \<Rightarrow> bool" where
  "gauges_ok b \<longleftrightarrow>
     (\<forall>m. metrics b = Some m \<longrightarrow>
        (length (disabled_routes (router b)) < 2 ^ 63 \<longrightarrow>
           disabled_routes_count m = int (length (disabled_routes (router b))))
        \<and> (cache_len (cache b) < 2 ^ 63 \<longrightarrow> txs_cache_size m = int (cache_len (cache b))))"

definition routes_ok :: "('p, 'k, 'q) behaviour \<Rightarrow> bool" where
  "routes_ok b \<longleftrightarrow> (\<forall>r \<in> set (disabled_routes (router b)). route_source r \<noteq> route_target r)"

definition node_inv ::
  "('q \<Rightarrow> 'p rpc_out list) \<Rightarrow> ('q \<Rightarrow> nat option) \<Rightarrow> ('q \<Rightarrow> bool) \<Rightarrow> instant \<Rightarrow> ('p, 'k, 'q) behaviour \<Rightarrow> bool" where
  "node_inv items capacity is_open t b \<longleftrightarrow>
     cache_inv t (cache b) \<and> cache_ttl (cache b) = cache_time (bconfig b)
     \<and> peers_ok items capacity is_open (connection_handler_queue_len (bconfig b) div 2) b
     \<and> connection_handler_queue_len (bconfig b) < 2 ^ 64
     \<and> routes_ok b \<and> gauges_ok b"

text \<open>What most operations keep, next to the queues.\<close>

definition same_tables :: "('p, 'k, 'q) behaviour \<Rightarrow> ('p, 'k, 'q) behaviour \<Rightarrow> bool" where
  "same_tables b b' \<longleftrightarrow>
     bconfig b' = bconfig b \<and> publish_config b' = publish_config b \<and> data_transform b' = data_transform b
     \<and> disabled_routes (router b') = disabled_routes (router b) \<and> cache b' = cache b
     \<and> map_option disabled_routes_count (metrics b') = map_option disabled_routes_count (metrics b)
     \<and> map_option txs_cache_size (metrics b') = map_option txs_cache_size (metrics b)"

lemma same_tables_refl [simp]: "same_tables b b"
  by (simp add: same_tables_def)

lemma same_tables_trans: "same_tables a b \<Longrightarrow> same_tables b c \<Longrightarrow> same_tables a c"
  by (simp add: same_tables_def)

lemma same_node_tables: "same_node b b' \<Longrightarrow> same_tables b b'"
  by (simp add: same_node_def same_tables_def)

lemma same_tables_push [simp]: "same_tables a (push_event e b) = same_tables a b"
  by (simp add: same_tables_def)

lemma same_tables_ok:
  assumes "same_tables b b'"
  shows "gauges_ok b' = gauges_ok b" and "routes_ok b' = routes_ok b"
proof -
  show "gauges_ok b' = gauges_ok b"
    using assms by (cases "metrics b"; cases "metrics b'") (simp_all add: gauges_ok_def same_tables_def)
  show "routes_ok b' = routes_ok b" using assms by (simp add: routes_ok_def same_tables_def)
qed

lemma node_inv_same:
  assumes "node_inv items capacity is_open t b" and "same_tables b b'" and "t \<le> t'"
    and "peers_ok items capacity is_open (connection_handler_queue_len (bconfig b) div 2) b'"
  shows "node_inv items capacity is_open t' b'"
  using assms same_tables_ok [OF assms(2)]
  by (auto simp: node_inv_def same_tables_def intro: cache_inv_later)

lemma gauges_ok_metrics_None: "metrics b = None \<Longrightarrow> gauges_ok b"
  by (simp add: gauges_ok_def)

text \<open>Setting a gauge to a length.\<close>

lemma gauges_ok_cache:
  assumes "map_option disabled_routes_count (metrics b') = map_option disabled_routes_count (metrics b)"
    and "disabled_routes (router b') = disabled_routes (router b)" and "gauges_ok b"
    and "metrics b' = map_option (set_txs_cache_size (cache_len (cache b'))) m"
  shows "gauges_ok b'"
  using assms by (cases "metrics b"; cases m) (auto simp: gauges_ok_def)

lemma gauges_ok_routes:
  assumes "map_option txs_cache_size (metrics b') = map_option txs_cache_size (metrics b)"
    and "cache b' = cache b" and "gauges_ok b"
    and "metrics b' = map_option (set_disabled_routes_count (length (disabled_routes (router b')))) m"
  shows "gauges_ok b'"
  using assms by (cases "metrics b"; cases m) (auto simp: gauges_ok_def)

section \<open>What every operation of a node keeps\<close>

definition node_change ::
  "('q \<Rightarrow> 'p rpc_out list) \<Rightarrow> ('q \<Rightarrow> nat option) \<Rightarrow> ('q \<Rightarrow> bool) \<Rightarrow>
   instant \<Rightarrow> ('p, 'k, 'q) behaviour \<Rightarrow> instant \<Rightarrow> ('p, 'k, 'q) behaviour \<Rightarrow> bool" where
  "node_change items capacity is_open t b t' b' \<longleftrightarrow>
     cache_evolves t (cache b) t' (cache b')
     \<and> bconfig b' = bconfig b
     \<and> get_own_id (publish_config b') = get_own_id (publish_config b)
     \<and> unat (seqno_of (publish_config b)) \<le> unat (seqno_of (publish_config b'))
     \<and> (\<forall>cap. cap < 2 ^ 64 \<longrightarrow> cap = connection_handler_queue_len (bconfig b) div 2 \<longrightarrow>
          peers_ok items capacity is_open cap b \<longrightarrow> peers_ok items capacity is_open cap b')
     \<and> (routes_ok b \<longrightarrow> routes_ok b')
     \<and> (gauges_ok b \<longrightarrow> gauges_ok b')"

lemma node_change_trans:
  "node_change items capacity is_open t b t1 b1 \<Longrightarrow> node_change items capacity is_open t1 b1 t2 b2 \<Longrightarrow>
   node_change items capacity is_open t b t2 b2"
  unfolding node_change_def by (auto intro: cache_evolves_trans)

lemma node_change_same:
  assumes "same_tables b b'" and "t \<le> t'"
    and "\<And>cap. cap < 2 ^ 64 \<Longrightarrow> cap = connection_handler_queue_len (bconfig b) div 2 \<Longrightarrow>
      peers_ok items capacity is_open cap b \<Longrightarrow> peers_ok items capacity is_open cap b'"
  shows "node_change items capacity is_open t b t' b'"
  using assms same_tables_ok [OF assms(1)]
  by (auto simp: node_change_def same_tables_def intro: cache_evolves.Stay)

lemma node_change_refl: "t \<le> t' \<Longrightarrow> node_change items capacity is_open t b t' b"
  by (rule node_change_same) simp_all

lemma node_change_inv:
  assumes "node_change items capacity is_open t b t' b'" and "node_inv items capacity is_open t b"
  shows "node_inv items capacity is_open t' b'"
proof -
  have "connection_handler_queue_len (bconfig b) div 2 < 2 ^ 64"
    using assms(2) le_less_trans [OF div_le_dividend] unfolding node_inv_def by blast
  then show ?thesis
    using assms cache_evolves_inv [of t "cache b" t' "cache b'"]
    by (simp add: node_inv_def node_change_def)
qed

text \<open>Only the queues, the events, the counters or the bookkeeping of \<open>HaveTx\<close> change.\<close>

lemma same_tables_controller [simp]:
  "same_tables b (b\<lparr>redundancy_controller := k\<rparr>)" "same_tables b (b\<lparr>redundancy_timer := d\<rparr>)"
  "same_tables b (b\<lparr>connected_peers := ps\<rparr>)" "same_tables b (b\<lparr>events := es\<rparr>)"
  "same_tables b (b\<lparr>router := register_have_tx_sent p (router b)\<rparr>)"
  "same_tables b (b\<lparr>router := remove_have_tx_sent p (router b)\<rparr>)"
  by (simp_all add: same_tables_def frame)

lemma same_tables_metrics:
  assumes "\<And>m. disabled_routes_count (f m) = disabled_routes_count m"
    and "\<And>m. txs_cache_size (f m) = txs_cache_size m"
  shows "same_tables b (with_metrics f b)"
  using assms by (simp add: same_tables_def option.map_comp comp_def)

lemmas same_tables_counters =
  same_tables_metrics [of register_invalid_tx, simplified frame, simplified]
  same_tables_metrics [of "tx_recv_unfiltered n" for n, simplified frame, simplified]
  same_tables_metrics [of inc_peers_count, simplified frame, simplified]
  same_tables_metrics [of dec_peers_count, simplified frame, simplified]
  same_tables_metrics [of "set_redundancy r" for r, simplified frame, simplified]
  same_tables_metrics [of register_reset_route_sent, simplified frame, simplified]
  same_tables_metrics [of register_have_tx_sent_metric, simplified frame, simplified]
  same_tables_metrics [of register_published_tx, simplified frame, simplified]

declare same_tables_counters [simp]

context rpc_channel
begin

lemma send_peers_ok:
  "peers_ok items capacity is_open cap b \<Longrightarrow> cap < 2 ^ 64 \<Longrightarrow>
   peers_ok items capacity is_open cap (snd (send_transaction C I p m b))"
  using send_queues [of cap b I p m] by (metis prod.collapse)

lemma send_to_all_peers_ok:
  "peers_ok items capacity is_open cap b \<Longrightarrow> cap < 2 ^ 64 \<Longrightarrow>
   peers_ok items capacity is_open cap (snd (send_to_all C I m tx_id tx ps b))"
proof (induction ps arbitrary: b)
  case (Cons p ps)
  obtain ok b' where s: "send_transaction C I p m b = (ok, b')" by fastforce
  with Cons.prems have "peers_ok items capacity is_open cap b'"
    using send_peers_ok [of cap b I p m] by simp
  with Cons.IH [of b'] Cons.IH [of "push_event (TransactionSent p tx_id tx) b'"] Cons.prems(2) s
  show ?case by (cases ok) (simp_all add: case_prod_beta)
qed simp

lemma send_change:
  "t \<le> t' \<Longrightarrow> node_change items capacity is_open t b t' (snd (send_transaction C I p m b))"
  by (rule node_change_same)
    (auto intro: same_node_tables send_transaction_same_node send_peers_ok)

lemma send_to_all_change:
  "t \<le> t' \<Longrightarrow> node_change items capacity is_open t b t' (snd (send_to_all C I m tx_id tx ps b))"
  by (rule node_change_same)
    (auto intro: same_node_tables send_to_all_same_node send_to_all_peers_ok)

lemma forward_change:
  "t \<le> t' \<Longrightarrow> node_change items capacity is_open t b t' (snd (forward_transaction C I w tx_id raw source b))"
  using send_to_all_change [of t t' b]
  by (auto simp: forward_transaction_def Let_def case_prod_beta intro: node_change_refl)

end

end
