(* ===== verification/Dog_Node_Steps.thy ===== *)
theory Dog_Node_Steps
  imports Dog_Node
begin

text \<open>
  Every operation of a node is a \<open>node_change\<close>, and the machine of all of them keeps the
  invariant of theory Dog_Node.
\<close>

section \<open>Received transactions\<close>

lemma new_received_metrics:
  "metrics (new_received I raw source tx_id tx c b) =
     map_option (\<lambda>m. set_txs_cache_size (cache_len c) (tx_recv (tx_recv_unfiltered (raw_protobuf_len I raw) m)))
       (metrics b)"
  by (cases "metrics b") (simp_all add: new_received_def)

lemma duplicate_received_metrics:
  "metrics (duplicate_received I raw source tx_id tx c b) =
     map_option (\<lambda>m. set_txs_cache_size (cache_len c) (tx_recv_unfiltered (raw_protobuf_len I raw) m)) (metrics b)"
  by (cases "metrics b") (simp_all add: duplicate_received_def)

lemma cache_evolves_insert:
  assumes "t \<le> now" and "cache_insert now k v c0 = (ok, c)"
  shows "cache_evolves t c0 now c"
  using cache_evolves.Insert [OF cache_evolves.Stay [of t t c0], of now now k v] assms by simp

lemma new_received_change:
  assumes "t \<le> clock w" and "cache_insert (clock w) tx_id source (cache b) = (True, c)"
  shows "node_change items capacity is_open t b (clock w) (new_received I raw source tx_id tx c b)"
proof -
  let ?n = "new_received I raw source tx_id tx c b"
  have "gauges_ok b \<Longrightarrow> gauges_ok ?n"
    by (cases "metrics b") (auto simp: gauges_ok_def new_received_metrics frame)
  moreover have "routes_ok b \<Longrightarrow> routes_ok ?n"
    by (simp add: routes_ok_def)
  moreover have "cache_evolves t (cache b) (clock w) (cache ?n)"
    using cache_evolves_insert [OF assms] by simp
  ultimately show ?thesis by (simp add: node_change_def)
qed

lemma duplicate_received_change:
  assumes "t \<le> clock w" and "cache_insert (clock w) tx_id source (cache b) = (False, c)"
  shows "node_change items capacity is_open t b (clock w) (duplicate_received I raw source tx_id tx c b)"
proof -
  let ?n = "duplicate_received I raw source tx_id tx c b"
  have "gauges_ok b \<Longrightarrow> gauges_ok ?n"
    by (cases "metrics b") (auto simp: gauges_ok_def duplicate_received_metrics frame)
  moreover have "routes_ok b \<Longrightarrow> routes_ok ?n"
    by (simp add: routes_ok_def)
  moreover have "cache_evolves t (cache b) (clock w) (cache ?n)"
    using cache_evolves_insert [OF assms] by simp
  ultimately show ?thesis by (simp add: node_change_def)
qed

lemma have_tx_sent_to_change:
  "node_change items capacity is_open t b t (have_tx_sent_to source tx_id b)"
proof (rule node_change_same)
  show "same_tables b (have_tx_sent_to source tx_id b)"
    by (simp add: have_tx_sent_to_def same_tables_def frame option.map_comp comp_def)
qed simp_all

context rpc_channel
begin

lemma received_change:
  assumes "t \<le> clock w"
  shows "node_change items capacity is_open t b (clock w) (handle_received_transaction C I w raw source b)"
proof (cases "inbound_transform (data_transform b) raw")
  case (Inl e)
  have "same_tables b (with_metrics register_invalid_tx (with_metrics (tx_recv_unfiltered (raw_protobuf_len I raw)) b))"
    by (rule same_tables_trans [of _ "with_metrics (tx_recv_unfiltered (raw_protobuf_len I raw)) b"]) simp_all
  then show ?thesis
    unfolding received_invalid [OF Inl] using assms by (intro node_change_same) simp_all
next
  case (Inr tx)
  obtain tx_id where id: "tx_id = config_transaction_id (bconfig b) tx" by blast
  obtain is_new c where c: "cache_insert (clock w) tx_id source (cache b) = (is_new, c)" by fastforce
  show ?thesis
  proof (cases is_new)
    case True
    note c = c [unfolded eqTrueI [OF True]]
    note n = new_received_change [OF assms c, of items capacity is_open I raw tx]
    from n node_change_trans [OF n forward_change [OF order_refl]] show ?thesis
      unfolding received_new [OF Inr id c] by (cases "forward_transactions (bconfig b)") simp_all
  next
    case False
    then have c: "cache_insert (clock w) tx_id source (cache b) = (False, c)" using c by simp
    note d = duplicate_received_change [OF assms c, of items capacity is_open I raw tx]
    let ?d = "duplicate_received I raw source tx_id tx c b"
    obtain sent b2 where s: "send_transaction C I source (HaveTx \<lparr>have_tx_id = tx_id\<rparr>) ?d = (sent, b2)"
      by fastforce
    have 2: "node_change items capacity is_open t b (clock w) b2"
      using node_change_trans [OF d send_change [of "clock w" "clock w" ?d I source "HaveTx \<lparr>have_tx_id = tx_id\<rparr>"]] s
      by simp
    from node_change_trans [OF 2 have_tx_sent_to_change] d 2 s show ?thesis
      unfolding received_duplicate [OF Inr id c] by (cases sent) (simp_all add: Let_def)
  qed
qed

end

section \<open>Control messages\<close>

text \<open>\<open>disable_routes_of\<close> adds a route for each identifier whose source is somebody else.\<close>

definition routes_for :: "transaction_id list \<Rightarrow> 'p \<Rightarrow> (transaction_id, 'p) duplicate_cache \<Rightarrow> 'p route list" where
  "routes_for tx_ids peer c =
     map (\<lambda>source. route_new source peer)
       (filter (\<lambda>source. source \<noteq> peer) (List.map_filter (\<lambda>tx_id. cache_get tx_id c) tx_ids))"

lemma disable_routes_of_eq:
  "disable_routes_of tx_ids peer b =
     b\<lparr>events := events b @ map (HaveTxReceived peer) tx_ids,
       router := (router b)\<lparr>disabled_routes := disabled_routes (router b) @ routes_for tx_ids peer (cache b)\<rparr>\<rparr>"
proof (induction tx_ids arbitrary: b)
  case Nil
  show ?case by (simp add: routes_for_def List.map_filter_def)
next
  case (Cons tx_id tx_ids)
  show ?case
  proof (cases "cache_get tx_id (cache b)")
    case None
    then have "routes_for (tx_id # tx_ids) peer (cache b) = routes_for tx_ids peer (cache b)"
      by (simp add: routes_for_def List.map_filter_def)
    with None show ?thesis
      by (simp add: Let_def Cons.IH push_event_def)
  next
    case (Some source)
    then have "routes_for (tx_id # tx_ids) peer (cache b) =
        (if source = peer then [] else [route_new source peer]) @ routes_for tx_ids peer (cache b)"
      by (simp add: routes_for_def List.map_filter_def)
    with Some show ?thesis
      by (simp add: Let_def Cons.IH push_event_def disable_route_def)
  qed
qed

lemma handle_have_tx_eq:
  "router (handle_have_tx tx_ids peer b) =
     (router b)\<lparr>disabled_routes := disabled_routes (router b) @ routes_for tx_ids peer (cache b)\<rparr>"
  "cache (handle_have_tx tx_ids peer b) = cache b"
  "bconfig (handle_have_tx tx_ids peer b) = bconfig b"
  "publish_config (handle_have_tx tx_ids peer b) = publish_config b"
  "connected_peers (handle_have_tx tx_ids peer b) = connected_peers b"
  "redundancy_controller (handle_have_tx tx_ids peer b) = redundancy_controller b"
  "events (handle_have_tx tx_ids peer b) = events b @ map (HaveTxReceived peer) tx_ids
     @ [RoutingUpdated (disabled_routes (router b) @ routes_for tx_ids peer (cache b))]"
  "metrics (handle_have_tx tx_ids peer b) = map_option
     (set_disabled_routes_count (length (disabled_routes (router b) @ routes_for tx_ids peer (cache b))))
     (metrics b)"
  by (simp_all add: handle_have_tx_def Let_def get_disabled_routes_def disable_routes_of_eq)

lemma routes_for_ok: "r \<in> set (routes_for tx_ids peer c) \<Longrightarrow> route_source r \<noteq> route_target r \<and> route_target r = peer"
  by (auto simp: routes_for_def route_new_def)

lemma have_tx_change:
  assumes "t \<le> t'"
  shows "node_change items capacity is_open t b t' (handle_have_tx tx_ids peer b)"
proof -
  let ?n = "handle_have_tx tx_ids peer b"
  have "gauges_ok b \<Longrightarrow> gauges_ok ?n"
    by (cases "metrics b") (auto simp: gauges_ok_def handle_have_tx_eq set_disabled_routes_count_def
        i64_try_from_def split: option.splits)
  moreover have "routes_ok b \<Longrightarrow> routes_ok ?n"
    by (auto simp: routes_ok_def handle_have_tx_eq dest: routes_for_ok)
  moreover have "peers_ok items capacity is_open cap ?n = peers_ok items capacity is_open cap b" for cap
    by (rule queues_cong) (rule handle_have_tx_eq)
  moreover have "cache_evolves t (cache b) t' (cache ?n)"
    using assms by (simp add: handle_have_tx_eq cache_evolves.Stay)
  ultimately show ?thesis by (simp add: node_change_def handle_have_tx_eq)
qed

text \<open>Shrinking the table of disabled routes, with its gauge.\<close>

lemma shrink_routes_change:
  assumes "t \<le> t'" and "set (disabled_routes r) \<subseteq> set (disabled_routes (router b))"
  shows "node_change items capacity is_open t b t'
    (with_metrics (set_disabled_routes_count (length (disabled_routes r)))
       (push_event (RoutingUpdated (disabled_routes r)) (b\<lparr>router := r\<rparr>)))" (is "node_change _ _ _ _ _ _ ?n")
proof -
  have "gauges_ok b \<Longrightarrow> gauges_ok ?n"
    by (cases "metrics b") (auto simp: gauges_ok_def set_disabled_routes_count_def i64_try_from_def
        split: option.splits)
  moreover have "routes_ok b \<Longrightarrow> routes_ok ?n"
    using assms(2) by (auto simp: routes_ok_def)
  moreover have "cache_evolves t (cache b) t' (cache ?n)"
    using assms(1) by (simp add: cache_evolves.Stay)
  ultimately show ?thesis by (simp add: node_change_def)
qed

lemma reset_route_change:
  assumes "t \<le> t'"
  shows "node_change items capacity is_open t b t' (handle_reset_route w peer b)"
proof (cases rule: enable_random_cases [of "router b" peer "draw w"])
  case (enabled i)
  let ?r = "(router b)\<lparr>disabled_routes := remove_at i (disabled_routes (router b))\<rparr>"
  let ?e = "push_event (ResetRouteReceived peer) b"
  have "node_change items capacity is_open t b t ?e"
    by (rule node_change_same) simp_all
  moreover have "node_change items capacity is_open t ?e t'
      (with_metrics (set_disabled_routes_count (length (disabled_routes ?r)))
         (push_event (RoutingUpdated (disabled_routes ?r)) (?e\<lparr>router := ?r\<rparr>)))"
    by (rule shrink_routes_change [OF assms]) (simp add: set_remove_at_subset)
  ultimately show ?thesis
    using enabled(3) by (auto simp: handle_reset_route_def Let_def get_disabled_routes_def
        intro: node_change_trans)
next
  case absent
  have "handle_reset_route w peer b = push_event (ResetRouteReceived peer) b"
    using absent(2) by (simp add: handle_reset_route_def Let_def push_event_def)
  moreover have "node_change items capacity is_open t b t' (push_event (ResetRouteReceived peer) b)"
    by (rule node_change_same) (simp_all add: assms)
  ultimately show ?thesis by simp
qed

section \<open>Redundancy and connections\<close>

lemma reset_route_sent_change:
  "node_change items capacity is_open t b t
     (push_event e (with_metrics register_reset_route_sent (b\<lparr>router := remove_have_tx_sent p (router b)\<rparr>)))"
proof (rule node_change_same)
  show "same_tables b (push_event e (with_metrics register_reset_route_sent
      (b\<lparr>router := remove_have_tx_sent p (router b)\<rparr>)))"
    using same_tables_trans [OF same_tables_controller(6) same_tables_counters(6)] by simp
qed simp_all

context rpc_channel
begin

lemma adjust_change:
  assumes "t \<le> t'"
  shows "node_change items capacity is_open t b t' (adjust_redundancy C I w b)"
proof -
  obtain r reset c where e: "evaluate (redundancy_controller b) = ((r, reset), c)"
    by (metis prod.collapse)
  let ?b = "b\<lparr>redundancy_controller := c\<rparr>"
  define b1 where "b1 = (if reset then
                 (case get_random_have_tx_sent_peer (have_tx_order w) (draw w) (router ?b) of
                    Some peer_id \<Rightarrow>
                      (case send_transaction C I peer_id (SendResetRoute ResetRoute) ?b of
                         (True, b) \<Rightarrow>
                           push_event (ResetRouteSent peer_id)
                             (with_metrics register_reset_route_sent
                               (b\<lparr>router := remove_have_tx_sent peer_id (router b)\<rparr>))
                       | (False, b) \<Rightarrow> b)
                  | None \<Rightarrow> ?b)
               else ?b)"
  have b: "node_change items capacity is_open t b t' ?b"
    by (rule node_change_same) (simp_all add: assms)
  have "node_change items capacity is_open t b t' b1"
  proof (cases "reset \<and> get_random_have_tx_sent_peer (have_tx_order w) (draw w) (router ?b) \<noteq> None")
    case True
    then obtain p where p: "get_random_have_tx_sent_peer (have_tx_order w) (draw w) (router ?b) = Some p" by auto
    obtain ok b2 where s: "send_transaction C I p (SendResetRoute ResetRoute) ?b = (ok, b2)" by fastforce
    have 2: "node_change items capacity is_open t b t' b2"
      using node_change_trans [OF b send_change [OF order_refl [of t'], of ?b I p "SendResetRoute ResetRoute"]] s by simp
    from True p s node_change_trans [OF 2 reset_route_sent_change] 2 show ?thesis
      unfolding b1_def by (cases ok) simp_all
  next
    case False
    with b show ?thesis unfolding b1_def by (auto split: option.split)
  qed
  moreover have "node_change items capacity is_open t' b1 t'
      ((with_metrics (set_redundancy r) b1)\<lparr>redundancy_controller :=
         reset_counters (redundancy_controller (with_metrics (set_redundancy r) b1))\<rparr>)"
    by (rule node_change_same)
      (auto intro: same_tables_trans [of _ "with_metrics (set_redundancy r) b1"])
  moreover have "adjust_redundancy C I w b = (with_metrics (set_redundancy r) b1)\<lparr>redundancy_controller :=
      reset_counters (redundancy_controller (with_metrics (set_redundancy r) b1))\<rparr>"
    by (simp add: adjust_redundancy_def e b1_def Let_def)
  ultimately show ?thesis by (simp add: node_change_trans)
qed

lemma closed_change:
  assumes "t \<le> t'"
  shows "node_change items capacity is_open t b t' (on_connection_closed C I w p i n b)"
proof (cases "n = 0")
  case False
  have "node_change items capacity is_open t b t'
      (case connected_peers b p of
         Some peer \<Rightarrow> b\<lparr>connected_peers := (connected_peers b)(p \<mapsto>
             peer\<lparr>connections := filter (\<lambda>j. j \<noteq> i) (connections peer)\<rparr>)\<rparr>
       | None \<Rightarrow> b)"
    by (rule node_change_same) (auto simp: assms peers_ok_def split: option.split)
  with False show ?thesis by (simp add: on_connection_closed_def)
next
  case True
  let ?r = "snd (reset_routes_with_peer p (router b))"
  let ?removed = "fst (reset_routes_with_peer p (router b))"
  define b1 where "b1 = (if ?removed \<noteq> [] then
      with_metrics (set_disabled_routes_count (length (disabled_routes ?r)))
        (push_event (RoutingUpdated (disabled_routes ?r)) (b\<lparr>router := ?r\<rparr>))
     else b\<lparr>router := ?r\<rparr>)"
  let ?b2 = "b1\<lparr>connected_peers := (connected_peers b1)(p := None)\<rparr>"
  have "node_change items capacity is_open t b t' b1"
  proof (cases "?removed = []")
    case empty: True
    then have "filter (\<lambda>r. \<not> touches p r) (disabled_routes (router b)) = disabled_routes (router b)"
      by (auto simp: reset_routes_with_peer_def filter_empty_conv)
    then have "b1 = b" using empty by (simp add: b1_def reset_routes_with_peer_def)
    with assms show ?thesis by (simp add: node_change_refl)
  next
    case False
    then show ?thesis
      unfolding b1_def using shrink_routes_change [OF assms, of ?r b]
      by (auto simp: reset_routes_with_peer_def)
  qed
  moreover have "node_change items capacity is_open t' b1 t' ?b2"
    by (rule node_change_same) (auto simp: peers_ok_def)
  moreover have "node_change items capacity is_open t' ?b2 t' (adjust_redundancy C I w ?b2)"
    by (rule adjust_change) simp
  moreover have "node_change items capacity is_open t' (adjust_redundancy C I w ?b2) t'
      (with_metrics dec_peers_count (adjust_redundancy C I w ?b2))"
    by (rule node_change_same) simp_all
  moreover have "on_connection_closed C I w p i n b = with_metrics dec_peers_count (adjust_redundancy C I w ?b2)"
    using True by (simp add: on_connection_closed_def b1_def case_prod_beta Let_def get_disabled_routes_def)
  ultimately show ?thesis by (metis node_change_trans)
qed

lemma established_change:
  assumes "handle_established_connection C i p b = Some (h, b')"
  shows "node_change items capacity is_open t b t b'"
proof -
  obtain s where s: "sender_new C (connection_handler_queue_len (bconfig b)) = Some s"
    using assms by (auto simp: handle_established_connection_def split: option.splits)
  obtain peer where b': "b' = b\<lparr>connected_peers := (connected_peers b)(p \<mapsto> peer)\<rparr>"
    and peer: "peer_sender peer = (case connected_peers b p of Some q \<Rightarrow> peer_sender q | None \<Rightarrow> s)"
    using assms s by (auto simp: handle_established_connection_def Let_def split: option.splits)
  have "\<not> connection_handler_queue_len (bconfig b) < 2"
    using s sender_new_None [of "connection_handler_queue_len (bconfig b)"] by auto
  with s sender_new_Some [of "connection_handler_queue_len (bconfig b)"] unbounded_new
  have "priority_cap s = connection_handler_queue_len (bconfig b) div 2"
    "channels_ok items capacity is_open (connection_handler_queue_len (bconfig b) div 2) (sender_channels s)"
    by (auto simp: channels_ok_def)
  with peer show ?thesis
    unfolding b' by (intro node_change_same) (auto simp: peers_ok_def split: option.splits)
qed

lemma poll_change:
  assumes "t \<le> t'"
  shows "node_change items capacity is_open t b t' (snd (behaviour_poll C I w elapsed b))"
proof (cases "events b")
  case (Cons e es)
  have "node_change items capacity is_open t b t' (b\<lparr>events := es\<rparr>)"
    by (rule node_change_same) (simp_all add: assms peers_ok_def)
  with Cons show ?thesis by (simp add: behaviour_poll_def)
next
  case Nil
  let ?a = "adjust_redundancy C I w b"
  have "node_change items capacity is_open t' ?a t' (?a\<lparr>redundancy_timer := d\<rparr>)" for d
    by (rule node_change_same) (simp_all add: peers_ok_def)
  then have "node_change items capacity is_open t b t' (?a\<lparr>redundancy_timer := d\<rparr>)" for d
    using adjust_change [OF assms] node_change_trans by blast
  with Nil assms show ?thesis by (simp add: behaviour_poll_def node_change_refl)
qed

lemma receive_all_change:
  assumes "t \<le> clock (ws i)" and "\<And>i. clock (ws i) \<le> clock (ws (Suc i))" and "\<And>i. clock (ws i) \<le> t'"
  shows "node_change items capacity is_open t b t' (receive_all C I ws p i raws b)"
  using assms(1)
proof (induction raws arbitrary: t b i)
  case Nil
  then show ?case using assms(3) [of i] by (simp add: node_change_refl)
next
  case (Cons raw raws)
  have "t \<le> t'" using Cons.prems assms(3) [of i] by simp
  then have "node_change items capacity is_open t b t' b" by (rule node_change_refl)
  moreover have "node_change items capacity is_open t b t'
      (receive_all C I ws p (i + 1) raws (handle_received_transaction C I (ws i) raw p b))"
    using node_change_trans [OF received_change [OF Cons.prems] Cons.IH [of "clock (ws i)" "i + 1"]] assms(2) [of i]
    by simp
  ultimately show ?case by simp
qed

lemma handler_event_change:
  assumes "t \<le> clock (ws 0)" and "\<And>i. clock (ws i) \<le> clock (ws (Suc i))" and "\<And>i. clock (ws i) \<le> t'"
  shows "node_change items capacity is_open t b t' (on_connection_handler_event C I ws w p ev b)"
proof (cases ev)
  case (TransactionDropped m)
  have "same_tables b (with_metrics (\<lambda>m'. register_timedout_tx_dropped
      (case m of Publish tx timeout \<Rightarrow> register_published_tx_dropped m'
       | Forward tx timeout \<Rightarrow> register_forwarded_tx_dropped m' | _ \<Rightarrow> m')) b)"
    by (rule same_tables_metrics) (simp_all add: frame split: rpc_out.split)
  moreover have "t \<le> t'" using assms(1) assms(3) [of 0] by simp
  ultimately show ?thesis
    unfolding TransactionDropped by (auto simp: on_connection_handler_event_def intro!: node_change_same)
next
  case (TransactionEvent r invalid)
  define b1 where "b1 = receive_all C I ws p 0 (rpc_transactions r) b"
  let ?ids = "List.map_filter (\<lambda>c. map_option have_tx_id (have_tx_of_action c)) (rpc_control_msgs r)"
  define b2 where "b2 = (if ?ids \<noteq> [] \<and> \<not> ignore_have_tx (bconfig b1) then handle_have_tx ?ids p b1 else b1)"
  define b3 where "b3 = (if list_ex (\<lambda>c. reset_route_of_action c \<noteq> None) (rpc_control_msgs r)
    then handle_reset_route w p b2 else b2)"
  have 1: "node_change items capacity is_open t b t' b1"
    unfolding b1_def by (rule receive_all_change [OF assms])
  have 2: "node_change items capacity is_open t' b1 t' b2"
    unfolding b2_def using have_tx_change [OF order_refl, of items capacity is_open t' b1]
    by (auto intro: node_change_refl)
  have 3: "node_change items capacity is_open t' b2 t' b3"
    unfolding b3_def using reset_route_change [OF order_refl, of items capacity is_open t' b2]
    by (auto intro: node_change_refl)
  have "on_connection_handler_event C I ws w p ev b = b3"
    unfolding TransactionEvent on_connection_handler_event_def b3_def b2_def b1_def by (simp add: Let_def)
  then show ?thesis
    using node_change_trans [OF node_change_trans [OF 1 2] 3] by simp
qed

text \<open>Remembering a transaction when it is published, with the gauge of the cache.\<close>

lemma remember_change:
  assumes "t \<le> now" and "c = snd (cache_insert now k v (cache b))"
  shows "node_change items capacity is_open t b now
    (with_metrics (set_txs_cache_size (cache_len c)) (b\<lparr>cache := c\<rparr>))" (is "node_change _ _ _ _ _ _ ?n")
proof -
  have "gauges_ok b \<Longrightarrow> gauges_ok ?n"
    by (cases "metrics b") (auto simp: gauges_ok_def frame)
  moreover have "routes_ok b \<Longrightarrow> routes_ok ?n"
    by (simp add: routes_ok_def)
  moreover have "cache_evolves t (cache b) now (cache ?n)"
    using cache_evolves_insert [OF assms(1), of k v "cache b"] assms(2) by (metis prod.collapse behaviour.select_convs(9)
        behaviour.update_convs(9) behaviour.surjective with_metrics_frame(9))
  ultimately show ?thesis by (simp add: node_change_def)
qed

lemma build_change:
  assumes "build_raw_transaction I d b = Some (res, b')"
  shows "node_change items capacity is_open t b t b'"
proof -
  have "gauges_ok (b\<lparr>publish_config := pc\<rparr>) = gauges_ok b" "routes_ok (b\<lparr>publish_config := pc\<rparr>) = routes_ok b"
    "peers_ok items capacity is_open cap (b\<lparr>publish_config := pc\<rparr>) = peers_ok items capacity is_open cap b" for pc cap
    by (simp_all add: gauges_ok_def routes_ok_def peers_ok_def)
  then have "node_change items capacity is_open t b t (b\<lparr>publish_config := publish_config b'\<rparr>)"
    using build_raw_transaction_cases(2,3) [OF assms] by (simp add: node_change_def cache_evolves.Stay)
  then show ?thesis using build_raw_transaction_cases(1) [OF assms] by simp
qed

lemma publish_change:
  assumes "t \<le> clock w" and "publish C I w data b = Some (res, b')"
  shows "node_change items capacity is_open t b (clock w) b'"
proof (cases "\<exists>d. outbound_transform (data_transform b) data = Inr d \<and> length d \<le> max_transmit_size (bconfig b)")
  case False
  then have "b' = b"
    using assms(2) publish_rejected [of b data _ C I w]
    by (cases "outbound_transform (data_transform b) data") (auto simp: not_le)
  with assms(1) show ?thesis by (simp add: node_change_refl)
next
  case True
  then obtain d where d: "outbound_transform (data_transform b) data = Inr d"
    "length d \<le> max_transmit_size (bconfig b)" by blast
  from assms(2) d obtain built b0 where raw: "build_raw_transaction I d b = Some (built, b0)"
    by (auto simp: publish_def split: option.splits)
  have b0: "node_change items capacity is_open t b (clock w) b0"
    using node_change_trans [OF build_change [OF raw] node_change_refl [OF assms(1)]] .
  show ?thesis
  proof (cases built)
    case (Inl e)
    with assms(2) d raw b0 show ?thesis by (simp add: publish_def)
  next
    case (Inr rt)
    let ?tx = "\<lparr>tx_from = raw_from rt, tx_seqno = raw_seqno rt, tx_data = data\<rparr>"
    let ?id = "config_transaction_id (bconfig b0) ?tx"
    let ?own = "get_own_id (publish_config b0)"
    show ?thesis
    proof (cases "cache_contains ?id (cache b0)")
      case True
      with assms(2) d raw Inr b0 show ?thesis by (simp add: publish_def)
    next
      case False
      define c where "c = snd (cache_insert (clock w) ?id ?own (cache b0))"
      define b1 where "b1 = with_metrics (set_txs_cache_size (cache_len c)) (b0\<lparr>cache := c\<rparr>)"
      let ?m = "Publish rt (Delay (clock w) (publish_queue_duration (bconfig b0)))"
      define b2 where "b2 = snd (send_to_all C I ?m ?id ?tx (filter_valid_routes ?own (peer_order w) (router b0)) b1)"
      have "node_change items capacity is_open (clock w) b0 (clock w) b1"
        unfolding b1_def by (rule remember_change [OF order_refl c_def])
      moreover have "node_change items capacity is_open (clock w) b1 (clock w) b2"
        unfolding b2_def by (rule send_to_all_change) simp
      ultimately have b2: "node_change items capacity is_open t b (clock w) b2"
        using b0 by (blast intro: node_change_trans)
      have "node_change items capacity is_open (clock w) b2 (clock w) (with_metrics register_published_tx b2)"
        by (rule node_change_same) simp_all
      moreover have "b' = b2 \<or> b' = with_metrics register_published_tx b2"
        using assms(2) d raw Inr False
        by (auto simp: publish_def b2_def b1_def c_def Let_def case_prod_beta split: if_splits)
      ultimately show ?thesis using b2 by (blast intro: node_change_trans)
    qed
  qed
qed

end

end
