(* ===== verification/Dog_Node_Machine.thy ===== *)
theory Dog_Node_Machine
  imports Dog_Node_Steps
begin

text \<open>
  The machine of a node, its invariant over all runs, and a concrete node for the witnesses.
\<close>

section \<open>The machine\<close>

text \<open>
  A state is the latest instant and the node; the clock never runs backwards. \<open>Queue\<close> is
  what the handlers of a peer do to its channels: by theory Dog_Queue_Steps they keep them
  lawful.
\<close>

inductive node_step ::
  "('q, 'r, 'p rpc_out) channel_ops \<Rightarrow> ('p, 'k, 'pk) libp2p_ops \<Rightarrow> ('q \<Rightarrow> 'p rpc_out list) \<Rightarrow>
   ('q \<Rightarrow> nat option) \<Rightarrow> ('q \<Rightarrow> bool) \<Rightarrow> instant \<times> ('p, 'k, 'q) behaviour \<Rightarrow>
   instant \<times> ('p, 'k, 'q) behaviour \<Rightarrow> bool"
  for C I items capacity is_open where
  Publishing: "t \<le> clock w \<Longrightarrow> publish C I w data b = Some (res, b') \<Longrightarrow>
    node_step C I items capacity is_open (t, b) (clock w, b')"
| Received: "t \<le> clock (ws 0) \<Longrightarrow> (\<And>i. clock (ws i) \<le> clock (ws (Suc i))) \<Longrightarrow> (\<And>i. clock (ws i) \<le> clock w) \<Longrightarrow>
    node_step C I items capacity is_open (t, b) (clock w, on_connection_handler_event C I ws w p ev b)"
| Swarm: "t \<le> clock w \<Longrightarrow>
    node_step C I items capacity is_open (t, b) (clock w, on_swarm_event C I w swarm_ev b)"
| Inbound: "handle_established_inbound_connection C i p b = Some (h :: (unit, 'r) handler, b') \<Longrightarrow>
    node_step C I items capacity is_open (t, b) (t, b')"
| Outbound: "handle_established_outbound_connection C i p b = Some (h :: (unit, 'r) handler, b') \<Longrightarrow>
    node_step C I items capacity is_open (t, b) (t, b')"
| Polling: "t \<le> clock w \<Longrightarrow> behaviour_poll C I w elapsed b = (res, b') \<Longrightarrow>
    node_step C I items capacity is_open (t, b) (clock w, b')"
| Queue: "connected_peers b p = Some peer \<Longrightarrow>
    channels_ok items capacity is_open (priority_cap (peer_sender peer)) ch \<Longrightarrow>
    node_step C I items capacity is_open (t, b) (t, b\<lparr>connected_peers := (connected_peers b)
      (p \<mapsto> peer\<lparr>peer_sender := (peer_sender peer)\<lparr>sender_channels := ch\<rparr>\<rparr>)\<rparr>)"

inductive_cases node_stepE: "node_step C I items capacity is_open (t, b) x"

context rpc_channel
begin

lemma node_step_change:
  assumes "node_step C I items capacity is_open x y"
  shows "node_change items capacity is_open (fst x) (snd x) (fst y) (snd y)"
  using assms
proof (induction rule: node_step.induct)
  case (Publishing t w data b res b')
  then show ?case by (simp add: publish_change)
next
  case (Received t ws w b p ev)
  then show ?case by (simp add: handler_event_change)
next
  case (Swarm t w b swarm_ev)
  have "same_tables b (with_metrics inc_peers_count b)" by simp
  then have "node_change items capacity is_open t b (clock w) (with_metrics inc_peers_count b)"
    using Swarm by (intro node_change_same) simp_all
  with Swarm show ?case
    by (cases swarm_ev)
      (simp_all add: on_swarm_event_def on_connection_established_def closed_change node_change_refl)
next
  case (Inbound i p b h b' t)
  then show ?case
    by (simp add: handle_established_inbound_connection_def established_change)
next
  case (Outbound i p b h b' t)
  then show ?case
    by (simp add: handle_established_outbound_connection_def established_change)
next
  case (Polling t w elapsed b res b')
  then show ?case using poll_change [of t "clock w" b I w elapsed] by simp
next
  case (Queue b p peer ch t)
  then show ?case
    by (auto intro!: node_change_same simp: peers_ok_def)
qed

lemma node_steps_change:
  assumes "(node_step C I items capacity is_open)\<^sup>*\<^sup>* x y"
  shows "node_change items capacity is_open (fst x) (snd x) (fst y) (snd y)"
  using assms
proof (induction rule: rtranclp_induct)
  case base
  show ?case by (simp add: node_change_refl)
next
  case (step y z)
  then show ?case by (blast intro: node_change_trans node_step_change)
qed

lemma node_inv_new:
  assumes "behaviour_new I now nanos auth cfg registry D = Inr b"
    and "connection_handler_queue_len cfg < 2 ^ 64"
  shows "node_inv items capacity is_open t b"
  using assms
  by (auto simp: behaviour_new_def node_inv_def peers_ok_def routes_ok_def gauges_ok_def router_new_def
      cache_new_def cache_len_def metrics_new_def cache_inv_def cache_shape_def split: if_splits)

end

section \<open>A concrete node\<close>

text \<open>
  A signing node with the default configuration and two peers. Its queues are lists.
\<close>

definition sample_peer :: "byte rpc_out list_queue peer_connections" where
  "sample_peer =
     \<lparr>connections = [0],
      peer_sender =
        \<lparr>priority_cap = 2500,
         sender_channels =
           \<lparr>queue_len = 0, priority_channel = ([], None, True), non_priority_channel = ([], Some 2500, True)\<rparr>\<rparr>\<rparr>"

definition sample_node :: "(byte, byte, byte rpc_out list_queue) behaviour" where
  "sample_node =
     \<lparr>bconfig = sample_config, events = [], publish_config = Signing 7 7 None 0,
      data_transform = identity_transform, connected_peers = [1 \<mapsto> sample_peer, 2 \<mapsto> sample_peer],
      redundancy_timer = Delay 0 0, redundancy_controller = controller_new sample_config,
      router = router_new, cache = cache_new (duration_from_secs 30), metrics = Some metrics_new\<rparr>"

definition sample_world :: "instant \<Rightarrow> byte world" where
  "sample_world t = \<lparr>clock = t, peer_order = [1, 2], have_tx_order = [1], draw = 0\<rparr>"

definition sample_raw :: "byte raw_transaction" where
  "sample_raw = \<lparr>raw_from = 5, raw_seqno = 1, raw_data = [4], raw_signature = None, raw_key = None\<rparr>"

lemmas sample_defs = sample_node_def sample_world_def sample_peer_def sample_raw_def sample_config_def
  default_config_builder_def default_protocol_config_def

lemma sample_peers_ok: "peers_ok list_items list_capacity list_open 2500 sample_node"
  by (auto simp: peers_ok_def sample_node_def sample_peer_def channels_ok_def)

lemma sample_order: "key_order (peer_order (sample_world t)) (connected_peers sample_node)"
  by (auto simp: key_order_def sample_world_def sample_node_def)

lemma sample_inv: "node_inv list_items list_capacity list_open t sample_node"
proof -
  have "connection_handler_queue_len (bconfig sample_node) = 5000"
    "cache_time (bconfig sample_node) = duration_from_secs 30"
    by (simp_all add: sample_node_def sample_config_def default_config_builder_def)
  moreover have "cache_inv t (cache sample_node)" "cache_ttl (cache sample_node) = duration_from_secs 30"
    by (simp_all add: sample_node_def) (simp add: cache_new_def)
  moreover have "routes_ok sample_node" "gauges_ok sample_node"
    by (simp_all add: sample_node_def routes_ok_def gauges_ok_def router_new_def cache_new_def cache_len_def
        metrics_new_def)
  ultimately show ?thesis
    using sample_peers_ok by (simp add: node_inv_def)
qed

lemma sample_simps:
  "forward_transactions (bconfig sample_node)" "send_have_tx (bconfig sample_node)"
  "forward_queue_duration (bconfig sample_node) = duration_from_secs 1"
  "publish_queue_duration (bconfig sample_node) = duration_from_secs 5"
  "max_transmit_size (bconfig sample_node) = 65536"
  "cache_time (bconfig sample_node) = duration_from_secs 30"
  "dom (connected_peers sample_node) = {1, 2}"
  "disabled_routes (router sample_node) = []"
  "publish_config sample_node = Signing 7 7 None 0"
  "data_transform sample_node = identity_transform"
  "clock (sample_world t) = t" "peer_order (sample_world t) = [1, 2]"
  "events sample_node = []"
  by (auto simp: sample_node_def sample_config_def default_config_builder_def sample_world_def router_new_def
      forward_queue_duration_def publish_queue_duration_def max_transmit_size_def default_protocol_config_def
      DEFAULT_MAX_TRANSMIT_SIZE_def)

lemma sample_queues:
  "forwards_to list_items sample_node p = []" "priorities_to list_items sample_node p = []"
  "takes list_items m sample_node p \<longleftrightarrow> p \<in> {1, 2}"
  by (auto simp: forwards_to_def priorities_to_def takes_def sample_node_def sample_peer_def)

lemma sample_inbound:
  "inbound_transform (data_transform sample_node) raw =
     Inr \<lparr>tx_from = raw_from raw, tx_seqno = raw_seqno raw, tx_data = raw_data raw\<rparr>"
  by (simp add: sample_simps identity_transform_def identity_inbound_def)

lemma sample_insert: "cache_insert t k v (cache sample_node) =
    (True, \<lparr>cache_count = 1, cache_values = [k \<mapsto> v],
       cache_list = [\<lparr>entry_key = k, entry_expiration = t + duration_from_secs 30\<rparr>],
       cache_ttl = duration_from_secs 30\<rparr>)"
  by (simp add: sample_node_def cache_insert_def cache_new_def remove_expired_values.simps)

end
