(* ===== verification/Dog_Node_Props.thy ===== *)
theory Dog_Node_Props
  imports Dog_Node_Machine
begin

text \<open>
  What a node guarantees: the properties of receiving, publishing, routing and redundancy.
\<close>

section \<open>Receiving\<close>

text \<open>
  C2. A transaction that is not remembered goes exactly once to every connected peer with
  room in its queue that is not the one it came from, not its author, and not cut off from
  that source by a disabled route; nobody gets anything else, the transaction is
  remembered, and the disabled routes stay as they are.
\<close>

theorem first_reception_forwarded:
  assumes "rpc_channel C items capacity is_open slot"
    and "peers_ok items capacity is_open cap b" and "cap < 2 ^ 64"
    and "key_order (peer_order w) (connected_peers b)"
    and "inbound_transform (data_transform b) raw = Inr tx"
    and "tx_id = config_transaction_id (bconfig b) tx"
    and "fst (cache_insert (clock w) tx_id source (cache b))"
    and "m = Forward raw (Delay (clock w) (forward_queue_duration (bconfig b)))"
    and "b' = handle_received_transaction C I w raw source b"
  shows "(\<forall>p. forwards_to items b' p = forwards_to items b p
      @ (if forward_transactions (bconfig b) \<and> p \<in> dom (connected_peers b) \<and> p \<noteq> source \<and> p \<noteq> raw_from raw
            \<and> route_new source p \<notin> set (disabled_routes (router b)) \<and> takes items m b p
         then [m] else []))
    \<and> (\<forall>p. priorities_to items b' p = priorities_to items b p)
    \<and> cache_contains tx_id (cache b') \<and> router b' = router b"
proof -
  obtain c where c: "cache_insert (clock w) tx_id source (cache b) = (True, c)"
    using assms(7) by (metis (full_types) prod.collapse)
  have "p \<in> dom (connected_peers b)" if "takes items m b p" for p
    using that by (rule takes_connected)
  moreover have "cache_contains tx_id c"
    using cache_insert_contains [of tx_id "clock w" source "cache b"] c by simp
  ultimately show ?thesis
    using rpc_channel.received_new_queues [OF assms(1-6) c assms(8,9)]
    by (auto simp: same_node_def valid_target_def)
qed

theorem first_reception_forwarded_witness:
  "let b' = handle_received_transaction list_channel sample_ops (sample_world 5) sample_raw 1 sample_node
   in forwards_to list_items b' 1 = []
     \<and> forwards_to list_items b' 2 = [Forward sample_raw (Delay 5 (duration_from_secs 1))]"
proof -
  have "fst (cache_insert (clock (sample_world 5)) tx_id 1 (cache sample_node))" for tx_id
    by (simp add: sample_insert)
  from first_reception_forwarded [OF lrc.rpc_channel_axioms sample_peers_ok _ sample_order sample_inbound refl
      this refl refl, of sample_ops sample_raw]
  show ?thesis
    by (simp add: Let_def sample_queues sample_simps) (simp add: sample_raw_def)
qed

text \<open>
  C3. A transaction that is remembered is not forwarded to anybody. At most its sender gets
  a \<open>HaveTx\<close> with its identifier, when the node may send one and its sending is not blocked;
  then it is blocked. Otherwise the queues stay as they are.
\<close>

theorem duplicate_not_forwarded:
  assumes "rpc_channel C items capacity is_open slot"
    and "peers_ok items capacity is_open cap b" and "cap < 2 ^ 64"
    and "inbound_transform (data_transform b) raw = Inr tx"
    and "tx_id = config_transaction_id (bconfig b) tx"
    and "\<not> fst (cache_insert (clock w) tx_id source (cache b))"
    and "asks \<longleftrightarrow> send_have_tx (bconfig b) \<and> \<not> have_tx_blocked (redundancy_controller b)
      \<and> source \<in> dom (connected_peers b)"
    and "b' = handle_received_transaction C I w raw source b"
  shows "(\<forall>p. forwards_to items b' p = forwards_to items b p)
    \<and> (\<forall>p. priorities_to items b' p = priorities_to items b p
        @ (if asks \<and> p = source then [HaveTx \<lparr>have_tx_id = tx_id\<rparr>] else []))
    \<and> have_tx_blocked (redundancy_controller b') = (have_tx_blocked (redundancy_controller b) \<or> asks)
    \<and> duplicate_txs_count (redundancy_controller b') = duplicate_txs_count (redundancy_controller b) + 1
    \<and> disabled_routes (router b') = disabled_routes (router b)"
proof -
  obtain c where c: "cache_insert (clock w) tx_id source (cache b) = (False, c)"
    using assms(6) by (metis (full_types) prod.collapse)
  from rpc_channel.received_duplicate_queues [OF assms(1-5) c assms(7,8)] show ?thesis
    by (cases asks) (auto simp: same_node_def incr_duplicate_txs_count_def block_have_tx_def frame)
qed

text \<open>The node after it has received the sample transaction from peer 1.\<close>

definition sample_id :: transaction_id where
  "sample_id = config_transaction_id (bconfig sample_node) \<lparr>tx_from = 5, tx_seqno = 1, tx_data = [4]\<rparr>"

definition sample_node1 :: "(byte, byte, byte rpc_out list_queue) behaviour" where
  "sample_node1 = handle_received_transaction list_channel sample_ops (sample_world 5) sample_raw 1 sample_node"

lemma sample_inbound_raw:
  "inbound_transform (data_transform sample_node) sample_raw = Inr \<lparr>tx_from = 5, tx_seqno = 1, tx_data = [4]\<rparr>"
  by (simp add: sample_inbound) (simp add: sample_raw_def)

lemma sample_node1_simps:
  "bconfig sample_node1 = bconfig sample_node" "data_transform sample_node1 = data_transform sample_node"
  "router sample_node1 = router sample_node" "publish_config sample_node1 = publish_config sample_node"
  "cache sample_node1 = snd (cache_insert 5 sample_id 1 (cache sample_node))"
  "dom (connected_peers sample_node1) = {1, 2}"
  "\<not> have_tx_blocked (redundancy_controller sample_node1)"
  "peers_ok list_items list_capacity list_open 2500 sample_node1"
  using lrc.received_new_queues [OF sample_peers_ok _ sample_order sample_inbound_raw sample_id_def _ refl
      sample_node1_def, of "snd (cache_insert 5 sample_id 1 (cache sample_node))"]
  by (simp_all add: sample_insert sample_simps same_node_def)
    (simp add: sample_node_def incr_first_time_txs_count_def controller_new_def Let_def)

lemma sample_node1_cache: "cache sample_node1 =
    \<lparr>cache_count = 1, cache_values = [sample_id \<mapsto> 1],
     cache_list = [\<lparr>entry_key = sample_id, entry_expiration = 5 + duration_from_secs 30\<rparr>],
     cache_ttl = duration_from_secs 30\<rparr>"
  by (simp only: sample_node1_simps(5) sample_insert snd_conv)

lemma sample_second_insert:
  assumes "t < 30000000000"
  shows "fst (cache_insert t sample_id p (cache sample_node1)) = False"
proof -
  have "remove_expired_values t (cache sample_node1) = cache sample_node1"
    using assms unfolding sample_node1_cache
    by (subst remove_expired_values.simps) (simp add: duration_from_secs_def)
  then show ?thesis
    by (simp add: cache_insert_def sample_node1_cache)
qed

lemma sample_node1_inbound:
  "inbound_transform (data_transform sample_node1) sample_raw = Inr \<lparr>tx_from = 5, tx_seqno = 1, tx_data = [4]\<rparr>"
  by (simp only: sample_node1_simps(2) sample_inbound_raw)

lemma sample_node1_id:
  "sample_id = config_transaction_id (bconfig sample_node1) \<lparr>tx_from = 5, tx_seqno = 1, tx_data = [4]\<rparr>"
  by (simp only: sample_node1_simps(1) sample_id_def)

theorem duplicate_not_forwarded_witness:
  "let b' = handle_received_transaction list_channel sample_ops (sample_world 6) sample_raw 2 sample_node1
   in forwards_to list_items b' 1 = forwards_to list_items sample_node1 1
     \<and> priorities_to list_items b' 2 = priorities_to list_items sample_node1 2 @ [HaveTx \<lparr>have_tx_id = sample_id\<rparr>]
     \<and> have_tx_blocked (redundancy_controller b')"
proof -
  have "\<not> fst (cache_insert (clock (sample_world 6)) sample_id 2 (cache sample_node1))"
    by (simp add: sample_simps sample_second_insert)
  from duplicate_not_forwarded [OF lrc.rpc_channel_axioms sample_node1_simps(8) _ sample_node1_inbound
      sample_node1_id this refl refl, of sample_ops]
  show ?thesis
    by (simp add: sample_node1_simps(1,6,7) sample_simps Let_def)
qed

text \<open>
  C1. No transaction is forwarded twice within the time its identifier is remembered. After
  a transaction was received for the first time, whatever the node does until the cache
  time has passed, receiving it again, from whomever and in whatever form, adds no
  forward to any queue.
\<close>

theorem forwarded_once:
  assumes "rpc_channel C items capacity is_open slot"
    and "node_inv items capacity is_open t b" and "t \<le> clock w"
    and "inbound_transform (data_transform b) raw = Inr tx"
    and "tx_id = config_transaction_id (bconfig b) tx"
    and "fst (cache_insert (clock w) tx_id source (cache b))"
    and "(node_step C I items capacity is_open)\<^sup>*\<^sup>*
      (clock w, handle_received_transaction C I w raw source b) (t2, b2)"
    and "t2 \<le> clock w2" and "clock w2 < clock w + cache_time (bconfig b)"
    and "inbound_transform (data_transform b2) raw2 = Inr tx2"
    and "config_transaction_id (bconfig b2) tx2 = tx_id"
  shows "forwards_to items (handle_received_transaction C I w2 raw2 source2 b2) p = forwards_to items b2 p"
proof -
  let ?b1 = "handle_received_transaction C I w raw source b"
  obtain c where c: "cache_insert (clock w) tx_id source (cache b) = (True, c)"
    using assms(6) by (metis (full_types) prod.collapse)
  have inv1: "node_inv items capacity is_open (clock w) ?b1"
    by (rule node_change_inv [OF rpc_channel.received_change [OF assms(1,3)] assms(2)])
  have "cache_ttl (cache b) = cache_time (bconfig b)" "cache_inv t (cache b)"
    using assms(2) by (simp_all add: node_inv_def)
  then have "map_option snd (timed_of c tx_id) = Some (clock w + cache_time (bconfig b))"
    using dup.ins_seen [of t "cache b" "clock w" tx_id source] assms(6) c by simp
  then obtain v where v: "timed_of c tx_id = Some (v, clock w + cache_time (bconfig b))"
    by auto
  have cache1: "cache ?b1 = c"
  proof (cases "forward_transactions (bconfig b)")
    case True
    have "same_node b0 (snd (forward_transaction C I w i raw source b0))" for i b0
      by (simp add: forward_transaction_def Let_def case_prod_beta send_to_all_same_node)
    with True show ?thesis
      using received_new [OF assms(4,5) c, of C I] by (simp add: same_node_def)
  next
    case False
    then show ?thesis using received_new [OF assms(4,5) c, of C I] by simp
  qed
  have change: "node_change items capacity is_open (clock w) ?b1 t2 b2"
    using rpc_channel.node_steps_change [OF assms(1,7)] by simp
  have inv2: "node_inv items capacity is_open t2 b2"
    by (rule node_change_inv [OF change inv1])
  have "timed_of (cache b2) tx_id = Some (v, clock w + cache_time (bconfig b))"
  proof (rule cache_evolves_remembers [of "clock w" c])
    show "cache_evolves (clock w) c t2 (cache b2)" using change cache1 by (simp add: node_change_def)
    show "cache_inv (clock w) c" using inv1 cache1 by (simp add: node_inv_def)
    show "t2 < clock w + cache_time (bconfig b)" using assms(8,9) by simp
  qed (rule v)
  moreover have "cache_inv t2 (cache b2)" using inv2 by (simp add: node_inv_def)
  ultimately have "\<not> fst (cache_insert (clock w2) tx_id source2 (cache b2))"
    using dup.ins_accept [of t2 "cache b2" "clock w2" tx_id source2] assms(9) by simp
  then obtain c2 where c2: "cache_insert (clock w2) tx_id source2 (cache b2) = (False, c2)"
    by (metis (full_types) prod.collapse)
  let ?cap = "connection_handler_queue_len (bconfig b2) div 2"
  have "peers_ok items capacity is_open ?cap b2" "?cap < 2 ^ 64"
    using inv2 le_less_trans [OF div_le_dividend] unfolding node_inv_def by blast+
  from rpc_channel.received_duplicate_queues [OF assms(1) this assms(10) assms(11) [symmetric] c2 refl refl]
  show ?thesis by blast
qed

theorem forwarded_once_witness:
  "forwards_to list_items (handle_received_transaction list_channel sample_ops (sample_world 6) sample_raw 2
       sample_node1) 1 = forwards_to list_items sample_node1 1"
proof -
  have new: "fst (cache_insert (clock (sample_world 5)) sample_id 1 (cache sample_node))"
    by (simp add: sample_insert)
  have steps: "(node_step list_channel sample_ops list_items list_capacity list_open)\<^sup>*\<^sup>*
      (clock (sample_world 5), handle_received_transaction list_channel sample_ops (sample_world 5) sample_raw 1
         sample_node) (5, sample_node1)"
    by (simp add: sample_node1_def sample_simps)
  show ?thesis
    by (rule forwarded_once [OF lrc.rpc_channel_axioms sample_inv [of 0] _ sample_inbound_raw sample_id_def
          new steps _ _ sample_node1_inbound sample_node1_id [symmetric]])
      (simp_all add: sample_simps duration_from_secs_def)
qed

end
