(* ===== verification/Dog_Publish_Props.thy ===== *)
theory Dog_Publish_Props
  imports Dog_Node_Machine
begin

text \<open>
  What a node guarantees to the caller of \<open>publish\<close>, and what the peers that receive the
  publication make of it.
\<close>

section \<open>The recipients and the answer\<close>

lemma attempted_peers:
  assumes "key_order ps (connected_peers b)"
  shows "card {p. publish_target b p} \<le> card (dom (connected_peers b))"
    and "card {p. publish_target b p} = card (dom (connected_peers b)) \<longleftrightarrow>
      (\<forall>p \<in> dom (connected_peers b). publish_target b p)"
proof -
  have fin: "finite (dom (connected_peers b))" using assms by (metis key_order_def List.finite_set)
  have sub: "{p. publish_target b p} \<subseteq> dom (connected_peers b)" by (auto simp: publish_target_def)
  show "card {p. publish_target b p} \<le> card (dom (connected_peers b))" by (rule card_mono [OF fin sub])
  show "card {p. publish_target b p} = card (dom (connected_peers b)) \<longleftrightarrow>
      (\<forall>p \<in> dom (connected_peers b). publish_target b p)"
  proof
    assume "card {p. publish_target b p} = card (dom (connected_peers b))"
    then have "{p. publish_target b p} = dom (connected_peers b)" by (rule card_subset_eq [OF fin sub])
    then show "\<forall>p \<in> dom (connected_peers b). publish_target b p" by blast
  next
    assume "\<forall>p \<in> dom (connected_peers b). publish_target b p"
    with sub have "{p. publish_target b p} = dom (connected_peers b)" by blast
    then show "card {p. publish_target b p} = card (dom (connected_peers b))" by simp
  qed
qed

text \<open>
  C9. A publication that passes the checks is queued, once, for every connected peer with
  room whose route from this node is not disabled, and is remembered under this node's
  name. The answer is the identifier if some peer took it, \<open>AllQueuesFull\<close> with the number
  of connected peers if there are such peers and none took it, and \<open>InsufficientPeers\<close> if
  there is none. \<open>error.rs\<close> documents that number as the peers that were attempted: it is
  that exactly when no route from this node is disabled, and too high otherwise.
\<close>

theorem publish_correct:
  assumes "rpc_channel C items capacity is_open slot"
    and "peers_ok items capacity is_open cap b" and "cap < 2 ^ 64"
    and "key_order (peer_order w) (connected_peers b)"
    and "outbound_transform (data_transform b) data = Inr d" and "length d \<le> max_transmit_size (bconfig b)"
    and "build_raw_transaction I d b = Some (Inr raw, b0)"
    and "tx_id = config_transaction_id (bconfig b)
      \<lparr>tx_from = raw_from raw, tx_seqno = raw_seqno raw, tx_data = data\<rparr>"
    and "\<not> cache_contains tx_id (cache b)"
    and "m = Publish raw (Delay (clock w) (publish_queue_duration (bconfig b)))"
    and "publish C I w data b = Some (res, b')"
  shows "res =
      (if \<not> (\<exists>p. publish_target b p) then Inl InsufficientPeers
       else if \<not> (\<exists>p. publish_target b p \<and> takes items m b p)
       then Inl (AllQueuesFull (card (dom (connected_peers b))))
       else Inr tx_id)
    \<and> (\<forall>n. res = Inl (AllQueuesFull n) \<longrightarrow> card {p. publish_target b p} \<le> n
        \<and> (card {p. publish_target b p} = n \<longleftrightarrow> (\<forall>p \<in> dom (connected_peers b). publish_target b p)))
    \<and> (\<forall>p. priorities_to items b' p = priorities_to items b p
        @ (if publish_target b p \<and> takes items m b p then [m] else []))
    \<and> (\<forall>p. forwards_to items b' p = forwards_to items b p)
    \<and> cache_contains tx_id (cache b')
    \<and> router b' = router b \<and> dom (connected_peers b') = dom (connected_peers b)"
  using rpc_channel.publish_queues [OF assms] cache_insert_contains attempted_peers [OF assms(4)]
  by (auto split: if_splits)

lemma publish_panics:
  "outbound_transform (data_transform b) data = Inr d \<Longrightarrow> length d \<le> max_transmit_size (bconfig b) \<Longrightarrow>
   publish C I w data b = None \<longleftrightarrow> build_raw_transaction I d b = None"
  by (auto simp: publish_def Let_def split: option.split sum.split prod.split)

lemma sample_built:
  "\<exists>raw b0. build_raw_transaction sample_ops d sample_node = Some (Inr raw, b0) \<and> raw_from raw = 7 \<and> raw_seqno raw = 1"
  by (auto simp: build_raw_transaction_def sample_simps sequence_number_next_def sample_ops_def)

lemma sample_outbound: "outbound_transform (data_transform sample_node) d = Inr d"
  by (simp add: sample_simps identity_transform_def identity_outbound_def)

lemma sample_not_cached: "\<not> cache_contains k (cache sample_node)"
  by (simp add: sample_node_def cache_contains_def cache_new_def)

lemma sample_publish_target: "publish_target sample_node p \<longleftrightarrow> p \<in> {1, 2}"
  by (simp add: publish_target_def sample_simps)

theorem publish_correct_witness:
  "\<exists>tx_id b' m. publish list_channel sample_ops (sample_world 3) [4] sample_node = Some (Inr tx_id, b')
     \<and> priorities_to list_items b' 1 = [m] \<and> priorities_to list_items b' 2 = [m]"
proof -
  obtain raw b0 where raw: "build_raw_transaction sample_ops [4] sample_node = Some (Inr raw, b0)"
    using sample_built by blast
  have "publish list_channel sample_ops (sample_world 3) [4] sample_node \<noteq> None"
    using raw publish_panics [OF sample_outbound, of "[4]" list_channel sample_ops "sample_world 3"]
    by (simp add: sample_simps)
  then obtain res b' where pub: "publish list_channel sample_ops (sample_world 3) [4] sample_node = Some (res, b')"
    by auto
  from publish_correct [OF lrc.rpc_channel_axioms sample_peers_ok _ sample_order sample_outbound _ raw refl
      sample_not_cached refl pub] pub
  show ?thesis
    by (auto simp: sample_simps sample_publish_target sample_queues)
qed

text \<open>
  C21. Every other way a publication can end: a failing transform and data above the limit
  leave the node as it was; a failing signature and an identifier that is remembered use
  up a sequence number and change nothing else; and it panics exactly when the sequence
  numbers are exhausted.
\<close>

theorem publish_refusals:
  "(\<forall>e. outbound_transform (data_transform b) data = Inl e \<longrightarrow>
      publish C I w data b = Some (Inl (TransformFailed e), b))
   \<and> (\<forall>d. outbound_transform (data_transform b) data = Inr d \<longrightarrow>
      (if length d > max_transmit_size (bconfig b)
       then publish C I w data b = Some (Inl TransactionTooLarge, b)
       else
         (publish C I w data b = None \<longleftrightarrow> unat (seqno_of (publish_config b)) = 2 ^ 64 - 1)
         \<and> (\<forall>e b0. build_raw_transaction I d b = Some (Inl e, b0) \<longrightarrow>
              publish C I w data b = Some (Inl e, b0) \<and> (\<exists>s. e = SigningError s)
              \<and> b0 = b\<lparr>publish_config := publish_config b0\<rparr>)
         \<and> (\<forall>raw b0. build_raw_transaction I d b = Some (Inr raw, b0) \<longrightarrow>
              cache_contains (config_transaction_id (bconfig b)
                \<lparr>tx_from = raw_from raw, tx_seqno = raw_seqno raw, tx_data = data\<rparr>) (cache b) \<longrightarrow>
              publish C I w data b = Some (Inl Duplicate, b0)
              \<and> b0 = b\<lparr>publish_config := publish_config b0\<rparr>)))"
proof -
  have "publish C I w data b = Some (Inl Duplicate, b0)"
    if "outbound_transform (data_transform b) data = Inr d" "\<not> length d > max_transmit_size (bconfig b)"
      and raw: "build_raw_transaction I d b = Some (Inr raw, b0)"
      and dup: "cache_contains (config_transaction_id (bconfig b)
        \<lparr>tx_from = raw_from raw, tx_seqno = raw_seqno raw, tx_data = data\<rparr>) (cache b)" for d raw b0
  proof -
    have "bconfig b0 = bconfig b" "cache b0 = cache b"
      by (subst build_raw_transaction_cases(1) [OF raw], simp)+
    with that show ?thesis by (simp add: publish_def)
  qed
  then show ?thesis
    using publish_rejected [of b data _ C I w] publish_panics [of b data _ C I w] build_raw_transaction_panic [of I _ b]
      build_raw_transaction_cases(1) [of I _ b] build_raw_transaction_cases(5) [of I _ b]
    by (auto simp: publish_def not_less)
qed

theorem publish_refusals_witness:
  "publish list_channel sample_ops (sample_world 3) [4]
     (sample_node\<lparr>publish_config := PublishAuthor 7 (- 1)\<rparr>) = None"
proof -
  let ?b = "sample_node\<lparr>publish_config := PublishAuthor 7 (- 1)\<rparr>"
  have "outbound_transform (data_transform ?b) [4] = Inr [4]" "length [4 :: byte] \<le> max_transmit_size (bconfig ?b)"
    using sample_outbound [of "[4]"] by (simp_all add: sample_simps)
  moreover have "unat (seqno_of (publish_config ?b)) = 2 ^ 64 - 1"
    by (simp add: unsigned_minus_1_eq_mask mask_eq_exp_minus_1)
  ultimately show ?thesis
    using publish_refusals [of ?b "[4]" list_channel sample_ops "sample_world 3"] by auto
qed

section \<open>Trying again\<close>

text \<open>
  C37. With identifiers that do not depend on the sequence number (such as a digest of the
  content), a publication that failed because nobody could take it cannot be repeated
  while it is remembered: the second attempt is refused as a duplicate.
\<close>

theorem failed_publish_blocks_retry:
  assumes "rpc_channel C items capacity is_open slot"
    and "peers_ok items capacity is_open cap b" and "cap < 2 ^ 64"
    and "key_order (peer_order w) (connected_peers b)"
    and "outbound_transform (data_transform b) data = Inr d" and "length d \<le> max_transmit_size (bconfig b)"
    and "build_raw_transaction I d b = Some (Inr raw, b0)"
    and "\<not> cache_contains (config_transaction_id (bconfig b)
      \<lparr>tx_from = raw_from raw, tx_seqno = raw_seqno raw, tx_data = data\<rparr>) (cache b)"
    and "\<And>p s s' x. config_transaction_id (bconfig b) \<lparr>tx_from = p, tx_seqno = s, tx_data = x\<rparr>
      = config_transaction_id (bconfig b) \<lparr>tx_from = p, tx_seqno = s', tx_data = x\<rparr>"
    and "publish C I w data b = Some (Inl e, b')"
    and "build_raw_transaction I d b' = Some (Inr raw', b1)"
  shows "(e = InsufficientPeers \<or> e = AllQueuesFull (card (dom (connected_peers b))))
    \<and> publish C I w' data b' = Some (Inl Duplicate, b1)"
proof -
  let ?id = "config_transaction_id (bconfig b) \<lparr>tx_from = raw_from raw, tx_seqno = raw_seqno raw, tx_data = data\<rparr>"
  note first = rpc_channel.publish_queues [OF assms(1-7) refl assms(8) refl assms(10)]
  have b': "bconfig b' = bconfig b" "data_transform b' = data_transform b" "publish_config b' = publish_config b0"
    and seen: "cache_contains ?id (cache b')"
    using first cache_insert_contains by simp_all
  have "raw_from raw = get_own_id (publish_config b)"
    using build_raw_transaction_cases(4) [OF assms(7) refl] by simp
  moreover have "raw_from raw' = get_own_id (publish_config b')"
    using build_raw_transaction_cases(4) [OF assms(11) refl] by simp
  ultimately have "raw_from raw' = raw_from raw"
    using build_raw_transaction_cases(2) [OF assms(7)] b'(3) by simp
  then have "config_transaction_id (bconfig b1)
      \<lparr>tx_from = raw_from raw', tx_seqno = raw_seqno raw', tx_data = data\<rparr> = ?id"
    using assms(9) b'(1) by (subst build_raw_transaction_cases(1) [OF assms(11)]) simp
  moreover have "cache b1 = cache b'"
    by (subst build_raw_transaction_cases(1) [OF assms(11)]) simp
  ultimately have "publish C I w' data b' = Some (Inl Duplicate, b1)"
    using assms(5,6,11) b' seen by (simp add: publish_def)
  then show ?thesis using first by (auto split: if_splits)
qed

definition lonely_node :: "(byte, byte, byte rpc_out list_queue) behaviour" where
  "lonely_node = sample_node\<lparr>connected_peers := Map.empty,
     bconfig := (bconfig sample_node)\<lparr>transaction_id_fn := \<lambda>tx. TransactionId (tx_data tx)\<rparr>\<rparr>"

lemma lonely_simps:
  "outbound_transform (data_transform lonely_node) d = Inr d" "max_transmit_size (bconfig lonely_node) = 65536"
  "connected_peers lonely_node = Map.empty" "peers_ok list_items list_capacity list_open 2500 lonely_node"
  "config_transaction_id (bconfig lonely_node) tx = TransactionId (tx_data tx)"
  "\<not> cache_contains k (cache lonely_node)"
  "publish_config lonely_node = Signing 7 7 None 0"
  using sample_outbound [of d] sample_simps(5) sample_not_cached [of k]
  by (simp_all add: lonely_node_def max_transmit_size_def peers_ok_def config_transaction_id_def sample_simps)

lemma sample_build:
  "\<exists>raw b0. build_raw_transaction sample_ops d b = Some (Inr raw, b0)"
  if "publish_config b = Signing kp own key n" and "unat n < 100"
  using that by (auto simp: build_raw_transaction_def sequence_number_next_def sample_ops_def)

theorem failed_publish_blocks_retry_witness:
  "\<exists>b' b1. publish list_channel sample_ops (sample_world 3\<lparr>peer_order := []\<rparr>) [4] lonely_node
       = Some (Inl InsufficientPeers, b')
     \<and> publish list_channel sample_ops (sample_world 4) [4] b' = Some (Inl Duplicate, b1)"
proof -
  let ?w = "sample_world 3\<lparr>peer_order := []\<rparr>"
  obtain raw b0 where raw: "build_raw_transaction sample_ops [4] lonely_node = Some (Inr raw, b0)"
    using sample_build [OF lonely_simps(7), of "[4]"] by auto
  have order: "key_order (peer_order ?w) (connected_peers lonely_node)"
    by (simp add: lonely_simps)
  obtain res b' where pub: "publish list_channel sample_ops ?w [4] lonely_node = Some (res, b')"
    using raw publish_panics [OF lonely_simps(1), of "[4]" list_channel sample_ops ?w]
    by (auto simp: lonely_simps)
  note first = lrc.publish_queues [OF lonely_simps(4) _ order lonely_simps(1) _ raw refl lonely_simps(6) refl pub]
  have res: "res = Inl InsufficientPeers" "publish_config b' = publish_config b0"
    using first by (simp_all add: lonely_simps publish_target_def)
  have "publish_config b0 = Signing 7 7 None 1"
    using raw by (auto simp: build_raw_transaction_def lonely_simps sequence_number_next_def sample_ops_def)
  with res obtain raw' b1 where "build_raw_transaction sample_ops [4] b' = Some (Inr raw', b1)"
    using sample_build [of b' 7 7 None 1 "[4]"] by auto
  from failed_publish_blocks_retry [OF lrc.rpc_channel_axioms lonely_simps(4) _ order lonely_simps(1) _ raw
      lonely_simps(6) _ pub [unfolded res] this, of "sample_world 4"] pub res
  show ?thesis by (auto simp: lonely_simps)
qed

section \<open>Signatures and sequence numbers\<close>

lemma signed_publication_decodes:
  assumes "libp2p_laws I"
    and "publish_config_of I nanos (Signed kp) = Signing kp own_id key n0"
    and "publish_config b = Signing kp own_id key n"
    and "build_raw_transaction I d b = Some (Inr raw, b')"
    and "frame_decode F (codec_max_length c) src = (Inr (Some (rpc_out_into_protobuf I (Publish raw timeout))), src')"
  shows "\<exists>raw'. codec_decode I F strangers c src =
      Some (Inr (Some (TransactionEvent \<lparr>rpc_transactions = [raw'], rpc_control_msgs = []\<rparr> [])), src')
    \<and> raw_from raw' = own_id \<and> raw_seqno raw' = raw_seqno raw \<and> raw_data raw' = d"
proof -
  let ?t = "proto_of_raw_transaction I raw"
  have acc: "accepted I (codec_validation_mode c) ?t" and own: "author I ?t = own_id"
    using built_transaction_accepted [OF assms(1-4)] by (auto simp: accepted_def)
  from libp2p_laws.decode_transactions_no_panic [OF assms(1)] obtain valid invalid where
    dec: "decode_transactions I (codec_validation_mode c) strangers 0 [?t] = Some (valid, invalid)"
    by (metis option.exhaust surj_pair)
  from decode_transactions_accepted [OF dec] acc own
  have "valid = [raw_of_proto own_id ?t]" "invalid = []" by simp_all
  with dec assms(5) build_raw_transaction_cases(4) [OF assms(4) refl] show ?thesis
    by (auto simp: codec_decode_def rpc_out_into_protobuf_def decode_control_def raw_of_proto_def
        proto_of_raw_transaction_def)
qed

text \<open>
  C10. What a signing node publishes, its peers accept: in every validation mode the codec of
  a peer that reads the encoded publication delivers it, with its author, sequence number
  and data, and reports nothing as invalid.
\<close>

theorem signed_publication_accepted:
  assumes "libp2p_laws I"
    and "publish_config_of I nanos (Signed kp) = Signing kp own_id key n0"
    and "publish_config b = Signing kp own_id key n"
    and "build_raw_transaction I d b = Some (Inr raw, b')"
    and "frame_decode F (codec_max_length c) src = (Inr (Some (rpc_out_into_protobuf I (Publish raw timeout))), src')"
  shows "\<exists>raw'. codec_decode I F strangers c src =
      Some (Inr (Some (TransactionEvent \<lparr>rpc_transactions = [raw'], rpc_control_msgs = []\<rparr> [])), src')
    \<and> raw_from raw' = own_id \<and> raw_seqno raw' = raw_seqno raw \<and> raw_data raw' = d"
  using assms by (rule signed_publication_decodes)

theorem signed_publication_accepted_witness:
  "\<exists>raw b0 raw'. build_raw_transaction sample_ops [4] sample_node = Some (Inr raw, b0)
    \<and> codec_decode sample_ops sample_frames (\<lambda>i. 0) (dog_codec_new 100 Strict)
        [rpc_out_into_protobuf sample_ops (Publish raw (Delay 0 0))] =
      Some (Inr (Some (TransactionEvent \<lparr>rpc_transactions = [raw'], rpc_control_msgs = []\<rparr> [])), [])
    \<and> raw_from raw' = 7 \<and> raw_data raw' = [4]"
proof -
  obtain raw b0 where raw: "build_raw_transaction sample_ops [4] sample_node = Some (Inr raw, b0)"
    using sample_built by blast
  have "publish_config_of sample_ops 0 (Signed 7) = Signing 7 7 None (sequence_number_new 0)"
    by (simp add: sample_ops_def Let_def)
  moreover have "frame_decode sample_frames (codec_max_length (dog_codec_new 100 Strict))
      [rpc_out_into_protobuf sample_ops (Publish raw (Delay 0 0))] =
      (Inr (Some (rpc_out_into_protobuf sample_ops (Publish raw (Delay 0 0)))), [])"
    by (simp add: sample_frames_def)
  ultimately show ?thesis
    using signed_publication_accepted [OF sample_laws.libp2p_laws_axioms _ sample_simps(9) raw, of 0 _
        sample_frames] raw
    by blast
qed

text \<open>
  C20. Sequence numbers strictly increase over the life of a node, so with the default
  identifiers no two transactions it builds have the same one.
\<close>

theorem sequence_numbers_increase:
  assumes "rpc_channel C items capacity is_open slot"
    and "build_raw_transaction I d b0 = Some (Inr raw, b)"
    and "(node_step C I items capacity is_open)\<^sup>*\<^sup>* (t, b) (t', b')"
    and "build_raw_transaction I d' b' = Some (Inr raw', b1)"
  shows "unat (raw_seqno raw) < unat (raw_seqno raw') \<and> raw_from raw' = raw_from raw
    \<and> default_transaction_id I \<lparr>tx_from = raw_from raw, tx_seqno = raw_seqno raw, tx_data = x\<rparr>
      \<noteq> default_transaction_id I \<lparr>tx_from = raw_from raw', tx_seqno = raw_seqno raw', tx_data = x'\<rparr>"
proof -
  have "unat (seqno_of (publish_config b)) \<le> unat (seqno_of (publish_config b'))"
    and "get_own_id (publish_config b') = get_own_id (publish_config b)"
    using rpc_channel.node_steps_change [OF assms(1,3)] by (simp_all add: node_change_def)
  then have "unat (raw_seqno raw) < unat (raw_seqno raw')" "raw_from raw' = raw_from raw"
    using build_raw_transaction_cases(2-4) [OF assms(2)] build_raw_transaction_cases(2-4) [OF assms(4)]
    by simp_all
  then show ?thesis by (auto simp: default_transaction_id_def)
qed

theorem sequence_numbers_increase_witness:
  "\<exists>raw b raw' b1. build_raw_transaction sample_ops [4] sample_node = Some (Inr raw, b)
     \<and> build_raw_transaction sample_ops [4] b = Some (Inr raw', b1)
     \<and> unat (raw_seqno raw) < unat (raw_seqno raw')"
proof -
  obtain raw b where raw: "build_raw_transaction sample_ops [4] sample_node = Some (Inr raw, b)"
    using sample_built by blast
  have "publish_config b = Signing 7 7 None 1"
    using raw by (auto simp: build_raw_transaction_def sample_simps sequence_number_next_def sample_ops_def)
  then obtain raw' b1 where raw': "build_raw_transaction sample_ops [4] b = Some (Inr raw', b1)"
    using sample_build [of b 7 7 None 1 "[4]"] by auto
  from sequence_numbers_increase [OF lrc.rpc_channel_axioms raw rtranclp.rtrancl_refl raw'] raw raw'
  show ?thesis by blast
qed

end
