(* ===== verification/Dog_Routing.thy ===== *)
theory Dog_Routing
  imports Dog_Node_Machine
begin

text \<open>
  How the operations of a node change its disabled routes and its \<open>HaveTx\<close> bookkeeping.
\<close>

section \<open>Operations that leave the routes alone\<close>

lemma adjust_redundancy_cases [consumes 1, case_names quiet refused sent]:
  assumes e: "evaluate (redundancy_controller b) = ((r, reset), c)"
  obtains (quiet) "\<not> reset \<or> get_random_have_tx_sent_peer (have_tx_order w) (draw w) (router b) = None"
      and "adjust_redundancy C I w b =
        (with_metrics (set_redundancy r) b)\<lparr>redundancy_controller := reset_counters c\<rparr>"
  | (refused) p b2 where "reset" and "get_random_have_tx_sent_peer (have_tx_order w) (draw w) (router b) = Some p"
      and "send_transaction C I p (SendResetRoute ResetRoute) (b\<lparr>redundancy_controller := c\<rparr>) = (False, b2)"
      and "adjust_redundancy C I w b =
        (with_metrics (set_redundancy r) b2)\<lparr>redundancy_controller := reset_counters c\<rparr>"
  | (sent) p b2 where "reset" and "get_random_have_tx_sent_peer (have_tx_order w) (draw w) (router b) = Some p"
      and "send_transaction C I p (SendResetRoute ResetRoute) (b\<lparr>redundancy_controller := c\<rparr>) = (True, b2)"
      and "adjust_redundancy C I w b =
        (with_metrics (set_redundancy r) (push_event (ResetRouteSent p) (with_metrics register_reset_route_sent
          (b2\<lparr>router := remove_have_tx_sent p (router b)\<rparr>))))\<lparr>redundancy_controller := reset_counters c\<rparr>"
proof (cases "reset \<and> get_random_have_tx_sent_peer (have_tx_order w) (draw w) (router b) \<noteq> None")
  case False
  then show thesis
    by (intro quiet)
      (auto simp: adjust_redundancy_def e Let_def with_metrics_def split: option.split)
next
  case True
  then obtain p where p: "reset" "get_random_have_tx_sent_peer (have_tx_order w) (draw w) (router b) = Some p"
    by auto
  obtain ok b2 where s: "send_transaction C I p (SendResetRoute ResetRoute) (b\<lparr>redundancy_controller := c\<rparr>) = (ok, b2)"
    by fastforce
  have "same_node (b\<lparr>redundancy_controller := c\<rparr>) b2"
    using send_transaction_same_node [of "b\<lparr>redundancy_controller := c\<rparr>" C I p "SendResetRoute ResetRoute"] s by simp
  then have b2: "redundancy_controller b2 = c" "router b2 = router b"
    by (simp_all add: same_node_def)
  show thesis
  proof (cases ok)
    case True
    with p s b2 show thesis
      by (intro sent [of p b2]) (simp_all add: adjust_redundancy_def e Let_def)
  next
    case False
    with p s b2 show thesis
      by (intro refused [of p b2]) (simp_all add: adjust_redundancy_def e Let_def)
  qed
qed

lemma adjust_redundancy_frame [simp]:
  "disabled_routes (router (adjust_redundancy C I w b)) = disabled_routes (router b)"
  "cache (adjust_redundancy C I w b) = cache b"
  "bconfig (adjust_redundancy C I w b) = bconfig b"
  "data_transform (adjust_redundancy C I w b) = data_transform b"
  "dom (connected_peers (adjust_redundancy C I w b)) = dom (connected_peers b)"
proof -
  obtain r reset c where e: "evaluate (redundancy_controller b) = ((r, reset), c)"
    by (metis prod.collapse)
  have same: "same_node (b\<lparr>redundancy_controller := c\<rparr>) b2"
    if "send_transaction C I p (SendResetRoute ResetRoute) (b\<lparr>redundancy_controller := c\<rparr>) = (ok, b2)" for p ok b2
    using send_transaction_same_node [of "b\<lparr>redundancy_controller := c\<rparr>" C I p "SendResetRoute ResetRoute"] that by simp
  have "disabled_routes (router (adjust_redundancy C I w b)) = disabled_routes (router b)
    \<and> cache (adjust_redundancy C I w b) = cache b \<and> bconfig (adjust_redundancy C I w b) = bconfig b
    \<and> data_transform (adjust_redundancy C I w b) = data_transform b
    \<and> dom (connected_peers (adjust_redundancy C I w b)) = dom (connected_peers b)"
    using e
  proof (cases rule: adjust_redundancy_cases [where w = w and C = C and I = I])
    case quiet
    then show ?thesis by simp
  next
    case (refused p b2)
    then show ?thesis using same [OF refused(3)] by (simp add: same_node_def)
  next
    case (sent p b2)
    then show ?thesis using same [OF sent(3)] by (simp add: same_node_def frame)
  qed
  then show "disabled_routes (router (adjust_redundancy C I w b)) = disabled_routes (router b)"
    "cache (adjust_redundancy C I w b) = cache b" "bconfig (adjust_redundancy C I w b) = bconfig b"
    "data_transform (adjust_redundancy C I w b) = data_transform b"
    "dom (connected_peers (adjust_redundancy C I w b)) = dom (connected_peers b)" by simp_all
qed

lemma send_to_all_router: "router (snd (send_to_all C I m tx_id tx ps b)) = router b"
  using send_to_all_same_node [of b C I m tx_id tx ps] by (simp add: same_node_def)

lemma forward_router: "router (snd (forward_transaction C I w tx_id raw source b)) = router b"
  by (auto simp: forward_transaction_def Let_def case_prod_beta send_to_all_router)

lemma publish_routes:
  assumes "publish C I w data b = Some (res, b')"
  shows "disabled_routes (router b') = disabled_routes (router b)"
proof (cases "\<exists>d. outbound_transform (data_transform b) data = Inr d \<and> length d \<le> max_transmit_size (bconfig b)")
  case False
  then show ?thesis
    using assms publish_rejected [of b data _ C I w]
    by (cases "outbound_transform (data_transform b) data") (auto simp: not_le)
next
  case True
  then obtain d where d: "outbound_transform (data_transform b) data = Inr d"
    "\<not> max_transmit_size (bconfig b) < length d" by auto
  then obtain built b0 where raw: "build_raw_transaction I d b = Some (built, b0)"
    using assms by (auto simp: publish_def split: option.splits)
  have b0: "router b0 = router b"
    by (subst build_raw_transaction_cases(1) [OF raw]) simp
  show ?thesis
  proof (cases built)
    case (Inl e)
    with assms d raw b0 show ?thesis by (simp add: publish_def)
  next
    case (Inr rt)
    with assms d raw b0 show ?thesis
      by (auto simp: publish_def Let_def case_prod_beta send_to_all_router split: if_splits)
  qed
qed

lemma received_routes [simp]:
  "disabled_routes (router (handle_received_transaction C I w raw source b)) = disabled_routes (router b)"
proof (cases "inbound_transform (data_transform b) raw")
  case (Inl e)
  then show ?thesis by (simp add: received_invalid)
next
  case (Inr tx)
  obtain tx_id where id: "tx_id = config_transaction_id (bconfig b) tx" by blast
  obtain is_new c where c: "cache_insert (clock w) tx_id source (cache b) = (is_new, c)" by fastforce
  show ?thesis
  proof (cases is_new)
    case True
    note c = c [unfolded eqTrueI [OF True]]
    show ?thesis by (simp add: received_new [OF Inr id c] forward_router)
  next
    case False
    then have c: "cache_insert (clock w) tx_id source (cache b) = (False, c)" using c by simp
    let ?d = "duplicate_received I raw source tx_id tx c b"
    obtain ok b2 where s: "send_transaction C I source (HaveTx \<lparr>have_tx_id = tx_id\<rparr>) ?d = (ok, b2)" by fastforce
    have "router b2 = router b"
      using send_transaction_same_node [of ?d C I source "HaveTx \<lparr>have_tx_id = tx_id\<rparr>"] s
      by (simp add: same_node_def)
    with s show ?thesis
      unfolding received_duplicate [OF Inr id c] by (cases ok) (simp_all add: Let_def frame)
  qed
qed

lemma receive_all_routes [simp]:
  "disabled_routes (router (receive_all C I ws source i raws b)) = disabled_routes (router b)"
  by (induction raws arbitrary: i b) simp_all

section \<open>Control messages\<close>

lemma set_have_tx_ids:
  "set (List.map_filter (\<lambda>c. map_option have_tx_id (have_tx_of_action c)) cs)
     = {tx_id. HaveTxAction \<lparr>have_tx_id = tx_id\<rparr> \<in> set cs}"
proof (induction cs)
  case Nil
  show ?case by (simp add: List.map_filter_def)
next
  case (Cons c cs)
  show ?case
  proof (cases c)
    case (HaveTxAction h)
    have "HaveTxAction \<lparr>have_tx_id = tx_id\<rparr> = HaveTxAction h \<longleftrightarrow> tx_id = have_tx_id h" for tx_id
      by (cases h) auto
    with Cons.IH HaveTxAction show ?thesis by (auto simp: List.map_filter_simps)
  next
    case (ResetRouteAction x)
    with Cons.IH show ?thesis by (simp add: List.map_filter_simps)
  qed
qed

lemma reset_route_in: "list_ex (\<lambda>c. reset_route_of_action c \<noteq> None) cs \<longleftrightarrow> ResetRouteAction ResetRoute \<in> set cs"
proof -
  have "reset_route_of_action c \<noteq> None \<longleftrightarrow> c = ResetRouteAction ResetRoute" for c
    by (cases c; cases "reset_route_of_action c") (auto, metis reset_route.exhaust)
  then show ?thesis by (induction cs) auto
qed

lemma set_routes_for:
  "set (routes_for tx_ids peer c) =
     {route_new source peer | source tx_id. tx_id \<in> set tx_ids \<and> cache_get tx_id c = Some source \<and> source \<noteq> peer}"
proof -
  have "set (List.map_filter f xs) = {y. \<exists>x \<in> set xs. f x = Some y}" for f :: "transaction_id \<Rightarrow> 'a option" and xs
    by (induction xs) (auto simp: List.map_filter_simps split: option.splits)
  then show ?thesis by (auto simp: routes_for_def)
qed

lemma reset_route_routes:
  "set (disabled_routes (router (handle_reset_route w peer b))) \<subseteq> set (disabled_routes (router b))"
  "r \<in> set (disabled_routes (router b)) \<Longrightarrow> r \<notin> set (disabled_routes (router (handle_reset_route w peer b))) \<Longrightarrow>
     route_target r = peer"
proof -
  have *: "set (disabled_routes (router (handle_reset_route w peer b))) \<subseteq> set (disabled_routes (router b))
    \<and> (\<forall>r \<in> set (disabled_routes (router b)). r \<notin> set (disabled_routes (router (handle_reset_route w peer b)))
         \<longrightarrow> route_target r = peer)"
  proof (cases "enable_random_route_to_peer (draw w) peer (router b)")
    case (Pair res r')
    show ?thesis
    proof (cases res)
      case None
      with Pair rt.enable_None [of "draw w" peer "router b" r'] show ?thesis
        by (simp add: handle_reset_route_def Let_def)
    next
      case (Some route)
      with Pair rt.enable_Some [of "draw w" peer "router b" route r']
      have r': "route_target route = peer" "mset (disabled_routes r') = mset (disabled_routes (router b)) - {#route#}"
        by simp_all
      have "set (disabled_routes r') \<subseteq> set (disabled_routes (router b))"
        using r'(2) by (metis in_diffD set_mset_mset subsetI)
      moreover have "x \<in> set (disabled_routes r')" if "x \<in> set (disabled_routes (router b))" "x \<noteq> route" for x
      proof -
        from that have "0 < Multiset.count (mset (disabled_routes (router b)) - {#route#}) x"
          by (simp add: count_greater_zero_iff)
        then show ?thesis by (simp add: r'(2) [symmetric])
      qed
      moreover have "router (handle_reset_route w peer b) = r'"
        using Pair Some by (simp add: handle_reset_route_def Let_def)
      ultimately show ?thesis using r'(1) by auto
    qed
  qed
  then show "set (disabled_routes (router (handle_reset_route w peer b))) \<subseteq> set (disabled_routes (router b))"
    and "r \<in> set (disabled_routes (router b)) \<Longrightarrow> r \<notin> set (disabled_routes (router (handle_reset_route w peer b))) \<Longrightarrow>
      route_target r = peer"
    by blast+
qed

text \<open>What a message from a peer does to the disabled routes.\<close>

lemma message_routes:
  assumes "b' = on_connection_handler_event C I ws w peer (TransactionEvent m invalid) b"
    and "b1 = receive_all C I ws peer 0 (rpc_transactions m) b"
  shows "r \<in> set (disabled_routes (router b')) \<Longrightarrow> r \<notin> set (disabled_routes (router b)) \<Longrightarrow>
      route_target r = peer \<and> route_source r \<noteq> peer \<and> \<not> ignore_have_tx (bconfig b1)
      \<and> (\<exists>tx_id. HaveTxAction \<lparr>have_tx_id = tx_id\<rparr> \<in> set (rpc_control_msgs m)
           \<and> cache_get tx_id (cache b1) = Some (route_source r))"
    and "r \<in> set (disabled_routes (router b)) \<Longrightarrow> r \<notin> set (disabled_routes (router b')) \<Longrightarrow>
      route_target r = peer \<and> ResetRouteAction ResetRoute \<in> set (rpc_control_msgs m)"
proof -
  let ?ids = "List.map_filter (\<lambda>c. map_option have_tx_id (have_tx_of_action c)) (rpc_control_msgs m)"
  define b2 where "b2 = (if ?ids \<noteq> [] \<and> \<not> ignore_have_tx (bconfig b1) then handle_have_tx ?ids peer b1 else b1)"
  have b': "b' = (if ResetRouteAction ResetRoute \<in> set (rpc_control_msgs m) then handle_reset_route w peer b2 else b2)"
    unfolding assms b2_def reset_route_in [symmetric] by (simp add: on_connection_handler_event_def Let_def)
  have b1: "disabled_routes (router b1) = disabled_routes (router b)"
    by (simp add: assms(2))
  have b2: "set (disabled_routes (router b2)) = set (disabled_routes (router b)) \<union>
      (if ignore_have_tx (bconfig b1) then {} else set (routes_for ?ids peer (cache b1)))"
    using b1 by (auto simp: b2_def handle_have_tx_eq set_routes_for)
  show "route_target r = peer \<and> route_source r \<noteq> peer \<and> \<not> ignore_have_tx (bconfig b1)
      \<and> (\<exists>tx_id. HaveTxAction \<lparr>have_tx_id = tx_id\<rparr> \<in> set (rpc_control_msgs m)
           \<and> cache_get tx_id (cache b1) = Some (route_source r))"
    if "r \<in> set (disabled_routes (router b'))" "r \<notin> set (disabled_routes (router b))"
  proof -
    have "r \<in> set (disabled_routes (router b2))"
      using that(1) b' reset_route_routes(1) [of w peer b2] by (auto split: if_splits)
    with that(2) b2 have "\<not> ignore_have_tx (bconfig b1)" and "r \<in> set (routes_for ?ids peer (cache b1))"
      by (auto split: if_splits)
    then show ?thesis by (auto simp: set_routes_for set_have_tx_ids route_new_def)
  qed
  show "route_target r = peer \<and> ResetRouteAction ResetRoute \<in> set (rpc_control_msgs m)"
    if "r \<in> set (disabled_routes (router b))" "r \<notin> set (disabled_routes (router b'))"
    using that b' b2 reset_route_routes(2) [of r b2 w peer] by (auto split: if_splits)
qed

text \<open>A message with control messages only does nothing but change routes.\<close>

lemma control_message_eq:
  assumes "b' = on_connection_handler_event C I ws w peer (TransactionEvent m invalid) b"
    and "rpc_transactions m = []" and "ResetRouteAction ResetRoute \<notin> set (rpc_control_msgs m)"
    and "tx_ids = List.map_filter (\<lambda>c. map_option have_tx_id (have_tx_of_action c)) (rpc_control_msgs m)"
    and "tx_ids \<noteq> []" and "\<not> ignore_have_tx (bconfig b)"
  shows "b' = handle_have_tx tx_ids peer b"
proof -
  have "\<not> list_ex (\<lambda>c. reset_route_of_action c \<noteq> None) (rpc_control_msgs m)"
    using assms(3) unfolding reset_route_in .
  with assms show ?thesis
    unfolding on_connection_handler_event_def by (simp only: Let_def handler_event.case receive_all.simps) simp
qed

context rpc_channel
begin

text \<open>Nobody gets a transaction over a disabled route, new or not.\<close>

lemma disabled_route_silent:
  assumes ok: "peers_ok items capacity is_open cap b" and cap: "cap < 2 ^ 64"
    and order: "key_order (peer_order w) (connected_peers b)"
    and route: "route_new source p \<in> set (disabled_routes (router b))"
  shows "forwards_to items (handle_received_transaction C I w raw source b) p = forwards_to items b p"
proof (cases "inbound_transform (data_transform b) raw")
  case (Inl e)
  then show ?thesis by (simp add: received_invalid)
next
  case (Inr tx)
  obtain tx_id where id: "tx_id = config_transaction_id (bconfig b) tx" by blast
  obtain is_new c where c: "cache_insert (clock w) tx_id source (cache b) = (is_new, c)" by fastforce
  show ?thesis
  proof (cases is_new)
    case True
    note c = c [unfolded eqTrueI [OF True]]
    from received_new_queues [OF ok cap order Inr id c refl refl, of I] route
    show ?thesis by (auto simp: valid_target_def)
  next
    case False
    then have "cache_insert (clock w) tx_id source (cache b) = (False, c)" using c by simp
    from received_duplicate_queues [OF ok cap Inr id this refl refl] show ?thesis by blast
  qed
qed

end

section \<open>HaveTx sent\<close>

text \<open>
  The \<open>HaveTxSent\<close> events a node has pushed. Every handler of a message keeps the number of
  them less the block of \<open>HaveTx\<close>: one is sent exactly when the block is set.
\<close>

definition is_have_tx_sent :: "'p event \<Rightarrow> bool" where
  "is_have_tx_sent e = (case e of HaveTxSent p tx_id \<Rightarrow> True | _ \<Rightarrow> False)"

definition have_txs_sent :: "('p, 'k, 'q) behaviour \<Rightarrow> nat" where
  "have_txs_sent b = length (filter is_have_tx_sent (events b))"

definition have_tx_balance :: "('p, 'k, 'q) behaviour \<Rightarrow> ('p, 'k, 'q) behaviour \<Rightarrow> bool" where
  "have_tx_balance b b' \<longleftrightarrow>
     have_tx_blocked (redundancy_controller b) \<le> have_tx_blocked (redundancy_controller b')
     \<and> have_txs_sent b' + of_bool (have_tx_blocked (redundancy_controller b))
       = have_txs_sent b + of_bool (have_tx_blocked (redundancy_controller b'))"

lemma have_tx_balance_refl [simp]: "have_tx_balance b b"
  by (simp add: have_tx_balance_def)

lemma have_tx_balance_trans: "have_tx_balance a b \<Longrightarrow> have_tx_balance b c \<Longrightarrow> have_tx_balance a c"
  by (auto simp: have_tx_balance_def)

lemma is_have_tx_sent_simps [simp]:
  "\<not> is_have_tx_sent (TransactionReceived p i x)" "\<not> is_have_tx_sent (TransactionSent p i x)"
  "\<not> is_have_tx_sent (HaveTxReceived p i)" "is_have_tx_sent (HaveTxSent p i)"
  "\<not> is_have_tx_sent (ResetRouteReceived p)" "\<not> is_have_tx_sent (ResetRouteSent p)"
  "\<not> is_have_tx_sent (RoutingUpdated rs)"
  by (simp_all add: is_have_tx_sent_def)

lemma have_tx_balance_quiet:
  assumes "filter is_have_tx_sent (events b') = filter is_have_tx_sent (events b)"
    and "have_tx_blocked (redundancy_controller b') = have_tx_blocked (redundancy_controller b)"
  shows "have_tx_balance b b'"
  using assms by (simp add: have_tx_balance_def have_txs_sent_def)

lemma send_to_all_events:
  "filter is_have_tx_sent (events (snd (send_to_all C I m tx_id tx ps b))) = filter is_have_tx_sent (events b)"
proof (induction ps arbitrary: b)
  case (Cons p ps)
  obtain ok b1 where s: "send_transaction C I p m b = (ok, b1)" by fastforce
  then have "events b1 = events b" using send_transaction_events [of C I p m b] by simp
  with s Cons.IH [of b1] Cons.IH [of "push_event (TransactionSent p tx_id tx) b1"] show ?case
    by (cases ok) (simp_all add: case_prod_beta)
qed simp

lemma forward_balance: "have_tx_balance b (snd (forward_transaction C I w tx_id raw source b))"
proof (rule have_tx_balance_quiet)
  show "filter is_have_tx_sent (events (snd (forward_transaction C I w tx_id raw source b)))
      = filter is_have_tx_sent (events b)"
    by (simp add: forward_transaction_def Let_def case_prod_beta send_to_all_events)
  have "redundancy_controller (snd (send_to_all C I m i x ps b)) = redundancy_controller b" for m i x ps
    using send_to_all_same_node [of b C I m i x ps] by (simp add: same_node_def)
  then show "have_tx_blocked (redundancy_controller (snd (forward_transaction C I w tx_id raw source b)))
      = have_tx_blocked (redundancy_controller b)"
    by (simp add: forward_transaction_def Let_def case_prod_beta)
qed

lemma received_balance: "have_tx_balance b (handle_received_transaction C I w raw source b)"
proof (cases "inbound_transform (data_transform b) raw")
  case (Inl e)
  then show ?thesis by (intro have_tx_balance_quiet) (simp_all add: received_invalid)
next
  case (Inr tx)
  obtain tx_id where id: "tx_id = config_transaction_id (bconfig b) tx" by blast
  obtain is_new c where c: "cache_insert (clock w) tx_id source (cache b) = (is_new, c)" by fastforce
  show ?thesis
  proof (cases is_new)
    case True
    have "have_tx_balance b (new_received I raw source tx_id tx c b)"
      by (rule have_tx_balance_quiet) (simp_all add: incr_first_time_txs_count_def)
    then show ?thesis
      unfolding received_new [OF Inr id c [unfolded eqTrueI [OF True]]]
      using have_tx_balance_trans forward_balance by fastforce
  next
    case False
    then have c: "cache_insert (clock w) tx_id source (cache b) = (False, c)" using c by simp
    let ?d = "duplicate_received I raw source tx_id tx c b"
    have d: "filter is_have_tx_sent (events ?d) = filter is_have_tx_sent (events b)"
      "have_tx_blocked (redundancy_controller ?d) = have_tx_blocked (redundancy_controller b)"
      by (simp_all add: incr_duplicate_txs_count_def)
    obtain ok b2 where s: "send_transaction C I source (HaveTx \<lparr>have_tx_id = tx_id\<rparr>) ?d = (ok, b2)" by fastforce
    have b2: "events b2 = events ?d" "redundancy_controller b2 = redundancy_controller ?d"
      using send_transaction_same_node [of ?d C I source "HaveTx \<lparr>have_tx_id = tx_id\<rparr>"]
        send_transaction_events [of C I source "HaveTx \<lparr>have_tx_id = tx_id\<rparr>" ?d] s
      by (simp_all add: same_node_def)
    show ?thesis
    proof (cases "\<not> send_have_tx (bconfig b) \<or> have_tx_blocked (redundancy_controller b)")
      case True
      with d show ?thesis
        unfolding received_duplicate [OF Inr id c] by (simp add: Let_def have_tx_balance_quiet)
    next
      case False
      with s d b2 show ?thesis
        unfolding received_duplicate [OF Inr id c]
        by (cases ok) (simp_all add: Let_def have_tx_balance_def have_txs_sent_def block_have_tx_def)
    qed
  qed
qed

lemma receive_all_balance: "have_tx_balance b (receive_all C I ws source i raws b)"
  by (induction raws arbitrary: i b) (auto intro: have_tx_balance_trans [OF received_balance])

lemma handler_event_balance: "have_tx_balance b (on_connection_handler_event C I ws w source ev b)"
proof (cases ev)
  case (TransactionDropped m)
  then show ?thesis
    by (auto simp: on_connection_handler_event_def intro: have_tx_balance_quiet)
next
  case (TransactionEvent m invalid)
  have 1: "have_tx_balance x (handle_have_tx ids source x)" for ids x
    by (rule have_tx_balance_quiet) (simp_all add: handle_have_tx_eq filter_empty_conv)
  have 2: "have_tx_balance x (handle_reset_route w source x)" for x
    by (rule have_tx_balance_quiet) (auto simp: handle_reset_route_def Let_def split: prod.split option.split)
  show ?thesis
    using receive_all_balance [of b C I ws source 0 "rpc_transactions m"] unfolding TransactionEvent
    by (auto simp: on_connection_handler_event_def Let_def
        intro: have_tx_balance_trans [OF _ 1] have_tx_balance_trans [OF _ 2] have_tx_balance_trans [OF have_tx_balance_trans [OF _ 1] 2])
qed

end
