(* ===== verification/Dog_Routing_Props.thy ===== *)
theory Dog_Routing_Props
  imports Dog_Routing Dog_Node_Props
begin

text \<open>
  What a node guarantees about its routes, its redundancy and its tables: when a route is
  disabled and when it comes back, how often a node asks for that, and what holds of a node
  in every state it can reach.
\<close>

section \<open>Routes\<close>

lemma have_tx_cuts:
  assumes "rpc_channel C items capacity is_open slot"
    and "peers_ok items capacity is_open cap b" and "cap < 2 ^ 64"
    and "key_order (peer_order w2) (connected_peers b)"
    and "\<not> ignore_have_tx (bconfig b)" and "rpc_transactions m = []"
    and "HaveTxAction \<lparr>have_tx_id = tx_id\<rparr> \<in> set (rpc_control_msgs m)"
    and "ResetRouteAction ResetRoute \<notin> set (rpc_control_msgs m)"
    and "cache_get tx_id (cache b) = Some source" and "source \<noteq> peer"
    and "b1 = on_connection_handler_event C I ws w peer (TransactionEvent m invalid) b"
  shows "route_new source peer \<in> set (disabled_routes (router b1))
    \<and> forwards_to items (handle_received_transaction C I w2 raw source b1) peer = forwards_to items b peer
    \<and> (\<forall>s p. route_new s p \<in> set (disabled_routes (router b1)) \<longleftrightarrow>
        route_new s p \<in> set (disabled_routes (router b))
        \<or> p = peer \<and> s \<noteq> peer \<and> (\<exists>told. HaveTxAction \<lparr>have_tx_id = told\<rparr> \<in> set (rpc_control_msgs m)
            \<and> cache_get told (cache b) = Some s))"
proof -
  let ?ids = "List.map_filter (\<lambda>c. map_option have_tx_id (have_tx_of_action c)) (rpc_control_msgs m)"
  have id: "tx_id \<in> set ?ids" using assms(7) by (simp add: set_have_tx_ids)
  then have "?ids \<noteq> []" by auto
  from control_message_eq [OF assms(11,6,8) refl this assms(5)]
  have b1: "b1 = handle_have_tx ?ids peer b" .
  have peers: "connected_peers b1 = connected_peers b" by (simp add: b1 handle_have_tx_eq)
  have "route_new source peer \<in> set (routes_for ?ids peer (cache b))"
    using id assms(9,10) by (auto simp: set_routes_for)
  then have "route_new source peer \<in> set (disabled_routes (router b1))"
    by (simp add: b1 handle_have_tx_eq)
  moreover have "peers_ok items capacity is_open cap b1"
    using queues_cong(4) [OF peers] assms(2) by blast
  moreover have "key_order (peer_order w2) (connected_peers b1)"
    using assms(4) peers by simp
  ultimately have "route_new source peer \<in> set (disabled_routes (router b1))"
    and "forwards_to items (handle_received_transaction C I w2 raw source b1) peer = forwards_to items b1 peer"
    using rpc_channel.disabled_route_silent [OF assms(1) _ assms(3), of b1 w2 source peer I raw] by simp_all
  moreover have "forwards_to items b1 = forwards_to items b"
    by (rule queues_cong) (rule peers)
  ultimately show ?thesis
    by (auto simp: b1 handle_have_tx_eq set_routes_for set_have_tx_ids route_new_def)
qed

text \<open>
  C7. A \<open>HaveTx\<close> from a peer for a transaction that this node remembers from another peer
  ends the forwarding from that source to that peer: whatever the source sends next, nothing
  is queued for the peer. Exactly the routes to this peer from another peer are added whose
  source one of the message's \<open>HaveTx\<close>s names through the cache; every other route, also one
  to this peer, is disabled if and only if it was before.
\<close>

theorem have_tx_stops_forwarding:
  assumes "rpc_channel C items capacity is_open slot"
    and "peers_ok items capacity is_open cap b" and "cap < 2 ^ 64"
    and "key_order (peer_order w2) (connected_peers b)"
    and "\<not> ignore_have_tx (bconfig b)" and "rpc_transactions m = []"
    and "HaveTxAction \<lparr>have_tx_id = tx_id\<rparr> \<in> set (rpc_control_msgs m)"
    and "ResetRouteAction ResetRoute \<notin> set (rpc_control_msgs m)"
    and "cache_get tx_id (cache b) = Some source" and "source \<noteq> peer"
    and "b1 = on_connection_handler_event C I ws w peer (TransactionEvent m invalid) b"
  shows "forwards_to items (handle_received_transaction C I w2 raw source b1) peer = forwards_to items b peer
    \<and> (\<forall>s p. route_new s p \<in> set (disabled_routes (router b1)) \<longleftrightarrow>
        route_new s p \<in> set (disabled_routes (router b))
        \<or> p = peer \<and> s \<noteq> peer \<and> (\<exists>told. HaveTxAction \<lparr>have_tx_id = told\<rparr> \<in> set (rpc_control_msgs m)
            \<and> cache_get told (cache b) = Some s))"
  using have_tx_cuts [OF assms] by blast

text \<open>After the sample transaction came from peer 1, peer 2 tells that it has it.\<close>

definition sample_have_tx :: "byte rpc" where
  "sample_have_tx = \<lparr>rpc_transactions = [], rpc_control_msgs = [HaveTxAction \<lparr>have_tx_id = sample_id\<rparr>]\<rparr>"

definition sample_node2 :: "(byte, byte, byte rpc_out list_queue) behaviour" where
  "sample_node2 = on_connection_handler_event list_channel sample_ops (\<lambda>i. sample_world 6) (sample_world 6) 2
     (TransactionEvent sample_have_tx []) sample_node1"

lemma sample_have_tx_simps:
  "\<not> ignore_have_tx (bconfig sample_node1)" "rpc_transactions sample_have_tx = []"
  "HaveTxAction \<lparr>have_tx_id = sample_id\<rparr> \<in> set (rpc_control_msgs sample_have_tx)"
  "ResetRouteAction ResetRoute \<notin> set (rpc_control_msgs sample_have_tx)"
  "cache_get sample_id (cache sample_node1) = Some 1"
  "key_order (peer_order (sample_world t)) (connected_peers sample_node1)"
  using sample_node1_simps(6)
  by (simp_all add: sample_node1_simps(1) sample_node1_cache cache_get_def sample_have_tx_def key_order_def
      sample_node_def sample_config_def default_config_builder_def sample_world_def)

theorem have_tx_stops_forwarding_witness:
  "forwards_to list_items (handle_received_transaction list_channel sample_ops (sample_world 7)
     (sample_raw\<lparr>raw_seqno := 2\<rparr>) 1 sample_node2) 2 = forwards_to list_items sample_node1 2
   \<and> (route_new 3 2 \<in> set (disabled_routes (router sample_node2)) \<longleftrightarrow>
        route_new 3 2 \<in> set (disabled_routes (router sample_node1)))"
proof -
  have "(1 :: byte) \<noteq> 2" by simp
  from have_tx_stops_forwarding [OF lrc.rpc_channel_axioms sample_node1_simps(8) _ sample_have_tx_simps(6,1-5)
      this sample_node2_def]
  show ?thesis using sample_have_tx_simps(5) by (auto simp: sample_have_tx_def)
qed

text \<open>
  C8. Routes change in no other way. Whatever step a node takes, a route is newly disabled
  only by a message of its target, whose \<open>HaveTx\<close> names a transaction this node remembers
  from the route's source, and a route is newly enabled only by a \<open>ResetRoute\<close> of its target
  or when the last connection to its source or target closes.
\<close>

theorem routes_change_only_by:
  assumes "node_step C I items capacity is_open (t, b) (t', b')"
    and "r \<in> set (disabled_routes (router b)) \<longleftrightarrow> r \<notin> set (disabled_routes (router b'))"
  shows "(\<exists>ws w m invalid.
        b' = on_connection_handler_event C I ws w (route_target r) (TransactionEvent m invalid) b
        \<and> (if r \<in> set (disabled_routes (router b')) then
             route_source r \<noteq> route_target r
             \<and> (\<exists>tx_id. HaveTxAction \<lparr>have_tx_id = tx_id\<rparr> \<in> set (rpc_control_msgs m)
                  \<and> cache_get tx_id (cache (receive_all C I ws (route_target r) 0 (rpc_transactions m) b))
                      = Some (route_source r))
           else ResetRouteAction ResetRoute \<in> set (rpc_control_msgs m)))
    \<or> (\<exists>w p i. b' = on_swarm_event C I w (ConnectionClosed p i 0) b \<and> touches p r
        \<and> r \<notin> set (disabled_routes (router b')))"
  using assms(1)
proof cases
  case (Publishing w data res)
  with publish_routes [of C I w data b res b'] assms(2) show ?thesis by simp
next
  case (Received ws w p ev)
  show ?thesis
  proof (cases ev)
    case (TransactionDropped m)
    with Received assms(2) show ?thesis by (simp add: on_connection_handler_event_def)
  next
    case (TransactionEvent m invalid)
    note b' = Received(2) [unfolded TransactionEvent]
    show ?thesis
    proof (cases "r \<in> set (disabled_routes (router b'))")
      case True
      with message_routes(1) [OF b' refl True] assms(2) b' show ?thesis by auto
    next
      case False
      with message_routes(2) [OF b' refl _ False] assms(2) b' show ?thesis by auto
    qed
  qed
next
  case (Swarm w ev)
  show ?thesis
  proof (cases "\<exists>p i. ev = ConnectionClosed p i 0")
    case True
    then obtain p i where ev: "ev = ConnectionClosed p i 0" by blast
    have "disabled_routes (router b') = filter (\<lambda>r. \<not> touches p r) (disabled_routes (router b))"
      using Swarm(2) ev
      by (simp add: on_swarm_event_def on_connection_closed_def reset_routes_with_peer_def Let_def)
    with assms(2) have "touches p r" and "r \<notin> set (disabled_routes (router b'))" by auto
    with Swarm(2) ev show ?thesis by blast
  next
    case False
    then have "disabled_routes (router b') = disabled_routes (router b)"
      using Swarm(2)
      by (auto simp: on_swarm_event_def on_connection_established_def on_connection_closed_def
          split: from_swarm.split option.split)
    with assms(2) show ?thesis by simp
  qed
next
  case (Inbound i p h)
  with assms(2) show ?thesis
    by (auto simp: handle_established_inbound_connection_def handle_established_connection_def Let_def
        split: option.splits)
next
  case (Outbound i p h)
  with assms(2) show ?thesis
    by (auto simp: handle_established_outbound_connection_def handle_established_connection_def Let_def
        split: option.splits)
next
  case (Polling w elapsed res)
  then have "disabled_routes (router b') = disabled_routes (router b)"
    by (auto simp: behaviour_poll_def split: list.splits if_splits)
  with assms(2) show ?thesis by simp
next
  case (Queue p peer ch)
  with assms(2) show ?thesis by simp
qed

lemma sample_node2_eq:
  "sample_node2 = handle_have_tx [sample_id] 2 sample_node1"
  using control_message_eq [OF sample_node2_def sample_have_tx_simps(2,4) refl _ sample_have_tx_simps(1)]
  by (simp add: sample_have_tx_def List.map_filter_simps)

lemma sample_node2_routes: "disabled_routes (router sample_node2) = [route_new 1 2]"
  by (simp add: sample_node2_eq handle_have_tx_eq routes_for_def sample_have_tx_simps(5) sample_node1_simps(3)
      sample_simps List.map_filter_simps)

theorem routes_change_only_by_witness:
  "\<exists>ws w m invalid. sample_node2 =
       on_connection_handler_event list_channel sample_ops ws w 2 (TransactionEvent m invalid) sample_node1
     \<and> (\<exists>tx_id. HaveTxAction \<lparr>have_tx_id = tx_id\<rparr> \<in> set (rpc_control_msgs m))"
proof -
  have "node_step list_channel sample_ops list_items list_capacity list_open (5, sample_node1)
      (clock (sample_world 6), sample_node2)"
    unfolding sample_node2_def by (rule node_step.Received) (simp_all add: sample_simps)
  note step = routes_change_only_by [OF this, of "route_new 1 2"]
  have "route_new 1 2 \<notin> set (disabled_routes (router sample_node1))"
    "route_new 1 2 \<in> set (disabled_routes (router sample_node2))"
    by (simp_all add: sample_node2_routes sample_node1_simps(3) sample_simps)
  with step show ?thesis by (auto simp: route_new_def)
qed

section \<open>Redundancy\<close>

text \<open>
  C13. Between two adjustments of the redundancy a node sends at most one \<open>HaveTx\<close>. Over any
  sequence of events of its connections the block of \<open>HaveTx\<close> is never lifted, and a \<open>HaveTx\<close>
  is sent exactly when the block is set.
\<close>

theorem one_have_tx_per_interval:
  "let b' = fold (\<lambda>(ws, w, p, ev). on_connection_handler_event C I ws w p ev) evs b
   in have_txs_sent b' = have_txs_sent b
        + of_bool (have_tx_blocked (redundancy_controller b') \<and> \<not> have_tx_blocked (redundancy_controller b))
      \<and> have_tx_blocked (redundancy_controller b) \<le> have_tx_blocked (redundancy_controller b')"
proof -
  let ?step = "\<lambda>(ws, w, p, ev). on_connection_handler_event C I ws w p ev"
  have "have_tx_balance b (fold ?step evs b)"
  proof (induction evs arbitrary: b)
    case (Cons e evs)
    have "have_tx_balance b (?step e b)"
      by (cases e) (simp add: handler_event_balance)
    with Cons.IH [of "?step e b"] show ?case by (auto intro: have_tx_balance_trans)
  qed simp
  then show ?thesis
    by (cases "have_tx_blocked (redundancy_controller b)") (auto simp: have_tx_balance_def Let_def)
qed

text \<open>
  C14. An adjustment asks a peer to forward again only when the redundancy is too low, and
  only a connected peer to which a \<open>HaveTx\<close> is outstanding. Then that peer, and no other, gets
  one \<open>ResetRoute\<close> in its priority queue and one \<open>HaveTx\<close> less is outstanding to it. No
  forward is queued, no route changes, and the counters start again from zero.
\<close>

theorem adjust_redundancy_correct:
  assumes "rpc_channel C items capacity is_open slot"
    and "peers_ok items capacity is_open cap b" and "cap < 2 ^ 64"
    and "evaluate (redundancy_controller b) = ((r, reset), c)"
    and "asked = (if reset then get_random_have_tx_sent_peer (have_tx_order w) (draw w) (router b) else None)"
    and "told = (case asked of Some p \<Rightarrow> if p \<in> dom (connected_peers b) then Some p else None | None \<Rightarrow> None)"
    and "b' = adjust_redundancy C I w b"
  shows "(\<forall>p. priorities_to items b' p =
        priorities_to items b p @ (if told = Some p then [SendResetRoute ResetRoute] else []))
    \<and> forwards_to items b' = forwards_to items b
    \<and> (\<forall>p. have_tx_count (router b') p = have_tx_count (router b) p - of_bool (told = Some p))
    \<and> disabled_routes (router b') = disabled_routes (router b)
    \<and> redundancy_controller b' = reset_counters c
    \<and> events b' = events b @ (case told of Some p \<Rightarrow> [ResetRouteSent p] | None \<Rightarrow> [])"
  using assms(4)
proof (cases rule: adjust_redundancy_cases [where w = w and C = C and I = I])
  case quiet
  then show ?thesis using assms(5-7) by (auto simp: frame)
next
  case (refused p b2)
  let ?b = "b\<lparr>redundancy_controller := c\<rparr>"
  have "peers_ok items capacity is_open cap ?b" using assms(2) by simp
  note q = rpc_channel.send_queues [OF assms(1) this assms(3) refused(3)]
  have same: "same_node ?b b2" "events b2 = events b"
    using send_transaction_same_node [of ?b C I p "SendResetRoute ResetRoute"]
      send_transaction_events [of C I p "SendResetRoute ResetRoute" ?b] refused(3) by simp_all
  have "p \<notin> dom (connected_peers b)"
    using q by (auto simp: takes_def split: option.splits)
  then have "told = None" using refused(1,2) assms(5,6) by simp
  with q same refused(4) assms(7) show ?thesis
    by (simp add: same_node_def)
next
  case (sent p b2)
  let ?b = "b\<lparr>redundancy_controller := c\<rparr>"
  have "peers_ok items capacity is_open cap ?b" using assms(2) by simp
  note q = rpc_channel.send_queues [OF assms(1) this assms(3) sent(3)]
  have same: "same_node ?b b2" "events b2 = events b"
    using send_transaction_same_node [of ?b C I p "SendResetRoute ResetRoute"]
      send_transaction_events [of C I p "SendResetRoute ResetRoute" ?b] sent(3) by simp_all
  have "p \<in> dom (connected_peers b)"
    using q takes_connected [of items "SendResetRoute ResetRoute" ?b p] by simp
  then have "told = Some p" using sent(1,2) assms(5,6) by simp
  with q same sent(4) assms(7) show ?thesis
    by (auto simp: same_node_def frame)
qed

text \<open>A node that heard one transaction and no duplicate, with a \<open>HaveTx\<close> outstanding to peer 1.\<close>

definition low_controller :: controller where
  "low_controller = \<lparr>lower_bound = 1, upper_bound = 2, first_time_txs_count = 1, duplicate_txs_count = 0,
     have_tx_blocked = True\<rparr>"

definition low_node :: "(byte, byte, byte rpc_out list_queue) behaviour" where
  "low_node = sample_node\<lparr>redundancy_controller := low_controller,
     router := register_have_tx_sent 1 (router sample_node)\<rparr>"

lemma evaluate_low: "evaluate low_controller = ((0, True), low_controller)"
proof -
  have "redundancy low_controller = 0"
    using redundancy_ratio [of low_controller] representable_of_int [of 0]
    by (simp add: low_controller_def counts_fit_def ratio_def representable_def)
  then show ?thesis by (simp add: evaluate_def) (simp add: low_controller_def)
qed

lemma low_node_simps:
  "redundancy_controller low_node = low_controller"
  "get_random_have_tx_sent_peer (have_tx_order (sample_world t)) (draw (sample_world t)) (router low_node) = Some 1"
  "connected_peers low_node = connected_peers sample_node"
  "have_tx_count (router low_node) 1 = 1"
  "peers_ok list_items list_capacity list_open 2500 low_node"
  "priorities_to list_items low_node p = []"
proof -
  show peers: "connected_peers low_node = connected_peers sample_node" by (simp add: low_node_def)
  show "have_tx_count (router low_node) 1 = 1"
    by (simp add: low_node_def sample_node_def) (simp add: router_new_def have_tx_count_def)
  then show "get_random_have_tx_sent_peer (have_tx_order (sample_world t)) (draw (sample_world t)) (router low_node) = Some 1"
    by (simp add: get_random_have_tx_sent_peer_def have_tx_candidates_eq sample_world_def choose_one_def)
  show "peers_ok list_items list_capacity list_open 2500 low_node"
    using sample_peers_ok queues_cong(4) [OF peers] by blast
  show "priorities_to list_items low_node p = []"
    using sample_queues(2) queues_cong(2) [OF peers] by metis
qed (simp add: low_node_def)

theorem adjust_redundancy_correct_witness:
  "let b' = adjust_redundancy list_channel sample_ops (sample_world 9) low_node
   in priorities_to list_items b' 1 = [SendResetRoute ResetRoute] \<and> priorities_to list_items b' 2 = []
     \<and> have_tx_count (router b') 1 = 0"
proof -
  have "1 \<in> dom (connected_peers sample_node)" by (simp add: sample_simps)
  then show ?thesis
    using adjust_redundancy_correct [OF lrc.rpc_channel_axioms low_node_simps(5) _
        evaluate_low [folded low_node_simps(1)] refl refl refl, of sample_ops "sample_world 9"]
    by (simp add: Let_def low_node_simps)
qed

section \<open>Connections that close\<close>

text \<open>The node a closed connection leaves to the adjustment.\<close>

definition without_peer :: "'p \<Rightarrow> ('p, 'k, 'q) behaviour \<Rightarrow> ('p, 'k, 'q) behaviour" where
  "without_peer p b =
     (let (removed, r) = reset_routes_with_peer p (router b);
          b = b\<lparr>router := r\<rparr>;
          b = (if removed \<noteq> [] then
                 with_metrics (set_disabled_routes_count (length (disabled_routes r)))
                   (push_event (RoutingUpdated (disabled_routes r)) b)
               else b)
      in b\<lparr>connected_peers := (connected_peers b)(p := None)\<rparr>)"

lemma closed_last_eq:
  "on_connection_closed C I w p i 0 b = with_metrics dec_peers_count (adjust_redundancy C I w (without_peer p b))"
  by (simp add: on_connection_closed_def without_peer_def Let_def case_prod_beta get_disabled_routes_def)

lemma without_peer_frame [simp]:
  "connected_peers (without_peer p b) = (connected_peers b)(p := None)"
  "disabled_routes (router (without_peer p b)) = filter (\<lambda>r. \<not> touches p r) (disabled_routes (router b))"
  "have_tx_sent_per_peer (router (without_peer p b)) = have_tx_sent_per_peer (router b)"
  "redundancy_controller (without_peer p b) = redundancy_controller b"
  "cache (without_peer p b) = cache b"
  "events (without_peer p b) = events b @
     (if \<exists>r \<in> set (disabled_routes (router b)). touches p r
      then [RoutingUpdated (filter (\<lambda>r. \<not> touches p r) (disabled_routes (router b)))] else [])"
  by (auto simp: without_peer_def reset_routes_with_peer_def Let_def filter_empty_conv)

lemma have_tx_cong:
  assumes "have_tx_sent_per_peer r' = have_tx_sent_per_peer r"
  shows "get_random_have_tx_sent_peer order d r' = get_random_have_tx_sent_peer order d r"
    and "have_tx_count r' = have_tx_count r"
  using assms by (simp_all add: get_random_have_tx_sent_peer_def have_tx_candidates_def have_tx_count_def fun_eq_iff)

text \<open>
  C22. When the last connection to a peer closes, the peer is forgotten with its queues, no
  disabled route names it, and nothing else is lost: the other peers stay, the routes between
  them are the same and in the same order, and the cache is as it was.
\<close>

theorem connection_closed_correct:
  "let b' = on_connection_closed C I w p i 0 b
   in dom (connected_peers b') = dom (connected_peers b) - {p}
      \<and> disabled_routes (router b') = filter (\<lambda>r. \<not> touches p r) (disabled_routes (router b))
      \<and> (\<forall>ts. set (filter_valid_routes p ts (router b')) = set ts)
      \<and> cache b' = cache b
      \<and> first_time_txs_count (redundancy_controller b') = 0
      \<and> duplicate_txs_count (redundancy_controller b') = 0"
proof -
  let ?n = "without_peer p b"
  obtain r reset c where e: "evaluate (redundancy_controller ?n) = ((r, reset), c)"
    by (metis prod.collapse)
  have "redundancy_controller (adjust_redundancy C I w ?n) = reset_counters c"
    using e by (cases rule: adjust_redundancy_cases [where w = w and C = C and I = I]) simp_all
  then show ?thesis
    by (auto simp: closed_last_eq Let_def reset_counters_def filter_valid_routes_eq route_new_def touches_def)
qed

text \<open>
  C36. The peers with an outstanding \<open>HaveTx\<close> are not forgotten when they disconnect. When
  the redundancy is too low as the connection to such a peer closes, and that peer is the one
  drawn, nobody is asked to forward again: the evidence is discarded with the counters, no
  queue changes, and the \<open>HaveTx\<close> stays outstanding to the peer that is gone.
\<close>

theorem reset_route_lost:
  assumes "evaluate (redundancy_controller b) = ((r, True), c)"
    and "get_random_have_tx_sent_peer (have_tx_order w) (draw w) (router b) = Some p"
    and "b' = on_connection_closed C I w p i 0 b"
  shows "connected_peers b' = (connected_peers b)(p := None)
    \<and> have_tx_count (router b') p = have_tx_count (router b) p
    \<and> ResetRouteSent q \<notin> set (drop (length (events b)) (events b'))
    \<and> redundancy_controller b' = reset_counters c"
proof -
  let ?n = "without_peer p b"
  have e: "evaluate (redundancy_controller ?n) = ((r, True), c)"
    and p: "get_random_have_tx_sent_peer (have_tx_order w) (draw w) (router ?n) = Some p"
    using assms(1,2) have_tx_cong(1) [of "router ?n" "router b"] by simp_all
  have none: "connected_peers (?n\<lparr>redundancy_controller := c\<rparr>) p = None" by simp
  from e show ?thesis
  proof (cases rule: adjust_redundancy_cases [where w = w and C = C and I = I])
    case quiet
    with p show ?thesis by simp
  next
    case (refused q b2)
    with p none have b2: "b2 = ?n\<lparr>redundancy_controller := c\<rparr>"
      by (simp add: send_transaction_def count_sent_def)
    show ?thesis
      using have_tx_cong(2) [of "router ?n" "router b"]
      by (simp add: assms(3) closed_last_eq refused(4) b2)
  next
    case (sent q b2)
    with p none show ?thesis by (simp add: send_transaction_def)
  qed
qed

theorem reset_route_lost_witness:
  "let b' = on_connection_closed list_channel sample_ops (sample_world 9) 1 0 0 low_node
   in connected_peers b' 1 = None \<and> have_tx_count (router b') 1 = 1"
  using reset_route_lost [OF evaluate_low [folded low_node_simps(1)] low_node_simps(2) refl,
      of list_channel sample_ops 9 0]
  by (simp add: Let_def low_node_simps)

section \<open>Every reachable node\<close>

text \<open>
  The gauge of peers counts every connection that is established but only the last one that
  closes: after a peer has opened and closed two connections it is one too high, for good.
\<close>

definition peers_gauge :: "('p, 'k, 'q) behaviour \<Rightarrow> int option" where
  "peers_gauge b = map_option peers_count (metrics b)"

lemma peers_gauge_with_metrics:
  assumes "\<And>m. peers_count (f m) = g (peers_count m)"
  shows "peers_gauge (with_metrics f b) = map_option g (peers_gauge b)"
  by (simp add: peers_gauge_def option.map_comp comp_def assms)

lemma peers_gauge_frame [simp]:
  "peers_gauge (with_metrics (set_redundancy r) b) = peers_gauge b"
  "peers_gauge (with_metrics (tx_sent n) b) = peers_gauge b"
  "peers_gauge (with_metrics register_reset_route_sent b) = peers_gauge b"
  "peers_gauge (with_metrics (set_disabled_routes_count n) b) = peers_gauge b"
  by (simp_all add: peers_gauge_with_metrics [where g = "\<lambda>c. c"] metrics_defs set_disabled_routes_count_def
      option.map_ident split: option.split)

lemma peers_gauge_updates [simp]:
  "peers_gauge (push_event e b) = peers_gauge b"
  "peers_gauge (b\<lparr>router := r\<rparr>) = peers_gauge b"
  "peers_gauge (b\<lparr>connected_peers := ps\<rparr>) = peers_gauge b"
  "peers_gauge (b\<lparr>redundancy_controller := c\<rparr>) = peers_gauge b"
  by (simp_all add: peers_gauge_def push_event_def)

lemma peers_gauge_send:
  assumes "send_transaction C I p rpc b = (sent, b')"
  shows "peers_gauge b' = peers_gauge b"
proof -
  have "peers_gauge (count_sent I rpc b) = peers_gauge b"
    by (simp add: count_sent_def split: rpc_out.split)
  with assms show ?thesis
    by (auto simp: send_transaction_def Let_def split: option.splits prod.splits sum.splits)
qed

lemma peers_gauge_adjust [simp]: "peers_gauge (adjust_redundancy C I w b) = peers_gauge b"
  by (auto simp: adjust_redundancy_def Let_def peers_gauge_send split: option.splits prod.splits bool.splits)

lemma peers_gauge_established:
  "peers_gauge (on_connection_established p b) = map_option (\<lambda>c. c + 1) (peers_gauge b)"
  unfolding on_connection_established_def by (rule peers_gauge_with_metrics) (simp add: inc_peers_count_def)

lemma peers_gauge_closed:
  "peers_gauge (on_connection_closed C I w p i n b) =
     (if n = 0 then map_option (\<lambda>c. c - 1) (peers_gauge b) else peers_gauge b)"
proof -
  have "peers_gauge (with_metrics dec_peers_count b1) = map_option (\<lambda>c. c - 1) (peers_gauge b1)"
    for b1 :: "('a, 'b, 'c) behaviour"
    by (rule peers_gauge_with_metrics) (simp add: dec_peers_count_def)
  then show ?thesis by (simp add: on_connection_closed_def Let_def split: option.split prod.split)
qed

lemma peers_gauge_drifts:
  "peers_gauge (on_connection_closed C I w2 p j 0 (on_connection_closed C I w p i 1
      (on_connection_established p (on_connection_established p b)))) =
   map_option (\<lambda>c. c + 1) (peers_gauge b)"
  by (simp add: peers_gauge_closed peers_gauge_established option.map_comp comp_def add.commute)

text \<open>
  C6. In every state a node can reach from its creation, whatever it publishes and receives
  and whoever connects: no disabled route leads from a peer to itself; the cache's counter,
  its list and its map agree, and its entries expire in order within the cache time; the two
  gauges \<open>disabled_routes_count\<close> and \<open>txs_cache_size\<close> show the numbers of disabled routes and
  of remembered transactions; and for every connected peer, the queue of forwards and the
  counter that admits publishes are at most half the configured length (the queue of
  publishes and control messages itself is unbounded). The gauge of peers is not among them:
  see \<open>peers_gauge_drifts\<close>.
\<close>

theorem reachable_node_correct:
  assumes "rpc_channel C items capacity is_open slot"
    and "behaviour_new I now nanos auth cfg registry D = Inr b0"
    and "connection_handler_queue_len cfg < 2 ^ 64"
    and "(node_step C I items capacity is_open)\<^sup>*\<^sup>* (now, b0) (t, b)"
  shows "(\<forall>r \<in> set (disabled_routes (router b)). route_source r \<noteq> route_target r)
    \<and> distinct (map entry_key (cache_list (cache b)))
    \<and> entry_key ` set (cache_list (cache b)) = dom (cache_values (cache b))
    \<and> cache_len (cache b) = card (dom (cache_values (cache b)))
    \<and> sorted (map entry_expiration (cache_list (cache b)))
    \<and> (\<forall>e \<in> set (cache_list (cache b)). entry_expiration e \<le> t + cache_time cfg)
    \<and> (\<forall>m. metrics b = Some m \<longrightarrow>
         (length (disabled_routes (router b)) < 2 ^ 63 \<longrightarrow>
            disabled_routes_count m = int (length (disabled_routes (router b))))
         \<and> (cache_len (cache b) < 2 ^ 63 \<longrightarrow> txs_cache_size m = int (cache_len (cache b))))
    \<and> (\<forall>p. length (forwards_to items b p) \<le> connection_handler_queue_len cfg div 2)
    \<and> (\<forall>p d. connected_peers b p = Some d \<longrightarrow>
         unat (queue_len (sender_channels (peer_sender d))) \<le> connection_handler_queue_len cfg div 2)
    \<and> get_own_id (publish_config b) = get_own_id (publish_config b0)"
proof -
  have change: "node_change items capacity is_open now b0 t b"
    using rpc_channel.node_steps_change [OF assms(1,4)] by simp
  have inv: "node_inv items capacity is_open t b"
    by (rule node_change_inv [OF change rpc_channel.node_inv_new [OF assms(1-3)]])
  have cfg: "bconfig b = cfg"
    using change assms(2) by (auto simp: node_change_def behaviour_new_def)
  have cache: "cache_inv t (cache b)" "cache_ttl (cache b) = cache_time cfg"
    using inv cfg by (simp_all add: node_inv_def)
  have "length (forwards_to items b p) \<le> connection_handler_queue_len cfg div 2" for p
    using inv cfg by (auto simp: node_inv_def peers_ok_def channels_ok_def forwards_to_def split: option.split)
  moreover have "\<forall>p d. connected_peers b p = Some d \<longrightarrow>
      unat (queue_len (sender_channels (peer_sender d))) \<le> connection_handler_queue_len cfg div 2"
    using inv cfg by (auto simp: node_inv_def peers_ok_def channels_ok_def)
  moreover have "cache_len (cache b) = card (dom (cache_values (cache b)))"
    using cache by (simp add: cache_inv_def cache_shape_len)
  ultimately show ?thesis
    using inv cache change
    by (simp add: node_inv_def routes_ok_def gauges_ok_def cache_inv_def cache_shape_def node_change_def)
qed

definition fresh_node :: "(byte, byte, byte rpc_out list_queue) behaviour" where
  "fresh_node =
     \<lparr>bconfig = sample_config, events = [],
      publish_config = publish_config_of sample_ops 1000 (Signed 7), data_transform = identity_transform,
      connected_peers = Map.empty, redundancy_timer = Delay 0 (redundancy_interval sample_config),
      redundancy_controller = controller_new sample_config, router = router_new,
      cache = cache_new (cache_time sample_config), metrics = Some metrics_new\<rparr>"

lemma fresh_node_new:
  "behaviour_new sample_ops 0 1000 (Signed 7) sample_config True identity_transform = Inr fresh_node"
  by (simp add: behaviour_new_def fresh_node_def)

text \<open>A peer connects to a fresh node.\<close>

theorem reachable_node_correct_witness:
  "\<exists>(h :: (unit, byte rpc_out option) handler) b.
     handle_established_inbound_connection list_channel 0 1 fresh_node = Some (h, b)
     \<and> dom (connected_peers b) = {1}
     \<and> length (forwards_to list_items b 1) \<le> 2500 \<and> get_own_id (publish_config b) = 7"
proof -
  have len: "connection_handler_queue_len sample_config = 5000"
    by (simp add: sample_config_def default_config_builder_def)
  obtain h b where hb: "handle_established_inbound_connection list_channel 0 1 fresh_node
      = Some (h :: (unit, byte rpc_out option) handler, b)"
    and "dom (connected_peers b) = {1}"
    by (auto simp: handle_established_inbound_connection_def handle_established_connection_def Let_def
        fresh_node_def sender_new_def list_channel_def len)
  moreover have "get_own_id (publish_config fresh_node) = 7"
    by (simp add: fresh_node_def sample_ops_def Let_def)
  moreover have "(node_step list_channel sample_ops list_items list_capacity list_open)\<^sup>*\<^sup>* (0, fresh_node) (0, b)"
    by (rule r_into_rtranclp) (rule node_step.Inbound [OF hb])
  note reachable_node_correct [OF lrc.rpc_channel_axioms fresh_node_new _ this]
  ultimately show ?thesis using len by auto
qed

end
