(* ===== verification/Dog_Queue_Race.thy ===== *)
theory Dog_Queue_Race
  imports Dog_Rpc_Queue
begin

text \<open>
  The atomic length of a send queue under concurrency. The sender belongs to the behaviour
  and the receivers to the connection tasks, so the load and the store of
  \<open>Sender::send_transaction\<close> can have any number of \<open>fetch_sub\<close>s of \<open>Receiver::poll_next\<close>
  between them. The steps here are the atomic accesses, for publishes only (nothing else
  touches the length): what the sequential model does in one step is here a load, a store
  and a push, and a pop and a subtraction. \<open>race_access\<close> has the steps of the sender, of
  peeking and of \<open>poll_next\<close>; \<open>race_drop\<close> has the two ways a publish leaves without a
  subtraction; \<open>race_step\<close> is either.
\<close>

section \<open>The interleaved queue\<close>

text \<open>Where the sender is in \<open>send_transaction\<close>; \<open>SenderLoaded n\<close> has read \<open>n\<close>.\<close>

datatype sender_pc = SenderIdle | SenderLoaded u64 | SenderStored

text \<open>
  \<open>race_queued\<close> publishes are in the channel; \<open>race_peeked\<close> are in the peek buffer of a
  receiver, out of the channel; \<open>race_popped\<close> receivers have taken one with \<open>poll_next\<close> and
  not yet subtracted it.
\<close>

record race =
  race_len :: u64
  race_queued :: nat
  race_peeked :: nat
  race_popped :: nat
  race_pc :: sender_pc

inductive race_access :: "nat \<Rightarrow> race \<Rightarrow> race \<Rightarrow> bool" for cap where
  Load: "race_pc x = SenderIdle \<Longrightarrow> unat (race_len x) < cap \<Longrightarrow>
    race_access cap x (x\<lparr>race_pc := SenderLoaded (race_len x)\<rparr>)"
| Refuse: "race_pc x = SenderIdle \<Longrightarrow> cap \<le> unat (race_len x) \<Longrightarrow> race_access cap x x"
| Store: "race_pc x = SenderLoaded n \<Longrightarrow>
    race_access cap x (x\<lparr>race_len := n + 1, race_pc := SenderStored\<rparr>)"
| Push: "race_pc x = SenderStored \<Longrightarrow>
    race_access cap x (x\<lparr>race_queued := race_queued x + 1, race_pc := SenderIdle\<rparr>)"
| Peek: "0 < race_queued x \<Longrightarrow>
    race_access cap x (x\<lparr>race_queued := race_queued x - 1, race_peeked := race_peeked x + 1\<rparr>)"
| Pop: "0 < race_queued x \<Longrightarrow>
    race_access cap x (x\<lparr>race_queued := race_queued x - 1, race_popped := race_popped x + 1\<rparr>)"
| PopPeeked: "0 < race_peeked x \<Longrightarrow>
    race_access cap x (x\<lparr>race_peeked := race_peeked x - 1, race_popped := race_popped x + 1\<rparr>)"
| Sub: "0 < race_popped x \<Longrightarrow>
    race_access cap x (x\<lparr>race_len := race_len x - 1, race_popped := race_popped x - 1\<rparr>)"

text \<open>
  \<open>poll_stale\<close> pops the publish it has peeked when its timeout has elapsed, and a receiver
  that is dropped takes the publish in its peek buffer with it. Neither touches the length.
\<close>

inductive race_drop :: "race \<Rightarrow> race \<Rightarrow> bool" where
  Stale: "0 < race_peeked x \<Longrightarrow> race_drop x (x\<lparr>race_peeked := race_peeked x - 1\<rparr>)"
| ReceiverDropped: "0 < race_peeked x \<Longrightarrow> race_drop x (x\<lparr>race_peeked := race_peeked x - 1\<rparr>)"

inductive race_step :: "nat \<Rightarrow> race \<Rightarrow> race \<Rightarrow> bool" for cap where
  Access: "race_access cap x y \<Longrightarrow> race_step cap x y"
| Dropped: "race_drop x y \<Longrightarrow> race_step cap x y"

definition race_init :: race where
  "race_init = \<lparr>race_len = 0, race_queued = 0, race_peeked = 0, race_popped = 0, race_pc = SenderIdle\<rparr>"

section \<open>What the length counts\<close>

definition race_in_flight :: "race \<Rightarrow> nat" where
  "race_in_flight x =
     race_queued x + race_peeked x + race_popped x + (if race_pc x = SenderStored then 1 else 0)"

text \<open>
  The length is never below what is in flight and never above the capacity; a value the
  sender has loaded is not below the length.
\<close>

definition race_inv :: "nat \<Rightarrow> race \<Rightarrow> bool" where
  "race_inv cap x \<longleftrightarrow>
     race_in_flight x \<le> unat (race_len x)
     \<and> unat (race_len x) \<le> cap
     \<and> (\<forall>n. race_pc x = SenderLoaded n \<longrightarrow> unat (race_len x) \<le> unat n \<and> unat n < cap)"

text \<open>
  The excess of the length over what is in flight: the places of the queue that are lost.
  Dropped publishes apart, it stays below the capacity.
\<close>

definition race_lost :: "race \<Rightarrow> nat" where
  "race_lost x = unat (race_len x) - race_in_flight x"

lemma race_inv_init: "0 < cap \<Longrightarrow> race_inv cap race_init \<and> race_lost race_init < cap"
  by (simp add: race_inv_def race_init_def race_in_flight_def race_lost_def)

lemma race_access_inv [preserve]:
  assumes "race_access cap x y" and "race_inv cap x" and "cap < 2 ^ 64"
  shows "race_inv cap y \<and> (race_lost x < cap \<longrightarrow> race_lost y < cap)"
  using assms(1,2)
proof (induction rule: race_access.induct)
  case (Store x n)
  then have "unat (n + 1) = unat n + 1"
    using assms(3) by (intro u64_inc [of n cap]) (auto simp: race_inv_def)
  with Store show ?case by (auto simp: race_inv_def race_in_flight_def race_lost_def)
next
  case (Sub x)
  then have "unat (race_len x - 1) = unat (race_len x) - 1"
    by (intro u64_dec) (auto simp: race_inv_def race_in_flight_def)
  with Sub show ?case by (auto simp: race_inv_def race_in_flight_def race_lost_def)
qed (auto simp: race_inv_def race_in_flight_def race_lost_def)

lemma race_drop_inv [preserve]: "race_drop x y \<Longrightarrow> race_inv cap x \<Longrightarrow> race_inv cap y"
  by (induction rule: race_drop.induct) (auto simp: race_inv_def race_in_flight_def)

lemma race_inv_reachable:
  assumes "(race_step cap)\<^sup>*\<^sup>* race_init x" and "0 < cap" and "cap < 2 ^ 64"
  shows "race_inv cap x"
  using assms(1)
proof (induction rule: rtranclp_induct)
  case base
  show ?case using race_inv_init assms(2) by blast
next
  case (step y z)
  with assms(3) show ?case by (auto elim!: race_step.cases dest: race_access_inv race_drop_inv)
qed

lemma race_lost_undropped:
  assumes "(race_access cap)\<^sup>*\<^sup>* race_init x" and "0 < cap" and "cap < 2 ^ 64"
  shows "race_inv cap x \<and> race_lost x < cap"
  using assms(1) by (induction rule: rtranclp_induct)
    (use race_inv_init race_access_inv assms(2,3) in blast)+

lemma race_access_steps: "(race_access cap)\<^sup>*\<^sup>* x y \<Longrightarrow> (race_step cap)\<^sup>*\<^sup>* x y"
  by (rule rtranclp_mono [THEN predicate2D]) (auto intro: race_step.Access)

section \<open>The lost update\<close>

text \<open>An idle queue with nothing in it whose length says \<open>k\<close>.\<close>

definition race_idle :: "nat \<Rightarrow> race" where
  "race_idle k = \<lparr>race_len = of_nat k, race_queued = 0, race_peeked = 0, race_popped = 0, race_pc = SenderIdle\<rparr>"

lemma unat_of_nat_u64: "k < 2 ^ 64 \<Longrightarrow> unat (of_nat k :: u64) = k"
  by (simp add: unat_of_nat take_bit_nat_eq_self)

text \<open>
  One lost update: the first publish is taken and subtracted between the load and the store
  of the second.
\<close>

lemma race_lose_one:
  assumes "k + 1 < cap" and "cap < 2 ^ 64"
  shows "(race_access cap)\<^sup>*\<^sup>* (race_idle k) (race_idle (k + 1))"
proof -
  let ?s = "\<lambda>len queued popped pc.
    \<lparr>race_len = len, race_queued = queued, race_peeked = 0, race_popped = popped, race_pc = pc\<rparr>"
  let ?k = "of_nat k :: u64"
  have k: "unat ?k = k" and k1: "unat (?k + 1) = k + 1"
    using assms unat_of_nat_u64 [of k] unat_of_nat_u64 [of "k + 1"] by (auto simp: add.commute)
  have "race_access cap (?s ?k 0 0 SenderIdle) (?s ?k 0 0 (SenderLoaded ?k))"
    using Load [of "?s ?k 0 0 SenderIdle" cap] k assms by simp
  moreover have "race_access cap (?s ?k 0 0 (SenderLoaded ?k)) (?s (?k + 1) 0 0 SenderStored)"
    using Store [of "?s ?k 0 0 (SenderLoaded ?k)" ?k cap] by simp
  moreover have "race_access cap (?s (?k + 1) 0 0 SenderStored) (?s (?k + 1) 1 0 SenderIdle)"
    using Push [of "?s (?k + 1) 0 0 SenderStored" cap] by simp
  moreover have "race_access cap (?s (?k + 1) 1 0 SenderIdle) (?s (?k + 1) 1 0 (SenderLoaded (?k + 1)))"
    using Load [of "?s (?k + 1) 1 0 SenderIdle" cap] k1 assms by simp
  moreover have "race_access cap (?s (?k + 1) 1 0 (SenderLoaded (?k + 1)))
      (?s (?k + 1) 0 1 (SenderLoaded (?k + 1)))"
    using Pop [of "?s (?k + 1) 1 0 (SenderLoaded (?k + 1))" cap] by simp
  moreover have "race_access cap (?s (?k + 1) 0 1 (SenderLoaded (?k + 1)))
      (?s ?k 0 0 (SenderLoaded (?k + 1)))"
    using Sub [of "?s (?k + 1) 0 1 (SenderLoaded (?k + 1))" cap] by simp
  moreover have "race_access cap (?s ?k 0 0 (SenderLoaded (?k + 1))) (?s (?k + 1 + 1) 0 0 SenderStored)"
    using Store [of "?s ?k 0 0 (SenderLoaded (?k + 1))" "?k + 1" cap] by simp
  moreover have "race_access cap (?s (?k + 1 + 1) 0 0 SenderStored) (?s (?k + 1 + 1) 1 0 SenderIdle)"
    using Push [of "?s (?k + 1 + 1) 0 0 SenderStored" cap] by simp
  moreover have "race_access cap (?s (?k + 1 + 1) 1 0 SenderIdle) (?s (?k + 1 + 1) 0 1 SenderIdle)"
    using Pop [of "?s (?k + 1 + 1) 1 0 SenderIdle" cap] by simp
  moreover have "race_access cap (?s (?k + 1 + 1) 0 1 SenderIdle) (?s (?k + 1) 0 0 SenderIdle)"
    using Sub [of "?s (?k + 1 + 1) 0 1 SenderIdle" cap] by (simp add: add.commute)
  ultimately have "(race_access cap)\<^sup>*\<^sup>* (?s ?k 0 0 SenderIdle) (?s (?k + 1) 0 0 SenderIdle)"
    by (meson converse_rtranclp_into_rtranclp rtranclp.rtrancl_refl)
  then show ?thesis by (simp add: race_idle_def add.commute)
qed

lemma race_idle_reachable:
  assumes "k < cap" and "cap < 2 ^ 64"
  shows "(race_access cap)\<^sup>*\<^sup>* race_init (race_idle k)"
  using assms(1)
proof (induction k)
  case 0
  show ?case by (simp add: race_idle_def race_init_def)
next
  case (Suc k)
  then have "(race_access cap)\<^sup>*\<^sup>* (race_idle k) (race_idle (k + 1))"
    using assms(2) by (intro race_lose_one) simp_all
  with Suc show ?case by (simp add: rtranclp_trans)
qed

section \<open>The dropped publish\<close>

text \<open>The last place goes with a publish that is peeked and dropped.\<close>

lemma race_drop_one:
  assumes "k < cap" and "cap < 2 ^ 64"
  shows "(race_step cap)\<^sup>*\<^sup>* (race_idle k) (race_idle (k + 1))"
proof -
  let ?s = "\<lambda>len queued peeked pc.
    \<lparr>race_len = len, race_queued = queued, race_peeked = peeked, race_popped = 0, race_pc = pc\<rparr>"
  let ?k = "of_nat k :: u64"
  have "race_access cap (?s ?k 0 0 SenderIdle) (?s ?k 0 0 (SenderLoaded ?k))"
    using Load [of "?s ?k 0 0 SenderIdle" cap] unat_of_nat_u64 [of k] assms by simp
  moreover have "race_access cap (?s ?k 0 0 (SenderLoaded ?k)) (?s (?k + 1) 0 0 SenderStored)"
    using Store [of "?s ?k 0 0 (SenderLoaded ?k)" ?k cap] by simp
  moreover have "race_access cap (?s (?k + 1) 0 0 SenderStored) (?s (?k + 1) 1 0 SenderIdle)"
    using Push [of "?s (?k + 1) 0 0 SenderStored" cap] by simp
  moreover have "race_access cap (?s (?k + 1) 1 0 SenderIdle) (?s (?k + 1) 0 1 SenderIdle)"
    using Peek [of "?s (?k + 1) 1 0 SenderIdle" cap] by simp
  ultimately have "(race_access cap)\<^sup>*\<^sup>* (?s ?k 0 0 SenderIdle) (?s (?k + 1) 0 1 SenderIdle)"
    by (meson converse_rtranclp_into_rtranclp rtranclp.rtrancl_refl)
  moreover have "race_drop (?s (?k + 1) 0 1 SenderIdle) (?s (?k + 1) 0 0 SenderIdle)"
    using Stale [of "?s (?k + 1) 0 1 SenderIdle"] by simp
  ultimately have "(race_step cap)\<^sup>*\<^sup>* (?s ?k 0 0 SenderIdle) (?s (?k + 1) 0 0 SenderIdle)"
    by (meson race_access_steps race_step.Dropped rtranclp.rtrancl_into_rtrancl)
  then show ?thesis by (simp add: race_idle_def add.commute)
qed

lemma race_idle_step_reachable:
  assumes "k \<le> cap" and "cap < 2 ^ 64"
  shows "(race_step cap)\<^sup>*\<^sup>* race_init (race_idle k)"
  using assms(1)
proof (induction k)
  case 0
  show ?case by (simp add: race_idle_def race_init_def)
next
  case (Suc k)
  then have "(race_step cap)\<^sup>*\<^sup>* (race_idle k) (race_idle (k + 1))"
    using assms(2) by (intro race_drop_one) simp_all
  with Suc show ?case by (simp add: rtranclp_trans)
qed

text \<open>The lengths a run can leave behind with everybody idle and nothing in flight.\<close>

definition race_leaves :: "(race \<Rightarrow> race \<Rightarrow> bool) \<Rightarrow> nat \<Rightarrow> bool" where
  "race_leaves r k \<longleftrightarrow> (\<exists>x. r\<^sup>*\<^sup>* race_init x \<and> race_pc x = SenderIdle \<and> race_in_flight x = 0
     \<and> unat (race_len x) = k)"

lemma race_leaves_idle: "r\<^sup>*\<^sup>* race_init (race_idle k) \<Longrightarrow> k < 2 ^ 64 \<Longrightarrow> race_leaves r k"
  unfolding race_leaves_def
  by (intro exI [of _ "race_idle k"]) (simp add: race_idle_def race_in_flight_def unat_of_nat_u64)

section \<open>Properties\<close>

text \<open>
  C23. However the atomic accesses of the sender and the receivers interleave, the length is
  at most the capacity and at least the number of publishes in flight, so no \<open>fetch_sub\<close>
  wraps around and no more publishes are queued than the capacity allows.
\<close>

theorem race_no_underflow:
  assumes "(race_step cap)\<^sup>*\<^sup>* race_init x" and "0 < cap" and "cap < 2 ^ 64"
  shows "race_in_flight x \<le> unat (race_len x) \<and> unat (race_len x) \<le> cap
    \<and> (0 < race_popped x \<longrightarrow> unat (race_len x - 1) = unat (race_len x) - 1)"
proof -
  have inv: "race_inv cap x" by (rule race_inv_reachable [OF assms])
  then have "0 < race_popped x \<Longrightarrow> 0 < unat (race_len x)"
    by (simp add: race_inv_def race_in_flight_def)
  with inv show ?thesis by (auto simp: race_inv_def u64_dec)
qed

theorem race_no_underflow_witness:
  "race_in_flight (race_idle 2) \<le> unat (race_len (race_idle 2)) \<and> unat (race_len (race_idle 2)) \<le> 2"
  using race_no_underflow [of 2 "race_idle 2"] race_idle_step_reachable [of 2 2] by simp

text \<open>
  C39. The increment is not atomic, so updates are lost; and a publish dropped by
  \<open>poll_stale\<close> or with its receiver is never subtracted. With everybody idle and nothing in
  flight, the lost updates alone can leave exactly the lengths below the capacity, all but
  one of the places for publishes; with dropped publishes as well, exactly the lengths up
  to the capacity, which refuses every further publish to an empty queue.
\<close>

theorem race_loses_capacity:
  assumes "0 < cap" and "cap < 2 ^ 64"
  shows "(race_leaves (race_access cap) k \<longleftrightarrow> k < cap) \<and> (race_leaves (race_step cap) k \<longleftrightarrow> k \<le> cap)"
proof (intro conjI iffI)
  assume "race_leaves (race_access cap) k"
  then show "k < cap"
    by (auto simp: race_leaves_def race_lost_def dest: race_lost_undropped [OF _ assms])
next
  assume "race_leaves (race_step cap) k"
  then show "k \<le> cap"
    by (auto simp: race_leaves_def race_inv_def dest: race_inv_reachable [OF _ assms])
next
  assume "k < cap"
  then show "race_leaves (race_access cap) k"
    using assms(2) by (intro race_leaves_idle race_idle_reachable) simp_all
next
  assume "k \<le> cap"
  then show "race_leaves (race_step cap) k"
    using assms(2) by (intro race_leaves_idle race_idle_step_reachable) simp_all
qed

theorem race_loses_capacity_witness:
  "race_leaves (race_access 2500) 2499 \<and> \<not> race_leaves (race_access 2500) 2500
   \<and> race_leaves (race_step 2500) 2500 \<and> \<not> race_leaves (race_step 2500) 2501"
  using race_loses_capacity [of 2500 2499] race_loses_capacity [of 2500 2500]
    race_loses_capacity [of 2500 2501] by simp

end
