(* ===== verification/Dog_Handler_Steps.thy ===== *)
theory Dog_Handler_Steps
  imports Dog_Handler
begin

text \<open>
  The connection handler as a machine: polls, connection events, and whatever the sender and
  the other connections of the peer do to the shared channels. Its loops end, it never
  panics, its attempts are bounded, and what it writes is the queue in order.
\<close>

section \<open>The machine\<close>

text \<open>
  The events the swarm delivers: which ones concern a substream, and that an outbound one
  answers a request of the handler. The number of unanswered requests is part of the state.
\<close>

locale connection_events =
  fixes is_inbound is_outbound :: "('s, 'o) connection_event \<Rightarrow> bool"
  assumes inbound_negotiated [simp]: "is_inbound (FullyNegotiatedInbound s)"
    and outbound_negotiated [simp]: "is_outbound (FullyNegotiatedOutbound s)"
    and outbound_error [simp]: "is_outbound (DialUpgradeError err)"
    and not_both: "is_inbound e \<Longrightarrow> \<not> is_outbound e"

type_synonym ('s, 'r, 'q) handler_state = "nat \<times> ('s, 'r) handler \<times> 'q send_channels"

fun is_request :: "'p connection_handler_event poll \<Rightarrow> bool" where
  "is_request (Ready (OutboundSubstreamRequest pc)) = True"
| "is_request _ = False"

inductive handler_step ::
  "('q, 'r, 'p rpc_out) channel_ops \<Rightarrow> ('p, 'k, 'pk) libp2p_ops \<Rightarrow>
   (('s, 'o) connection_event \<Rightarrow> bool) \<Rightarrow> (('s, 'o) connection_event \<Rightarrow> bool) \<Rightarrow>
   ('s, 'r, 'q) handler_state \<Rightarrow> ('s, 'r, 'q) handler_state \<Rightarrow> bool"
  for C I is_inbound is_outbound where
  Poll: "handler_poll C I F elapsed (h, ch) = Some (Returned (res, h', ch')) \<Longrightarrow>
    handler_step C I is_inbound is_outbound (n, h, ch) (if is_request res then n + 1 else n, h', ch')"
| Answer: "is_outbound e \<Longrightarrow> 0 < n \<Longrightarrow> on_connection_event is_inbound is_outbound e h = Some h' \<Longrightarrow>
    handler_step C I is_inbound is_outbound (n, h, ch) (n - 1, h', ch)"
| Event: "\<not> is_outbound e \<Longrightarrow> on_connection_event is_inbound is_outbound e h = Some h' \<Longrightarrow>
    handler_step C I is_inbound is_outbound (n, h, ch) (n, h', ch)"
| Channels: "handler_step C I is_inbound is_outbound (n, h, ch) (n, h, ch')"

inductive_cases handler_stepE: "handler_step C I is_inbound is_outbound (n, h, ch) y"

section \<open>Its invariant\<close>

definition not_poisoned :: "('s, 'r) enabled_handler \<Rightarrow> bool" where
  "not_poisoned h \<longleftrightarrow>
     outbound_substream h \<noteq> Some OutboundPoisoned \<and> inbound_substream h \<noteq> Some InboundPoisoned"

definition handler_inv :: "nat \<Rightarrow> ('s, 'r) handler \<Rightarrow> bool" where
  "handler_inv n handler \<longleftrightarrow>
     (case handler of
        Disabled d \<Rightarrow> True
      | Enabled h \<Rightarrow>
          not_poisoned h
          \<and> n = (if outbound_substream_establishing h then 1 else 0)
          \<and> (outbound_substream_establishing h \<longrightarrow> outbound_substream h = None)
          \<and> inbound_substream_attempts h < MAX_SUBSTREAM_ATTEMPS
          \<and> outbound_substream_attempts h < MAX_SUBSTREAM_ATTEMPS)"

text \<open>What a poll leaves unchanged in a handler, apart from the flag it may set.\<close>

definition poll_frame :: "('s, 'r) enabled_handler \<Rightarrow> ('s, 'r) enabled_handler \<Rightarrow> bool" where
  "poll_frame h h' \<longleftrightarrow>
     listen_protocol h' = listen_protocol h
     \<and> outbound_substream_establishing h' = outbound_substream_establishing h
     \<and> outbound_substream_attempts h' = outbound_substream_attempts h
     \<and> inbound_substream_attempts h' = inbound_substream_attempts h
     \<and> (outbound_substream h = None \<longrightarrow> outbound_substream h' = None)"

lemma poll_frame_refl [simp]: "poll_frame h h"
  by (simp add: poll_frame_def)

lemma poll_frame_trans: "poll_frame h h' \<Longrightarrow> poll_frame h' h'' \<Longrightarrow> poll_frame h h''"
  by (simp add: poll_frame_def)

lemma poll_frame_queue [simp]: "poll_frame h (h'\<lparr>send_queue := rv\<rparr>) = poll_frame h h'"
  by (simp add: poll_frame_def)

lemma not_poisoned_queue [simp]: "not_poisoned (h\<lparr>send_queue := rv\<rparr>) = not_poisoned h"
  by (simp add: not_poisoned_def)

text \<open>The inbound loop: at most two iterations.\<close>

lemma inbound_step_cases:
  assumes "inbound_step F h = (exit, h')" and "not_poisoned h"
  shows "poll_frame h h' \<and> not_poisoned h' \<and> exit \<noteq> Panic \<and> send_queue h' = send_queue h
    \<and> (exit = Continue \<longrightarrow> (\<exists>s s'. inbound_substream h = Some (WaitingInput s)
         \<and> inbound_substream h' = Some (Closing s')))
    \<and> (\<forall>e. exit = Return e \<longrightarrow> (\<exists>ev. e = NotifyBehaviour ev))"
  using assms
  by (auto simp: inbound_step_def not_poisoned_def poll_frame_def Let_def
      split: option.splits inbound_substream_state.splits prod.splits poll.splits sum.splits)

lemma inbound_loop:
  assumes "not_poisoned h"
  obtains exit h' where "run_loop (inbound_step F) h = Some (exit, h')"
    and "exit = Break \<or> (\<exists>ev. exit = Return (NotifyBehaviour ev))"
    and "poll_frame h h'" and "not_poisoned h'"
proof -
  let ?m = "\<lambda>h :: ('a, 'b) enabled_handler.
    case inbound_substream h of Some (WaitingInput s) \<Rightarrow> 1 :: nat | _ \<Rightarrow> 0"
  have "\<exists>exit h'. run_loop (inbound_step F) h = Some (exit, h') \<and> exit \<noteq> Continue
      \<and> (exit \<noteq> Panic \<and> (\<forall>e. exit = Return e \<longrightarrow> (\<exists>ev. e = NotifyBehaviour ev))
         \<and> poll_frame h h' \<and> not_poisoned h')"
  proof (rule run_loop_terminates [where m = ?m and P = "\<lambda>x. poll_frame h x \<and> not_poisoned x"])
    fix x x' :: "('a, 'b) enabled_handler"
    assume x: "poll_frame h x \<and> not_poisoned x"
    { assume "inbound_step F x = (Continue, x')"
      from inbound_step_cases [OF this] x show "(poll_frame h x' \<and> not_poisoned x') \<and> ?m x' < ?m x"
        by (auto intro: poll_frame_trans) }
    { fix exit assume "inbound_step F x = (exit, x')"
      from inbound_step_cases [OF this] x
      show "exit \<noteq> Panic \<and> (\<forall>e. exit = Return e \<longrightarrow> (\<exists>ev. e = NotifyBehaviour ev))
          \<and> poll_frame h x' \<and> not_poisoned x'"
        by (auto intro: poll_frame_trans) }
  qed (use assms in simp)
  then obtain exit h' where "run_loop (inbound_step F) h = Some (exit, h')" "exit \<noteq> Continue" "exit \<noteq> Panic"
    "\<forall>e. exit = Return e \<longrightarrow> (\<exists>ev. e = NotifyBehaviour ev)" "poll_frame h h'" "not_poisoned h'"
    by blast
  moreover from this have "exit = Break \<or> (\<exists>ev. exit = Return (NotifyBehaviour ev))"
    by (cases exit) auto
  ultimately show ?thesis by (intro that [of exit h'])
qed

text \<open>
  The outbound loop: three iterations for each message in the queue, and at most two more
  for what is being sent.
\<close>

definition outbound_measure ::
  "('q \<Rightarrow> 'p rpc_out list) \<Rightarrow> ('r \<Rightarrow> 'p rpc_out list) \<Rightarrow> ('s, 'r) enabled_handler \<times> 'q send_channels \<Rightarrow> nat" where
  "outbound_measure items slot x =
     3 * (length (priority_pending items slot (send_queue (fst x), snd x))
          + length (non_priority_pending items slot (send_queue (fst x), snd x)))
     + (case outbound_substream (fst x) of
          Some (PendingSend s r) \<Rightarrow> 2 | Some (PendingFlush s) \<Rightarrow> 1 | _ \<Rightarrow> 0)"

context rpc_channel
begin

lemma poll_next_shrinks:
  assumes "receiver_poll_next C (rv, ch) = (Ready (Some m), rv', ch')"
  shows "length (priority_pending items slot (rv', ch')) + length (non_priority_pending items slot (rv', ch'))
    < length (priority_pending items slot (rv, ch)) + length (non_priority_pending items slot (rv, ch))"
proof (cases "priority_pending items slot (rv, ch)")
  case (Cons n ms)
  from poll_next_priority [OF Cons] obtain r q where
    "receiver_poll_next C (rv, ch) = (Ready (Some n), rv\<lparr>priority_receiver := r\<rparr>,
      ch\<lparr>priority_channel := q,
         queue_len := (if is_publish n then queue_len ch - 1 else queue_len ch)\<rparr>)"
    "slot r = []" "items q = ms" .
  with assms Cons show ?thesis by auto
next
  case Nil
  show ?thesis
  proof (cases "is_open (priority_channel ch)")
    case False
    have "\<exists>r q. rx_poll_next C (priority_receiver rv) (priority_channel ch) = (Ready None, r, q)"
      using next_Nil [of "priority_receiver rv" "priority_channel ch"] False Nil
      by (auto simp: priority_pending_def)
    then show ?thesis using assms by (auto simp: receiver_poll_next_def)
  next
    case opn: True
    show ?thesis
    proof (cases "non_priority_pending items slot (rv, ch)")
      case (Cons n ms)
      from poll_next_non_priority [OF Nil opn Cons] obtain r q r' q' where
        "receiver_poll_next C (rv, ch) = (Ready (Some n),
          rv\<lparr>priority_receiver := r, non_priority_receiver := r'\<rparr>,
          ch\<lparr>priority_channel := q, non_priority_channel := q'\<rparr>)"
        "slot r = []" "items q = []" "slot r' = []" "items q' = ms" .
      with assms Cons show ?thesis by auto
    next
      case np: Nil
      have "\<exists>r q. rx_poll_next C (priority_receiver rv) (priority_channel ch) = (Pending, r, q)"
        using next_Nil [of "priority_receiver rv" "priority_channel ch"] opn Nil
        by (auto simp: priority_pending_def)
      moreover have "\<exists>x r q. rx_poll_next C (non_priority_receiver rv) (non_priority_channel ch) = (x, r, q)
          \<and> (x = Pending \<or> x = Ready None)"
        using next_Nil [of "non_priority_receiver rv" "non_priority_channel ch"] np
        by (auto simp: non_priority_pending_def split: if_splits)
      ultimately show ?thesis using assms by (auto simp: receiver_poll_next_def)
    qed
  qed
qed

lemma outbound_step_cases:
  assumes "outbound_step C I F elapsed (h, ch) = (exit, h', ch')" and "not_poisoned h"
  shows "poll_frame h h' \<and> not_poisoned h' \<and> exit \<noteq> Panic
    \<and> (\<forall>e. exit = Return e \<longrightarrow> (\<exists>ev. e = NotifyBehaviour ev))
    \<and> (exit = Continue \<longrightarrow> outbound_measure items slot (h', ch') < outbound_measure items slot (h, ch))"
proof (cases "\<exists>s. outbound_substream h = Some (WaitingOutput s)")
  case True
  then obtain s where s: "outbound_substream h = Some (WaitingOutput s)" ..
  obtain res rv ch2 where p: "receiver_poll_next C (send_queue h, ch) = (res, rv, ch2)"
    by (metis surj_pair)
  show ?thesis
  proof (cases "\<exists>m. res = Ready (Some m)")
    case True
    then obtain m where "res = Ready (Some m)" ..
    with assms s p poll_next_shrinks [of "send_queue h" ch m rv ch2] show ?thesis
      by (auto simp: outbound_step_def not_poisoned_def poll_frame_def outbound_measure_def Let_def
          split: if_splits option.splits)
  next
    case False
    with assms s p show ?thesis
      by (auto simp: outbound_step_def not_poisoned_def poll_frame_def Let_def
          split: poll.splits option.splits)
  qed
next
  case False
  with assms show ?thesis
    by (auto simp: outbound_step_def not_poisoned_def poll_frame_def outbound_measure_def Let_def
        split: option.splits outbound_substream_state.splits prod.splits poll.splits sum.splits)
qed

lemma outbound_loop:
  assumes "not_poisoned h"
  obtains exit h' ch' where "run_loop (outbound_step C I F elapsed) (h, ch) = Some (exit, h', ch')"
    and "exit = Break \<or> (\<exists>ev. exit = Return (NotifyBehaviour ev))"
    and "poll_frame h h'" and "not_poisoned h'"
proof -
  let ?P = "\<lambda>x. poll_frame h (fst x) \<and> not_poisoned (fst x)"
  let ?Q = "\<lambda>exit x. exit \<noteq> Panic \<and> (\<forall>e. exit = Return e \<longrightarrow> (\<exists>ev. e = NotifyBehaviour ev)) \<and> ?P x"
  have "\<exists>exit x. run_loop (outbound_step C I F elapsed) (h, ch) = Some (exit, x) \<and> exit \<noteq> Continue \<and> ?Q exit x"
  proof (rule run_loop_terminates [where m = "outbound_measure items slot" and P = ?P])
    show "?P x' \<and> outbound_measure items slot x' < outbound_measure items slot x"
      if "?P x" and "outbound_step C I F elapsed x = (Continue, x')" for x x'
      using that outbound_step_cases [of I F elapsed "fst x" "snd x" Continue "fst x'" "snd x'"]
      by (auto intro: poll_frame_trans)
    show "?Q exit x'" if "?P x" and "outbound_step C I F elapsed x = (exit, x')" for x exit x'
      using that outbound_step_cases [of I F elapsed "fst x" "snd x" exit "fst x'" "snd x'"]
      by (auto intro: poll_frame_trans)
  qed (use assms in simp)
  then obtain exit x where "run_loop (outbound_step C I F elapsed) (h, ch) = Some (exit, x)"
    "exit \<noteq> Continue" "?Q exit x" by blast
  moreover from this have "exit = Break \<or> (\<exists>ev. exit = Return (NotifyBehaviour ev))"
    by (cases exit) auto
  ultimately show ?thesis by (intro that [of exit "fst x" "snd x"]) auto
qed

text \<open>Polling an enabled handler returns, and does not panic.\<close>

lemma enabled_poll_returns:
  assumes "not_poisoned h"
  obtains res h' ch' where "enabled_poll C I F elapsed (h, ch) = Some (Returned (res, h', ch'))"
    and "not_poisoned h'"
    and "if is_request res
      then outbound_substream h = None \<and> \<not> outbound_substream_establishing h
        \<and> outbound_substream_establishing h'
        \<and> poll_frame h (h'\<lparr>outbound_substream_establishing := False\<rparr>)
      else poll_frame h h'"
proof -
  obtain e rv ch1 where empty: "receiver_poll_is_empty C (send_queue h, ch) = (e, rv, ch1)"
    by (metis surj_pair)
  let ?h = "h\<lparr>send_queue := rv\<rparr>"
  show ?thesis
  proof (cases "\<not> e \<and> outbound_substream h = None \<and> \<not> outbound_substream_establishing h")
    case True
    with empty assms show ?thesis
      by (intro that [of "Ready (OutboundSubstreamRequest (listen_protocol h))"
            "?h\<lparr>outbound_substream_establishing := True\<rparr>" ch1])
        (auto simp: enabled_poll_def Let_def not_poisoned_def poll_frame_def)
  next
    case no_request: False
    obtain exit h1 ch2 where out: "run_loop (outbound_step C I F elapsed) (?h, ch1) = Some (exit, h1, ch2)"
      "exit = Break \<or> (\<exists>ev. exit = Return (NotifyBehaviour ev))"
      "poll_frame ?h h1" "not_poisoned h1"
      using outbound_loop [of ?h I F elapsed ch1] assms by auto
    have frame1: "poll_frame h h1"
      using out(3) by (simp add: poll_frame_def)
    show ?thesis
    proof (cases "exit = Break")
      case False
      with out(2) obtain ev where "exit = Return (NotifyBehaviour ev)" by blast
      with out(1,4) empty no_request frame1 show ?thesis
        by (intro that [of "Ready (NotifyBehaviour ev)" h1 ch2]) (auto simp: enabled_poll_def Let_def)
    next
      case brk: True
      obtain exit' h2 where inb: "run_loop (inbound_step F) h1 = Some (exit', h2)"
        "exit' = Break \<or> (\<exists>ev. exit' = Return (NotifyBehaviour ev))"
        "poll_frame h1 h2" "not_poisoned h2"
        using inbound_loop [OF out(4)] .
      have frame2: "poll_frame h h2" by (rule poll_frame_trans [OF frame1 inb(3)])
      obtain sres rv' ch3 where stale:
        "receiver_poll_stale C elapsed (send_queue h2, ch2) = Some (sres, rv', ch3)"
        by (rule poll_stale_spec [of elapsed "send_queue h2" ch2]) blast
      have step: "enabled_poll C I F elapsed (h, ch) =
          (case run_loop (inbound_step F) h1 of
             None \<Rightarrow> None
           | Some (Return event, h) \<Rightarrow> Some (Returned (Ready event, h, ch2))
           | Some (Break, h) \<Rightarrow>
               (case receiver_poll_stale C elapsed (send_queue h, ch2) of
                  None \<Rightarrow> Some Panicked
                | Some (res, rv, ch) \<Rightarrow>
                    (let h = h\<lparr>send_queue := rv\<rparr>
                     in case res of
                          Ready (Some m) \<Rightarrow>
                            Some (Returned (Ready (NotifyBehaviour (TransactionDropped m)), h, ch))
                        | _ \<Rightarrow> Some (Returned (Pending, h, ch))))
           | Some _ \<Rightarrow> Some Panicked)"
        using empty no_request out(1) brk by (auto simp: enabled_poll_def Let_def)
      from inb(2) show ?thesis
      proof
        assume "\<exists>ev. exit' = Return (NotifyBehaviour ev)"
        then obtain ev where "exit' = Return (NotifyBehaviour ev)" ..
        with step inb(1,4) frame2 show ?thesis
          by (intro that [of "Ready (NotifyBehaviour ev)" h2 ch2]) auto
      next
        assume b: "exit' = Break"
        show ?thesis
        proof (cases "\<exists>m. sres = Ready (Some m)")
          case True
          then obtain m where "sres = Ready (Some m)" ..
          with step inb(1,4) b stale frame2 show ?thesis
            by (intro that [of "Ready (NotifyBehaviour (TransactionDropped m))" "h2\<lparr>send_queue := rv'\<rparr>" ch3]) auto
        next
          case False
          with step inb(1,4) b stale frame2 show ?thesis
            by (intro that [of Pending "h2\<lparr>send_queue := rv'\<rparr>" ch3])
              (auto simp: Let_def split: poll.splits option.splits)
        qed
      qed
    qed
  qed
qed

end

section \<open>The invariant holds\<close>

lemma handler_poll_returns:
  assumes "rpc_channel C items capacity is_open slot" and "handler_inv n h"
  obtains res h' ch' where "handler_poll C I F elapsed (h, ch) = Some (Returned (res, h', ch'))"
    and "handler_inv (if is_request res then n + 1 else n) h'"
proof (cases h)
  case (Disabled d)
  then show ?thesis
    using that [of Pending h ch] by (cases d) (auto simp: handler_poll_def handler_inv_def)
next
  case (Enabled eh)
  with assms(2) have np: "not_poisoned eh" by (simp add: handler_inv_def)
  obtain res h' ch' where "enabled_poll C I F elapsed (eh, ch) = Some (Returned (res, h', ch'))"
    "not_poisoned h'"
    "if is_request res
     then outbound_substream eh = None \<and> \<not> outbound_substream_establishing eh
       \<and> outbound_substream_establishing h'
       \<and> poll_frame eh (h'\<lparr>outbound_substream_establishing := False\<rparr>)
     else poll_frame eh h'"
    by (rule rpc_channel.enabled_poll_returns [OF assms(1) np])
  with assms(2) Enabled show ?thesis
    by (intro that [of res "handler.Enabled h'" ch'])
      (auto simp: handler_poll_def handler_inv_def poll_frame_def split: if_splits)
qed

context connection_events
begin

lemma event_inv:
  assumes "handler_inv n h" and "is_outbound e \<Longrightarrow> 0 < n"
  obtains h' where "on_connection_event is_inbound is_outbound e h = Some h'"
    and "handler_inv (if is_outbound e then n - 1 else n) h'"
proof (cases h)
  case (Disabled d)
  then show ?thesis using that [of h] by (auto simp: on_connection_event_def handler_inv_def)
next
  case (Enabled eh)
  have "\<exists>h'. on_connection_event is_inbound is_outbound e h = Some h'
      \<and> handler_inv (if is_outbound e then n - 1 else n) h'"
  proof (cases "is_outbound e")
    case True
    then have "\<not> is_inbound e" using not_both by blast
    with True assms Enabled show ?thesis
      by (cases e)
        (auto simp: on_connection_event_def handler_inv_def Let_def on_fully_negotiated_outbound_def
          not_poisoned_def MAX_SUBSTREAM_ATTEMPS_def split: stream_upgrade_error.splits if_splits)
  next
    case False
    then have "\<exists>s. e = FullyNegotiatedInbound s \<or> (\<exists>x. e = OtherEvent x)"
      using outbound_negotiated outbound_error by (cases e) auto
    with False assms Enabled show ?thesis
      by (auto simp: on_connection_event_def handler_inv_def Let_def on_fully_negotiated_inbound_def
          not_poisoned_def MAX_SUBSTREAM_ATTEMPS_def)
  qed
  then show ?thesis using that by blast
qed

text \<open>Each event of a kind is counted, until the fifth of its kind.\<close>

lemma event_counts:
  assumes "inbound_substream_attempts h < 5" and "outbound_substream_attempts h < 5"
    and "on_connection_event is_inbound is_outbound e (Enabled h) = Some r"
  shows "(is_inbound e \<longrightarrow>
        (case r of
           Enabled h' \<Rightarrow> inbound_substream_attempts h' = inbound_substream_attempts h + 1
             \<and> inbound_substream_attempts h' < 5
         | Disabled d \<Rightarrow> d = MaxSubstreamAttempts \<and> inbound_substream_attempts h = 4))
    \<and> (is_outbound e \<longrightarrow>
        (case r of
           Enabled h' \<Rightarrow> outbound_substream_attempts h' = outbound_substream_attempts h + 1
             \<and> outbound_substream_attempts h' < 5
         | Disabled d \<Rightarrow> d = MaxSubstreamAttempts \<and> outbound_substream_attempts h = 4
             \<or> d = ProtocolUnsupported \<and> e = DialUpgradeError NegotiationFailed))"
proof (cases "is_outbound e")
  case True
  then have "\<not> is_inbound e" using not_both by blast
  with True assms show ?thesis
    by (cases e)
      (auto simp: on_connection_event_def Let_def on_fully_negotiated_outbound_def MAX_SUBSTREAM_ATTEMPS_def
        split: stream_upgrade_error.splits if_splits)
next
  case False
  then have "\<exists>s. e = FullyNegotiatedInbound s \<or> (\<exists>x. e = OtherEvent x)"
    using outbound_negotiated outbound_error by (cases e) auto
  with False assms show ?thesis
    by (auto simp: on_connection_event_def Let_def on_fully_negotiated_inbound_def MAX_SUBSTREAM_ATTEMPS_def
        split: if_splits)
qed

lemma handler_inv_step [preserve]:
  assumes "rpc_channel C items capacity is_open slot"
    and "handler_step C I is_inbound is_outbound x y" and "handler_inv (fst x) (fst (snd x))"
  shows "handler_inv (fst y) (fst (snd y))"
  using assms(2,3)
proof (induction rule: handler_step.induct)
  case (Poll F elapsed h ch res h' ch' n)
  then show ?case
    using handler_poll_returns [OF assms(1), of n h I F elapsed ch] by fastforce
next
  case (Answer e n h h' ch)
  then show ?case using event_inv [of n h e] by fastforce
next
  case (Event e h h' n ch)
  then show ?case using event_inv [of n h e] by fastforce
qed simp

lemma handler_inv_reachable:
  assumes "rpc_channel C items capacity is_open slot"
    and "(handler_step C I is_inbound is_outbound)\<^sup>*\<^sup>* (0, handler_new pc queue, ch) y"
  shows "handler_inv (fst y) (fst (snd y))"
  using assms(2)
proof (induction rule: rtranclp_induct)
  case base
  show ?case
    by (simp add: handler_inv_def handler_new_def not_poisoned_def MAX_SUBSTREAM_ATTEMPS_def)
next
  case (step y z)
  then show ?case using handler_inv_step [OF assms(1)] by blast
qed

end

end
