(* ===== verification/Dog_Handler_Props.thy ===== *)
theory Dog_Handler_Props
  imports Dog_Handler_Steps
begin

text \<open>
  What the handler guarantees: what its outbound loop writes on a substream that accepts
  everything, and the properties of its machine.
\<close>

section \<open>A substream that accepts everything\<close>

text \<open>\<open>sent s\<close> are the messages handed to a substream.\<close>

locale reliable_sink =
  fixes F :: "('s, 'p) framed_ops" and sent :: "'s \<Rightarrow> proto_rpc list"
  assumes ready_law: "\<exists>s'. sink_poll_ready F s = (Ready (Inr ()), s') \<and> sent s' = sent s"
    and send_law: "\<exists>s'. sink_start_send F s r = (Inr (), s') \<and> sent s' = sent s @ [r]"
    and flush_law: "\<exists>s'. sink_poll_flush F s = (Ready (Inr ()), s') \<and> sent s' = sent s"

lemma loop_continue: "step x = (Continue, x') \<Longrightarrow> run_loop step x = run_loop step x'"
  by (subst run_loop.simps) simp

lemma loop_exit: "step x = (exit, x') \<Longrightarrow> exit \<noteq> Continue \<Longrightarrow> run_loop step x = Some (exit, x')"
  by (subst run_loop.simps) (auto split: loop_exit.split)

text \<open>All that one receiver has still to deliver, in the order it will.\<close>

definition all_pending :: "('q \<Rightarrow> 'm list) \<Rightarrow> ('r \<Rightarrow> 'm list) \<Rightarrow> ('q, 'r) receiving \<Rightarrow> 'm list" where
  "all_pending items slot x = priority_pending items slot x @ non_priority_pending items slot x"

definition late :: "(delay \<Rightarrow> bool) \<Rightarrow> 'p rpc_out \<Rightarrow> bool" where
  "late elapsed m = (case rpc_timeout m of Some timeout \<Rightarrow> elapsed timeout | None \<Rightarrow> False)"

definition both_open :: "('q \<Rightarrow> bool) \<Rightarrow> 'q send_channels \<Rightarrow> bool" where
  "both_open is_open ch \<longleftrightarrow> is_open (priority_channel ch) \<and> is_open (non_priority_channel ch)"

context rpc_channel
begin

lemma poll_next_head:
  assumes "all_pending items slot (rv, ch) = m # ms" and "both_open is_open ch"
  obtains rv' ch' where "receiver_poll_next C (rv, ch) = (Ready (Some m), rv', ch')"
    and "all_pending items slot (rv', ch') = ms" and "both_open is_open ch'"
proof (cases "priority_pending items slot (rv, ch)")
  case (Cons n ns)
  from poll_next_priority [OF Cons] obtain r q where
    "receiver_poll_next C (rv, ch) = (Ready (Some n), rv\<lparr>priority_receiver := r\<rparr>,
      ch\<lparr>priority_channel := q,
         queue_len := (if is_publish n then queue_len ch - 1 else queue_len ch)\<rparr>)"
    "slot r = []" "items q = ns" "capacity q = capacity (priority_channel ch)"
    "is_open q = is_open (priority_channel ch)" .
  with Cons assms show ?thesis
    by (intro that [of "rv\<lparr>priority_receiver := r\<rparr>" "ch\<lparr>priority_channel := q,
         queue_len := (if is_publish n then queue_len ch - 1 else queue_len ch)\<rparr>"])
      (auto simp: all_pending_def both_open_def)
next
  case Nil
  with assms have np: "non_priority_pending items slot (rv, ch) = m # ms"
    and opn: "is_open (priority_channel ch)"
    by (simp_all add: all_pending_def both_open_def)
  from poll_next_non_priority [OF Nil opn np] obtain r q r' q' where
    "receiver_poll_next C (rv, ch) = (Ready (Some m),
      rv\<lparr>priority_receiver := r, non_priority_receiver := r'\<rparr>,
      ch\<lparr>priority_channel := q, non_priority_channel := q'\<rparr>)"
    "slot r = []" "items q = []" "capacity q = capacity (priority_channel ch)" "is_open q"
    "slot r' = []" "items q' = ms" "capacity q' = capacity (non_priority_channel ch)"
    "is_open q' = is_open (non_priority_channel ch)" .
  with assms show ?thesis
    by (intro that [of "rv\<lparr>priority_receiver := r, non_priority_receiver := r'\<rparr>"
          "ch\<lparr>priority_channel := q, non_priority_channel := q'\<rparr>"])
      (auto simp: all_pending_def both_open_def)
qed

lemma poll_next_none:
  assumes "all_pending items slot (rv, ch) = []" and "both_open is_open ch"
  obtains rv' ch' where "receiver_poll_next C (rv, ch) = (Pending, rv', ch')"
    and "all_pending items slot (rv', ch') = []"
proof -
  from assms have none: "priority_pending items slot (rv, ch) = []" "is_open (priority_channel ch)"
    "non_priority_pending items slot (rv, ch) = []" "is_open (non_priority_channel ch)"
    by (simp_all add: all_pending_def both_open_def)
  from poll_next_empty [OF none] obtain r q r' q' where
    "receiver_poll_next C (rv, ch) = (Pending,
      rv\<lparr>priority_receiver := r, non_priority_receiver := r'\<rparr>,
      ch\<lparr>priority_channel := q, non_priority_channel := q'\<rparr>)"
    "slot r = []" "items q = []" "capacity q = capacity (priority_channel ch)" "is_open q"
    "slot r' = []" "items q' = []" .
  then show ?thesis
    by (intro that [of "rv\<lparr>priority_receiver := r, non_priority_receiver := r'\<rparr>"
          "ch\<lparr>priority_channel := q, non_priority_channel := q'\<rparr>"])
      (auto simp: all_pending_def)
qed

end

locale delivery = rpc_channel C items capacity is_open slot + reliable_sink F sent
  for C :: "('q, 'r, 'p rpc_out) channel_ops" and items capacity is_open slot
    and F :: "('s, 'p) framed_ops" and sent
begin

lemma outbound_loop_delivers:
  assumes "outbound_substream h = Some (WaitingOutput s)" and "both_open is_open ch"
    and "all_pending items slot (send_queue h, ch) = ms"
  shows "\<exists>h' ch' s'. run_loop (outbound_step C I F elapsed) (h, ch) =
      Some (case dropWhile (\<lambda>m. \<not> late elapsed m) ms of
              [] \<Rightarrow> Break | m # ms \<Rightarrow> Return (NotifyBehaviour (TransactionDropped m)), h', ch')
    \<and> outbound_substream h' = Some (WaitingOutput s')
    \<and> sent s' = sent s @ map (rpc_out_into_protobuf I) (takeWhile (\<lambda>m. \<not> late elapsed m) ms)
    \<and> all_pending items slot (send_queue h', ch') = tl (dropWhile (\<lambda>m. \<not> late elapsed m) ms)"
  using assms
proof (induction ms arbitrary: h ch s)
  case Nil
  from poll_next_none [OF Nil(3,2)] obtain rv ch1 where
    p: "receiver_poll_next C (send_queue h, ch) = (Pending, rv, ch1)"
    "all_pending items slot (rv, ch1) = []" .
  then have "outbound_step C I F elapsed (h, ch) =
      (Break, h\<lparr>outbound_substream := Some (WaitingOutput s), send_queue := rv\<rparr>, ch1)"
    using Nil(1) by (simp add: outbound_step_def Let_def)
  from loop_exit [of "outbound_step C I F elapsed", OF this] p show ?case by simp
next
  case (Cons m ms)
  from poll_next_head [OF Cons.prems(3,2)] obtain rv ch1 where
    p: "receiver_poll_next C (send_queue h, ch) = (Ready (Some m), rv, ch1)"
    "all_pending items slot (rv, ch1) = ms" "both_open is_open ch1" .
  show ?case
  proof (cases "late elapsed m")
    case True
    with p Cons.prems(1) have "outbound_step C I F elapsed (h, ch) =
        (Return (NotifyBehaviour (TransactionDropped m)),
         h\<lparr>outbound_substream := Some (WaitingOutput s), send_queue := rv\<rparr>, ch1)"
      by (simp add: outbound_step_def Let_def late_def)
    from loop_exit [of "outbound_step C I F elapsed", OF this] p True show ?thesis by simp
  next
    case False
    let ?r = "rpc_out_into_protobuf I m"
    let ?h = "\<lambda>st. h\<lparr>outbound_substream := Some st, send_queue := rv\<rparr>"
    from p(1) False Cons.prems(1) have 1: "outbound_step C I F elapsed (h, ch) =
        (Continue, ?h (PendingSend s ?r), ch1)"
      by (simp add: outbound_step_def Let_def late_def)
    obtain s1 where s1: "sink_poll_ready F s = (Ready (Inr ()), s1)" "sent s1 = sent s"
      using ready_law by blast
    obtain s2 where s2: "sink_start_send F s1 ?r = (Inr (), s2)" "sent s2 = sent s1 @ [?r]"
      using send_law by blast
    obtain s3 where s3: "sink_poll_flush F s2 = (Ready (Inr ()), s3)" "sent s3 = sent s2"
      using flush_law by blast
    have 2: "outbound_step C I F elapsed (?h (PendingSend s ?r), ch1) =
        (Continue, ?h (PendingFlush s2), ch1)"
      using s1(1) s2(1) by (simp add: outbound_step_def Let_def)
    have 3: "outbound_step C I F elapsed (?h (PendingFlush s2), ch1) =
        (Continue, ?h (WaitingOutput s3), ch1)"
      using s3(1) by (simp add: outbound_step_def Let_def)
    note loop = loop_continue [of "outbound_step C I F elapsed", OF 1]
      loop_continue [of "outbound_step C I F elapsed", OF 2]
      loop_continue [of "outbound_step C I F elapsed", OF 3]
    have "all_pending items slot (send_queue (?h (WaitingOutput s3)), ch1) = ms"
      using p(2) by simp
    from Cons.IH [OF _ p(3) this, of s3] False s1(2) s2(2) s3(2) show ?thesis
      by (simp add: loop)
  qed
qed

end

section \<open>Concrete substreams and events\<close>

text \<open>
  A substream that is the list of the messages written to it, and connection events whose
  other cases say whether they are inbound. The witnesses run on them.
\<close>

definition list_framed :: "(proto_rpc list, byte) framed_ops" where
  "list_framed =
     \<lparr>sink_poll_ready = (\<lambda>s. (Ready (Inr ()), s)),
      sink_start_send = (\<lambda>s r. (Inr (), s @ [r])),
      sink_poll_flush = (\<lambda>s. (Ready (Inr ()), s)),
      sink_poll_close = (\<lambda>s. (Ready (Inr ()), s)),
      stream_poll_next = (\<lambda>s. (Pending, s))\<rparr>"

fun event_is_inbound :: "('s, bool) connection_event \<Rightarrow> bool" where
  "event_is_inbound (FullyNegotiatedInbound s) = True"
| "event_is_inbound (OtherEvent b) = b"
| "event_is_inbound _ = False"

fun event_is_outbound :: "('s, bool) connection_event \<Rightarrow> bool" where
  "event_is_outbound (FullyNegotiatedOutbound s) = True"
| "event_is_outbound (DialUpgradeError err) = True"
| "event_is_outbound _ = False"

interpretation sample_events: connection_events event_is_inbound event_is_outbound
proof
  show "\<not> event_is_outbound e" if "event_is_inbound e" for e :: "('a, bool) connection_event"
    using that by (cases e) auto
qed simp_all

interpretation sample_delivery: delivery list_channel list_items list_capacity list_open list_slot
  list_framed "\<lambda>s. s"
  by unfold_locales (auto simp: list_framed_def)

definition sample_handler :: "(proto_rpc list, byte rpc_out option) enabled_handler" where
  "sample_handler =
     \<lparr>listen_protocol = default_protocol_config, outbound_substream = None, inbound_substream = None,
      send_queue = new_receiver list_channel sample_sender, outbound_substream_establishing = False,
      outbound_substream_attempts = 0, inbound_substream_attempts = 0\<rparr>"

abbreviation sample_handler_step ::
  "(proto_rpc list, byte rpc_out option, byte rpc_out list_queue) handler_state \<Rightarrow>
   (proto_rpc list, byte rpc_out option, byte rpc_out list_queue) handler_state \<Rightarrow> bool" where
  "sample_handler_step \<equiv>
     handler_step list_channel sample_ops event_is_inbound event_is_outbound"

lemma disabled_poll [simp]:
  "handler_poll C I F elapsed (Disabled d, ch) = Some (Returned (Pending, Disabled d, ch))"
  by (cases d) (simp_all add: handler_poll_def)

section \<open>Properties\<close>

text \<open>
  C15. The handler never panics and its poll always returns: both loops end, \<open>Poisoned\<close> is
  never found in a substream, a message that \<open>poll_stale\<close> has peeked at is there when it
  takes it, and an outbound substream is never negotiated with one already there. This
  holds whatever the substreams and the other users of the queue do, as long as the swarm
  answers each request for an outbound substream at most once.
\<close>

theorem handler_never_panics:
  assumes "rpc_channel C items capacity is_open slot" and "connection_events is_inbound is_outbound"
    and "(handler_step C I is_inbound is_outbound)\<^sup>*\<^sup>* (0, handler_new pc queue, ch0) (n, h, ch)"
  shows "(\<exists>res h' ch'. handler_poll C I F elapsed (h, ch) = Some (Returned (res, h', ch')))
    \<and> ((is_outbound e \<longrightarrow> 0 < n) \<longrightarrow> on_connection_event is_inbound is_outbound e h \<noteq> None)"
proof -
  have inv: "handler_inv n h"
    using connection_events.handler_inv_reachable [OF assms(2,1,3)] by simp
  show ?thesis
    using handler_poll_returns [OF assms(1) inv, of I F elapsed ch]
      connection_events.event_inv [OF assms(2) inv, of e]
    by (metis option.distinct(1))
qed

theorem handler_never_panics_witness:
  "\<exists>res h' ch'. handler_poll list_channel sample_ops list_framed (\<lambda>_. True)
     (handler_new default_protocol_config (new_receiver list_channel sample_sender), sample_filled) =
     Some (Returned (res, h', ch'))"
  using handler_never_panics [OF lrc.rpc_channel_axioms sample_events.connection_events_axioms,
      OF rtranclp.rtrancl_refl [of sample_handler_step "(0, handler_new default_protocol_config
          (new_receiver list_channel sample_sender), sample_filled)"]]
  by blast

text \<open>
  C27. The attempts are bounded: an enabled handler has seen at most four inbound and four
  outbound events; the fifth of a kind disables it, every earlier one is counted, and
  besides that only a failed negotiation disables it.
\<close>

theorem substream_attempts_bounded:
  assumes "rpc_channel C items capacity is_open slot" and "connection_events is_inbound is_outbound"
    and "(handler_step C I is_inbound is_outbound)\<^sup>*\<^sup>* (0, handler_new pc queue, ch0) (n, Enabled h, ch)"
    and "on_connection_event is_inbound is_outbound e (Enabled h) = Some r"
  shows "inbound_substream_attempts h < 5 \<and> outbound_substream_attempts h < 5
    \<and> (is_inbound e \<longrightarrow>
        (case r of
           Enabled h' \<Rightarrow> inbound_substream_attempts h' = inbound_substream_attempts h + 1
             \<and> inbound_substream_attempts h' < 5
         | Disabled d \<Rightarrow> d = MaxSubstreamAttempts \<and> inbound_substream_attempts h = 4))
    \<and> (is_outbound e \<longrightarrow>
        (case r of
           Enabled h' \<Rightarrow> outbound_substream_attempts h' = outbound_substream_attempts h + 1
             \<and> outbound_substream_attempts h' < 5
         | Disabled d \<Rightarrow> d = MaxSubstreamAttempts \<and> outbound_substream_attempts h = 4
             \<or> d = ProtocolUnsupported \<and> e = DialUpgradeError NegotiationFailed))"
proof -
  have "handler_inv n (Enabled h)"
    using connection_events.handler_inv_reachable [OF assms(2,1,3)] by simp
  then have "inbound_substream_attempts h < 5" "outbound_substream_attempts h < 5"
    by (simp_all add: handler_inv_def MAX_SUBSTREAM_ATTEMPS_def)
  with connection_events.event_counts [OF assms(2) this assms(4)] show ?thesis by blast
qed

lemma sample_request:
  "sample_handler_step (0, Enabled sample_handler, sample_filled)
     (1, Enabled (sample_handler\<lparr>send_queue := \<lparr>priority_receiver = Some sample_publish,
            non_priority_receiver = Some sample_forward\<rparr>, outbound_substream_establishing := True\<rparr>),
      sample_filled\<lparr>priority_channel := ([HaveTx \<lparr>have_tx_id = TransactionId []\<rparr>], None, True),
        non_priority_channel := ([], Some 1, True)\<rparr>)"
  using Poll [of list_channel sample_ops list_framed "\<lambda>_. False" "Enabled sample_handler" sample_filled
      "Ready (OutboundSubstreamRequest default_protocol_config)" _ _ event_is_inbound event_is_outbound 0]
  by (simp add: handler_poll_def enabled_poll_def sample_handler_def sample_filled_def new_receiver_def
      list_channel_def receiver_poll_is_empty_def Let_def)

theorem substream_attempts_bounded_witness:
  "let h = sample_handler\<lparr>send_queue := \<lparr>priority_receiver = Some sample_publish,
         non_priority_receiver = Some sample_forward\<rparr>, outbound_substream_establishing := True\<rparr>
   in \<exists>h'. on_connection_event event_is_inbound event_is_outbound (FullyNegotiatedOutbound []) (Enabled h)
        = Some (Enabled h') \<and> outbound_substream_attempts h' = outbound_substream_attempts h + 1"
proof -
  let ?h = "sample_handler\<lparr>send_queue := \<lparr>priority_receiver = Some sample_publish,
         non_priority_receiver = Some sample_forward\<rparr>, outbound_substream_establishing := True\<rparr>"
  let ?h' = "?h\<lparr>outbound_substream_establishing := False, outbound_substream_attempts := 1,
      outbound_substream := Some (WaitingOutput [])\<rparr>"
  have new: "Enabled sample_handler = handler_new default_protocol_config (new_receiver list_channel sample_sender)"
    by (simp add: handler_new_def sample_handler_def)
  have e: "on_connection_event event_is_inbound event_is_outbound (FullyNegotiatedOutbound []) (Enabled ?h)
      = Some (Enabled ?h')"
    by (simp add: on_connection_event_def sample_handler_def MAX_SUBSTREAM_ATTEMPS_def
        on_fully_negotiated_outbound_def)
  from substream_attempts_bounded [OF lrc.rpc_channel_axioms sample_events.connection_events_axioms
      r_into_rtranclp [of sample_handler_step, OF sample_request [unfolded new]] e] e
  show ?thesis by (simp add: Let_def)
qed

text \<open>
  A disabled handler stays disabled, and a poll of it is pending and takes nothing from
  the queue, which keeps what the behaviour puts there.
\<close>

theorem disabled_forever:
  assumes "(handler_step C I is_inbound is_outbound)\<^sup>*\<^sup>* (n, Disabled d, ch) (n', h', ch')"
  shows "h' = Disabled d \<and> handler_poll C I F elapsed (h', ch') = Some (Returned (Pending, h', ch'))"
proof -
  have "fst (snd y) = Disabled d"
    if "(handler_step C I is_inbound is_outbound)\<^sup>*\<^sup>* (n, Disabled d, ch) y" for y
    using that
  proof (induction rule: rtranclp_induct)
    case (step y z)
    from step(2,3) show ?case
      by (cases rule: handler_step.cases) (auto simp: on_connection_event_def)
  qed simp
  from this [OF assms] show ?thesis by simp
qed

theorem disabled_forever_witness:
  "handler_poll list_channel sample_ops list_framed (\<lambda>_. True) (Disabled ProtocolUnsupported, sample_filled)
     = Some (Returned (Pending, Disabled ProtocolUnsupported, sample_filled))"
  using disabled_forever [OF rtranclp.rtrancl_refl [of sample_handler_step
        "(0, Disabled ProtocolUnsupported, sample_filled)"]]
  by blast

text \<open>
  C40. A handler without an outbound substream asks for one at its first poll even when there
  is nothing to send: on the channels of a live sender \<open>poll_is_empty\<close> never answers that the
  queues are empty, since an empty open channel is pending and not at its end.
\<close>

theorem outbound_requested_when_idle:
  assumes "rpc_channel C items capacity is_open slot"
    and "is_open (priority_channel ch) \<or> is_open (non_priority_channel ch)"
    and "outbound_substream h = None" and "\<not> outbound_substream_establishing h"
  shows "\<exists>h' ch'. enabled_poll C I F elapsed (h, ch) =
      Some (Returned (Ready (OutboundSubstreamRequest (listen_protocol h)), h', ch'))
    \<and> outbound_substream_establishing h'
    \<and> all_pending items slot (send_queue h', ch') = all_pending items slot (send_queue h, ch)"
proof -
  obtain rv ch' where "receiver_poll_is_empty C (send_queue h, ch) = (False, rv, ch')"
    "all_pending items slot (rv, ch') = all_pending items slot (send_queue h, ch)"
    by (rule rpc_channel.poll_is_empty_spec [OF assms(1), of "send_queue h" ch])
      (use assms(2) in \<open>auto simp: all_pending_def\<close>)
  with assms(3,4) show ?thesis
    by (simp add: enabled_poll_def)
qed

theorem outbound_requested_when_idle_witness:
  "\<exists>h' ch'. enabled_poll list_channel sample_ops list_framed (\<lambda>_. False)
      (sample_handler, sender_channels sample_sender) =
      Some (Returned (Ready (OutboundSubstreamRequest default_protocol_config), h', ch'))"
  using outbound_requested_when_idle [OF lrc.rpc_channel_axioms, of "sender_channels sample_sender"
      sample_handler sample_ops list_framed "\<lambda>_. False"]
  by (auto simp: sample_handler_def sample_sender_def sender_new_def list_channel_def)

text \<open>
  C19. On a substream that accepts everything, the outbound loop writes the queued messages in
  the order of the queue up to the first whose delay has elapsed; that one is taken out and
  reported as dropped, and the rest stays. Without such a message the queue is drained.
\<close>

theorem outbound_loop_correct:
  assumes "rpc_channel C items capacity is_open slot" and "reliable_sink F sent"
    and "outbound_substream h = Some (WaitingOutput s)" and "both_open is_open ch"
    and "all_pending items slot (send_queue h, ch) = ms"
  shows "\<exists>h' ch' s'. run_loop (outbound_step C I F elapsed) (h, ch) =
      Some (case dropWhile (\<lambda>m. \<not> late elapsed m) ms of
              [] \<Rightarrow> Break | m # ms \<Rightarrow> Return (NotifyBehaviour (TransactionDropped m)), h', ch')
    \<and> outbound_substream h' = Some (WaitingOutput s')
    \<and> sent s' = sent s @ map (rpc_out_into_protobuf I) (takeWhile (\<lambda>m. \<not> late elapsed m) ms)
    \<and> all_pending items slot (send_queue h', ch') = tl (dropWhile (\<lambda>m. \<not> late elapsed m) ms)"
  by (rule delivery.outbound_loop_delivers [OF delivery.intro [OF assms(1,2)] assms(3-5)])

theorem outbound_loop_correct_witness:
  "\<exists>h' ch' s'. run_loop (outbound_step list_channel sample_ops list_framed (\<lambda>_. True))
      (sample_handler\<lparr>outbound_substream := Some (WaitingOutput [])\<rparr>, sample_filled) =
      Some (Return (NotifyBehaviour (TransactionDropped sample_publish)), h', ch')
    \<and> outbound_substream h' = Some (WaitingOutput s') \<and> s' = []
    \<and> all_pending list_items list_slot (send_queue h', ch') =
        [HaveTx \<lparr>have_tx_id = TransactionId []\<rparr>, sample_forward]"
  using outbound_loop_correct [OF lrc.rpc_channel_axioms sample_delivery.reliable_sink_axioms,
      of "sample_handler\<lparr>outbound_substream := Some (WaitingOutput [])\<rparr>" "[]" sample_filled
        "[sample_publish, HaveTx \<lparr>have_tx_id = TransactionId []\<rparr>, sample_forward]"
        sample_ops "\<lambda>_. True"]
  by (simp add: all_pending_def pending_defs sample_filled_def sample_handler_def new_receiver_def
      list_channel_def both_open_def late_def sample_publish_def)

end
