(* ===== verification/Dog_Link.thy ===== *)
theory Dog_Link
  imports Dog_Handler_Props Dog_Publish_Props Dog_Routing_Props
begin

text \<open>
  Two nodes and the link between them: from the queue of one, through its handler, the
  substream and the codec, to the behaviour of the other. The parts compose: what one node
  publishes its neighbour forwards, and a \<open>HaveTx\<close> of the neighbour stops what is redundant.
\<close>

section \<open>A link\<close>

text \<open>
  \<open>wire s s'\<close> are the bytes that reach the peer while the substream goes from \<open>s\<close> to \<open>s'\<close>;
  the frame codec of the peer reads back a message whose frame \<open>fits\<close> its limit.
\<close>

locale link = delivery C items capacity is_open slot F sent
  for C :: "('q, 'r, 'p rpc_out) channel_ops" and items capacity is_open slot
    and F :: "('s, 'p) framed_ops" and sent +
  fixes FC :: "('b, 'e) frame_codec" and limit :: nat and fits :: "proto_rpc \<Rightarrow> bool"
    and wire :: "'s \<Rightarrow> 's \<Rightarrow> 'b" and rest :: "'s \<Rightarrow> 's \<Rightarrow> 'b"
  assumes carries: "sent s' = sent s @ [r] \<Longrightarrow> fits r \<Longrightarrow>
    frame_decode FC limit (wire s s') = (Inr (Some r), rest s s')"
begin

lemma crosses:
  assumes "outbound_substream h = Some (WaitingOutput s)" and "both_open is_open ch"
    and "all_pending items slot (send_queue h, ch) = [m]" and "\<not> late elapsed m"
    and "fits (rpc_out_into_protobuf I m)"
  obtains h' ch' s' where "run_loop (outbound_step C I F elapsed) (h, ch) = Some (Break, h', ch')"
    and "outbound_substream h' = Some (WaitingOutput s')"
    and "frame_decode FC limit (wire s s') = (Inr (Some (rpc_out_into_protobuf I m)), rest s s')"
proof -
  from outbound_loop_delivers [OF assms(1-3), of I elapsed] assms(4) obtain h' ch' s' where
    "run_loop (outbound_step C I F elapsed) (h, ch) = Some (Break, h', ch')"
    "outbound_substream h' = Some (WaitingOutput s')" "sent s' = sent s @ [rpc_out_into_protobuf I m]"
    by auto
  with carries [of s' s "rpc_out_into_protobuf I m"] assms(5) that show thesis by blast
qed

text \<open>The queue of a peer, seen from the handler of its connection.\<close>

lemma pending_of_queues:
  assumes "connected_peers b p = Some peer" and "peers_ok items capacity is_open cap b"
    and "slot (priority_receiver rv) = []" and "slot (non_priority_receiver rv) = []"
  shows "all_pending items slot (rv, sender_channels (peer_sender peer)) = priorities_to items b p @ forwards_to items b p"
    and "both_open is_open (sender_channels (peer_sender peer))"
  using assms
  by (auto simp: all_pending_def pending_defs priorities_to_def forwards_to_def both_open_def peers_ok_def channels_ok_def)

end

interpretation sample_link: link list_channel list_items list_capacity list_open list_slot
  list_framed "\<lambda>s. s" sample_frames limit "\<lambda>r. True" "\<lambda>s s'. drop (length s) s'" "\<lambda>s s'. []" for limit
  by unfold_locales (simp add: sample_frames_def)

text \<open>One transaction in a message.\<close>

lemma single_transaction_event:
  assumes "max_transactions_per_rpc (bconfig b) \<noteq> Some 0"
  shows "on_connection_handler_event C I ws w source
      (TransactionEvent \<lparr>rpc_transactions = [raw], rpc_control_msgs = []\<rparr> invalid) b
    = handle_received_transaction C I (ws 0) raw source b"
  using assms by (auto simp: on_connection_handler_event_def List.map_filter_def split: option.split)

section \<open>A publication crosses the link\<close>

text \<open>
  C4. What a signing node publishes, a neighbour with room in its queue forwards. The node's
  handler writes the publication to its substream; the neighbour's codec, in any validation
  mode, delivers it; and the neighbour, when it does not remember it yet, queues it once for
  each of its own peers with room that is not the one it came from, not the author, and not
  cut off from that source.
\<close>

theorem publication_crosses_link:
  assumes "link C items capacity is_open slot F sent FC limit fits wire rest" and "libp2p_laws I"
    and "peers_ok items capacity is_open cap a" and "cap < 2 ^ 64"
    and "key_order (peer_order w) (connected_peers a)"
    and "outbound_transform (data_transform a) data = Inr d" and "length d \<le> max_transmit_size (bconfig a)"
    and "publish_config_of I nanos (Signed kp) = Signing kp own_id key n0"
    and "publish_config a = Signing kp own_id key n"
    and "build_raw_transaction I d a = Some (Inr raw, a0)"
    and "\<not> cache_contains (config_transaction_id (bconfig a)
      \<lparr>tx_from = raw_from raw, tx_seqno = raw_seqno raw, tx_data = data\<rparr>) (cache a)"
    and "m = Publish raw (Delay (clock w) (publish_queue_duration (bconfig a)))"
    and "publish C I w data a = Some (res, a')"
    and "publish_target a b_id" and "takes items m a b_id"
    and "priorities_to items a b_id = []" and "forwards_to items a b_id = []"
    and "outbound_substream h = Some (WaitingOutput s)"
    and "slot (priority_receiver (send_queue h)) = []" and "slot (non_priority_receiver (send_queue h)) = []"
    and "\<not> late elapsed m" and "fits (rpc_out_into_protobuf I m)" and "codec_max_length c = limit"
    and "peers_ok items capacity is_open cap2 b" and "cap2 < 2 ^ 64"
    and "key_order (peer_order (ws 0)) (connected_peers b)"
    and "data_transform b = identity_transform" and "max_transactions_per_rpc (bconfig b) \<noteq> Some 0"
    and "fst (cache_insert (clock (ws 0)) (config_transaction_id (bconfig b)
      \<lparr>tx_from = own_id, tx_seqno = raw_seqno raw, tx_data = d\<rparr>) a_id (cache b))"
    and "forward_transactions (bconfig b)"
  shows "\<exists>peer h' ch' s' ev raw'. connected_peers a' b_id = Some peer
    \<and> run_loop (outbound_step C I F elapsed) (h, sender_channels (peer_sender peer)) = Some (Break, h', ch')
    \<and> outbound_substream h' = Some (WaitingOutput s')
    \<and> codec_decode I FC strangers c (wire s s') = Some (Inr (Some ev), rest s s')
    \<and> raw_from raw' = own_id \<and> raw_seqno raw' = raw_seqno raw \<and> raw_data raw' = d
    \<and> (let fwd = Forward raw' (Delay (clock (ws 0)) (forward_queue_duration (bconfig b))) in
        \<forall>p. forwards_to items (on_connection_handler_event C I ws w2 a_id ev b) p = forwards_to items b p
          @ (if p \<noteq> a_id \<and> p \<noteq> own_id \<and> route_new a_id p \<notin> set (disabled_routes (router b)) \<and> takes items fwd b p
             then [fwd] else []))"
proof -
  have rc: "rpc_channel C items capacity is_open slot"
    using assms(1) by (simp add: link_def delivery_def)
  note pub = rpc_channel.publish_queues [OF rc assms(3-7,10) refl assms(11-13)]
  have queue: "priorities_to items a' b_id = [m]" "forwards_to items a' b_id = []"
    "peers_ok items capacity is_open cap a'" "b_id \<in> dom (connected_peers a')"
    using pub assms(14-17) by (auto simp: publish_target_def)
  then obtain peer where peer: "connected_peers a' b_id = Some peer" by auto
  have pending: "all_pending items slot (send_queue h, sender_channels (peer_sender peer)) = [m]"
    and opn: "both_open is_open (sender_channels (peer_sender peer))"
    using link.pending_of_queues [OF assms(1) peer queue(3) assms(19,20)] queue by simp_all
  obtain h' ch' s' where out:
    "run_loop (outbound_step C I F elapsed) (h, sender_channels (peer_sender peer)) = Some (Break, h', ch')"
    "outbound_substream h' = Some (WaitingOutput s')"
    "frame_decode FC limit (wire s s') = (Inr (Some (rpc_out_into_protobuf I m)), rest s s')"
    by (rule link.crosses [OF assms(1,18) opn pending assms(21,22)])
  obtain raw' where dec: "codec_decode I FC strangers c (wire s s') =
      Some (Inr (Some (TransactionEvent \<lparr>rpc_transactions = [raw'], rpc_control_msgs = []\<rparr> [])), rest s s')"
    and raw': "raw_from raw' = own_id" "raw_seqno raw' = raw_seqno raw" "raw_data raw' = d"
    using signed_publication_decodes [OF assms(2,8-10), of FC c "wire s s'"] out(3) assms(12,23) by blast
  let ?tx = "\<lparr>tx_from = own_id, tx_seqno = raw_seqno raw, tx_data = d\<rparr>"
  have inb: "inbound_transform (data_transform b) raw' = Inr ?tx"
    by (simp add: assms(27) identity_transform_def identity_inbound_def raw')
  obtain k where k: "cache_insert (clock (ws 0)) (config_transaction_id (bconfig b) ?tx) a_id (cache b) = (True, k)"
    using assms(29) by (metis (full_types) prod.collapse)
  from rpc_channel.received_new_queues [OF rc assms(24-26) inb refl k refl refl, of I]
  have "forwards_to items (handle_received_transaction C I (ws 0) raw' a_id b) p = forwards_to items b p
      @ (let fwd = Forward raw' (Delay (clock (ws 0)) (forward_queue_duration (bconfig b))) in
         if p \<noteq> a_id \<and> p \<noteq> own_id \<and> route_new a_id p \<notin> set (disabled_routes (router b)) \<and> takes items fwd b p
         then [fwd] else [])" for p
    by (simp add: valid_target_def assms(30) raw' Let_def)
  with peer out dec raw' single_transaction_event [OF assms(28), of C I ws w2 a_id raw' "[]"] show ?thesis
    by (intro exI [of _ peer] exI [of _ h'] exI [of _ ch'] exI [of _ s'] exI [of _ raw']
        exI [of _ "TransactionEvent \<lparr>rpc_transactions = [raw'], rpc_control_msgs = []\<rparr> []"]) (simp add: Let_def)
qed

text \<open>The handler of the witnesses, with its outbound substream open.\<close>

definition open_handler :: "(proto_rpc list, byte rpc_out option) enabled_handler" where
  "open_handler = sample_handler\<lparr>outbound_substream := Some (WaitingOutput [])\<rparr>"

lemma open_handler_simps:
  "outbound_substream open_handler = Some (WaitingOutput [])"
  "list_slot (priority_receiver (send_queue open_handler)) = []"
  "list_slot (non_priority_receiver (send_queue open_handler)) = []"
  by (simp_all add: open_handler_def sample_handler_def new_receiver_def list_channel_def)

lemma sample_link_decoding: "codec_max_length (dog_codec_new n mode) = n"
  "max_transactions_per_rpc (bconfig sample_node) \<noteq> Some 0"
  by (simp_all add: dog_codec_new_def sample_node_def sample_config_def default_config_builder_def)

theorem publication_crosses_link_witness:
  "\<exists>raw a0 res a' peer h' ch' s' ev raw'.
     build_raw_transaction sample_ops [4] sample_node = Some (Inr raw, a0)
     \<and> publish list_channel sample_ops (sample_world 3) [4] sample_node = Some (res, a')
     \<and> connected_peers a' 2 = Some peer
     \<and> run_loop (outbound_step list_channel sample_ops list_framed (\<lambda>_. False))
         (open_handler, sender_channels (peer_sender peer)) = Some (Break, h', ch')
     \<and> outbound_substream h' = Some (WaitingOutput s')
     \<and> codec_decode sample_ops sample_frames (\<lambda>i. 0) (dog_codec_new 100 Strict) s'
         = Some (Inr (Some ev), [])
     \<and> raw_data raw' = [4]
     \<and> forwards_to list_items (on_connection_handler_event list_channel sample_ops (\<lambda>i. sample_world 5)
           (sample_world 5) 1 ev sample_node) 2 = [Forward raw' (Delay 5 (duration_from_secs 1))]"
proof -
  obtain raw a0 where raw: "build_raw_transaction sample_ops [4] sample_node = Some (Inr raw, a0)"
    using sample_built by blast
  have "publish list_channel sample_ops (sample_world 3) [4] sample_node \<noteq> None"
    using raw publish_panics [OF sample_outbound, of "[4]" list_channel sample_ops "sample_world 3"]
    by (simp add: sample_simps)
  then obtain res a' where pub: "publish list_channel sample_ops (sample_world 3) [4] sample_node = Some (res, a')"
    by auto
  have pc: "publish_config_of sample_ops 0 (Signed 7) = Signing 7 7 None (sequence_number_new 0)"
    by (simp add: sample_ops_def Let_def)
  have tgt: "publish_target sample_node 2" by (simp add: sample_publish_target)
  have new: "fst (cache_insert (clock (sample_world 5)) k 1 (cache sample_node))" for k
    by (simp add: sample_insert)
  have room: "takes list_items k sample_node 2" for k by (simp add: sample_queues)
  have sizes: "(2500 :: nat) < 2 ^ 64" "length ([4] :: bytes) \<le> max_transmit_size (bconfig sample_node)"
    by (simp_all add: sample_simps)
  have on_time: "\<not> late (\<lambda>_. False) (Publish raw t)" for t by (simp add: late_def)
  note crossing = publication_crosses_link [where ws = "\<lambda>i. sample_world 5" and ?w2.0 = "sample_world 5"
      and strangers = "\<lambda>i. 0" and w = "sample_world 3", OF sample_link.link_axioms sample_laws.libp2p_laws_axioms sample_peers_ok sizes(1)
      sample_order sample_outbound sizes(2) pc sample_simps(9) raw sample_not_cached refl pub tgt room
      sample_queues(2,1) open_handler_simps on_time TrueI sample_link_decoding(1) [of 100 Strict] sample_peers_ok sizes(1)
      sample_order sample_simps(10) sample_link_decoding(2) new sample_simps(1)]
  from crossing obtain peer h' ch' s' ev raw' where link: "connected_peers a' 2 = Some peer"
    "run_loop (outbound_step list_channel sample_ops list_framed (\<lambda>_. False))
       (open_handler, sender_channels (peer_sender peer)) = Some (Break, h', ch')"
    "outbound_substream h' = Some (WaitingOutput s')"
    "codec_decode sample_ops sample_frames (\<lambda>i. 0) (dog_codec_new 100 Strict) s'
       = Some (Inr (Some ev), [])" "raw_data raw' = [4]"
    "\<forall>p. forwards_to list_items (on_connection_handler_event list_channel sample_ops (\<lambda>i. sample_world 5)
        (sample_world 5) 1 ev sample_node) p = forwards_to list_items sample_node p
      @ (if p \<noteq> 1 \<and> p \<noteq> 7 \<and> route_new 1 p \<notin> set (disabled_routes (router sample_node))
          \<and> takes list_items (Forward raw' (Delay (clock (sample_world 5)) (forward_queue_duration (bconfig sample_node)))) sample_node p
         then [Forward raw' (Delay (clock (sample_world 5)) (forward_queue_duration (bconfig sample_node)))] else [])"
    unfolding Let_def list.size drop_0 by blast
  from link(6) have "forwards_to list_items (on_connection_handler_event list_channel sample_ops (\<lambda>i. sample_world 5)
      (sample_world 5) 1 ev sample_node) 2 = [Forward raw' (Delay 5 (duration_from_secs 1))]"
    using room by (simp add: sample_queues(1) sample_simps)
  with raw pub link(1-5) show ?thesis by blast
qed

section \<open>A redundant link is cut\<close>

lemma decode_have_tx:
  assumes "frame_decode F (codec_max_length c) src = (Inr (Some (rpc_out_into_protobuf I (HaveTx h))), src')"
  shows "codec_decode I F strangers c src =
    Some (Inr (Some (TransactionEvent \<lparr>rpc_transactions = [], rpc_control_msgs = [HaveTxAction h]\<rparr> [])), src')"
  using assms
  by (simp add: codec_decode_def rpc_out_into_protobuf_def decode_control_def List.map_filter_def have_tx_roundtrip)

text \<open>
  C5. A neighbour that gets a transaction it remembers cuts the link it came over. It queues a
  \<open>HaveTx\<close>, its handler writes it, the codec of the node it came from delivers it, and that
  node, when it remembers the transaction from another source, disables the route: from then
  on nothing that this source sends is queued for the neighbour.
\<close>

theorem redundant_link_is_cut:
  assumes "link C items capacity is_open slot F sent FC limit fits wire rest"
    and "peers_ok items capacity is_open cap b" and "cap < 2 ^ 64"
    and "inbound_transform (data_transform b) raw = Inr tx"
    and "tx_id = config_transaction_id (bconfig b) tx"
    and "\<not> fst (cache_insert (clock w) tx_id a_id (cache b))"
    and "send_have_tx (bconfig b)" and "\<not> have_tx_blocked (redundancy_controller b)"
    and "a_id \<in> dom (connected_peers b)"
    and "priorities_to items b a_id = []" and "forwards_to items b a_id = []"
    and "b' = handle_received_transaction C I w raw a_id b"
    and "outbound_substream h = Some (WaitingOutput s)"
    and "slot (priority_receiver (send_queue h)) = []" and "slot (non_priority_receiver (send_queue h)) = []"
    and "fits (rpc_out_into_protobuf I (HaveTx \<lparr>have_tx_id = tx_id\<rparr>))" and "codec_max_length c = limit"
    and "peers_ok items capacity is_open cap2 a" and "cap2 < 2 ^ 64"
    and "key_order (peer_order w2) (connected_peers a)"
    and "\<not> ignore_have_tx (bconfig a)"
    and "cache_get tx_id (cache a) = Some source" and "source \<noteq> b_id"
  shows "\<exists>peer h' ch' s' ev. connected_peers b' a_id = Some peer
    \<and> run_loop (outbound_step C I F elapsed) (h, sender_channels (peer_sender peer)) = Some (Break, h', ch')
    \<and> outbound_substream h' = Some (WaitingOutput s')
    \<and> codec_decode I FC strangers c (wire s s') = Some (Inr (Some ev), rest s s')
    \<and> (let a' = on_connection_handler_event C I ws w1 b_id ev a in
        route_new source b_id \<in> set (disabled_routes (router a'))
        \<and> forwards_to items (handle_received_transaction C I w2 raw2 source a') b_id = forwards_to items a b_id)"
proof -
  let ?m = "HaveTx \<lparr>have_tx_id = tx_id\<rparr>"
  have rc: "rpc_channel C items capacity is_open slot"
    using assms(1) by (simp add: link_def delivery_def)
  obtain k where k: "cache_insert (clock w) tx_id a_id (cache b) = (False, k)"
    using assms(6) by (metis (full_types) prod.collapse)
  have asks: "True \<longleftrightarrow> send_have_tx (bconfig b) \<and> \<not> have_tx_blocked (redundancy_controller b)
      \<and> a_id \<in> dom (connected_peers b)"
    using assms(7-9) by simp
  note dup = rpc_channel.received_duplicate_queues [OF rc assms(2-5) k asks assms(12)]
  have queue: "priorities_to items b' a_id = [?m]" "forwards_to items b' a_id = []"
    "peers_ok items capacity is_open cap b'"
    using dup assms(10,11) by simp_all
  then obtain peer where peer: "connected_peers b' a_id = Some peer"
    by (auto simp: priorities_to_def split: option.splits)
  have pending: "all_pending items slot (send_queue h, sender_channels (peer_sender peer)) = [?m]"
    and opn: "both_open is_open (sender_channels (peer_sender peer))"
    using link.pending_of_queues [OF assms(1) peer queue(3) assms(14,15)] queue by simp_all
  have on_time: "\<not> late elapsed ?m" by (simp add: late_def)
  obtain h' ch' s' where out:
    "run_loop (outbound_step C I F elapsed) (h, sender_channels (peer_sender peer)) = Some (Break, h', ch')"
    "outbound_substream h' = Some (WaitingOutput s')"
    "frame_decode FC limit (wire s s') = (Inr (Some (rpc_out_into_protobuf I ?m)), rest s s')"
    by (rule link.crosses [OF assms(1,13) opn pending on_time assms(16)])
  let ?r = "\<lparr>rpc_transactions = [], rpc_control_msgs = [HaveTxAction \<lparr>have_tx_id = tx_id\<rparr>]\<rparr>"
  have dec: "codec_decode I FC strangers c (wire s s') = Some (Inr (Some (TransactionEvent ?r [])), rest s s')"
    using decode_have_tx out(3) assms(17) by metis
  have "rpc_transactions ?r = []" "HaveTxAction \<lparr>have_tx_id = tx_id\<rparr> \<in> set (rpc_control_msgs ?r)"
    "ResetRouteAction ResetRoute \<notin> set (rpc_control_msgs ?r)" by simp_all
  from have_tx_cuts [OF rc assms(18-21) this assms(22,23) refl, of I ws w1 "[]" raw2]
    peer out dec show ?thesis by (auto simp: Let_def)
qed

lemma sample_node1_peers:
  "priorities_to list_items sample_node1 1 = []" "forwards_to list_items sample_node1 1 = []"
  "priorities_to list_items sample_node1 2 = []" "send_have_tx (bconfig sample_node1)"
proof -
  have "fst (cache_insert (clock (sample_world 5)) sample_id 1 (cache sample_node))"
    by (simp add: sample_insert)
  then obtain k where k: "cache_insert (clock (sample_world 5)) sample_id 1 (cache sample_node) = (True, k)"
    by (metis (full_types) prod.collapse)
  have cap: "(2500 :: nat) < 2 ^ 64" by simp
  from lrc.received_new_queues [OF sample_peers_ok cap sample_order sample_inbound_raw sample_id_def k refl sample_node1_def]
  show "priorities_to list_items sample_node1 1 = []" "forwards_to list_items sample_node1 1 = []"
    "priorities_to list_items sample_node1 2 = []"
    by (simp_all add: sample_queues valid_target_def)
  show "send_have_tx (bconfig sample_node1)" by (simp add: sample_node1_simps(1) sample_simps)
qed

text \<open>Both nodes got the transaction from peer 1 first; then node 2 gets it again.\<close>

theorem redundant_link_is_cut_witness:
  "\<exists>peer h' ch' s' ev.
     connected_peers (handle_received_transaction list_channel sample_ops (sample_world 6) sample_raw 1 sample_node1) 1
       = Some peer
     \<and> run_loop (outbound_step list_channel sample_ops list_framed (\<lambda>_. False))
         (open_handler, sender_channels (peer_sender peer)) = Some (Break, h', ch')
     \<and> codec_decode sample_ops sample_frames (\<lambda>i. 0) (dog_codec_new 100 Strict) s' = Some (Inr (Some ev), [])
     \<and> route_new 1 2 \<in> set (disabled_routes (router (on_connection_handler_event list_channel sample_ops
         (\<lambda>i. sample_world 7) (sample_world 7) 2 ev sample_node1)))"
proof -
  have dup: "\<not> fst (cache_insert (clock (sample_world 6)) sample_id 1 (cache sample_node1))"
    by (simp add: sample_simps sample_second_insert)
  have conn: "1 \<in> dom (connected_peers sample_node1)" and cap: "(2500 :: nat) < 2 ^ 64"
    and other: "(1 :: byte) \<noteq> 2"
    by (simp_all add: sample_node1_simps)
  from redundant_link_is_cut [where ws = "\<lambda>i. sample_world 7" and ?w1.0 = "sample_world 7"
      and ?w2.0 = "sample_world 8" and strangers = "\<lambda>i. 0" and elapsed = "\<lambda>_. False",
      OF sample_link.link_axioms sample_node1_simps(8) cap sample_node1_inbound sample_node1_id dup
      sample_node1_peers(4) sample_node1_simps(7) conn sample_node1_peers(1,2) refl open_handler_simps TrueI
      sample_link_decoding(1) [of 100 Strict] sample_node1_simps(8) cap sample_have_tx_simps(6,1,5) other]
  show ?thesis unfolding Let_def list.size drop_0 by blast
qed

end
