(* ===== verification/Exp_Params.thy ===== *)
theory Exp_Params
  imports Dog_Config Dog_Sample
begin

text \<open>
  The parameters of an experiment (\<open>script_instruction.rs\<close>): node numbers and how they are
  read from host names, the overrides of the configuration, the script, and the parameter
  file. Texts are sequences of 8-bit characters.
\<close>

section \<open>Bytes of integers\<close>

text \<open>The three functions used of the crate \<open>byteorder\<close>; \<open>None\<close> is a panic.\<close>

type_synonym i32 = "32 word"

record byteorder_ops =
  le_write_i32 :: "bytes \<Rightarrow> i32 \<Rightarrow> bytes option"
  be_write_u64 :: "bytes \<Rightarrow> u64 \<Rightarrow> bytes option"
  be_read_u64 :: "bytes \<Rightarrow> u64 option"

text \<open>
  What it documents: writing fills the front of a buffer and leaves its length and the rest
  alone, reading gets back what was written, and both panic when the buffer is too short.
\<close>

locale byteorder_laws =
  fixes O_ops :: byteorder_ops
  assumes le_write_short: "le_write_i32 O_ops buf v = None \<longleftrightarrow> length buf < 4"
    and le_write_inj: "le_write_i32 O_ops buf v = Some w \<Longrightarrow> le_write_i32 O_ops buf v' = Some w \<Longrightarrow> v = v'"
    and le_write_length: "le_write_i32 O_ops buf v = Some w \<Longrightarrow> length w = length buf"
    and write_short: "be_write_u64 O_ops buf n = None \<longleftrightarrow> length buf < 8"
    and write_length: "be_write_u64 O_ops buf n = Some w \<Longrightarrow> length w = length buf"
    and read_short: "be_read_u64 O_ops buf = None \<longleftrightarrow> length buf < 8"
    and read_write: "be_write_u64 O_ops buf n = Some w \<Longrightarrow> be_read_u64 O_ops w = Some n"
begin

lemma write_buffer:
  assumes "8 \<le> length buf"
  obtains w where "be_write_u64 O_ops buf n = Some w" and "length w = length buf" and "be_read_u64 O_ops w = Some n"
proof (cases "be_write_u64 O_ops buf n")
  case None
  with assms write_short [of buf n] show thesis by simp
next
  case (Some w)
  show thesis by (rule that [OF Some write_length [OF Some] read_write [OF Some]])
qed

end

text \<open>The bytes of a number, lowest first, and back.\<close>

fun le_bytes :: "nat \<Rightarrow> nat \<Rightarrow> bytes" where
  "le_bytes 0 n = []"
| "le_bytes (Suc k) n = of_nat (n mod 256) # le_bytes k (n div 256)"

fun le_value :: "bytes \<Rightarrow> nat" where
  "le_value [] = 0"
| "le_value (b # bs) = unat b + 256 * le_value bs"

lemma length_le_bytes [simp]: "length (le_bytes k n) = k"
  by (induction k arbitrary: n) simp_all

lemma le_value_bytes: "le_value (le_bytes k n) = n mod 256 ^ k"
proof (induction k arbitrary: n)
  case (Suc k)
  have "unat (of_nat (n mod 256) :: byte) = n mod 256"
    by (simp add: unat_of_nat)
  then show ?case by (simp add: Suc mod_mult2_eq)
qed simp

definition byteorder :: byteorder_ops where
  "byteorder =
     \<lparr>le_write_i32 = (\<lambda>buf v. if length buf < 4 then None else Some (le_bytes 4 (unat v) @ drop 4 buf)),
      be_write_u64 = (\<lambda>buf n. if length buf < 8 then None else Some (rev (le_bytes 8 (unat n)) @ drop 8 buf)),
      be_read_u64 = (\<lambda>buf. if length buf < 8 then None else Some (of_nat (le_value (rev (take 8 buf)))))\<rparr>"

interpretation byteorder: byteorder_laws byteorder
proof
  show "v = v'" if "le_write_i32 byteorder buf v = Some w" "le_write_i32 byteorder buf v' = Some w" for buf v v' w
  proof -
    from that have "le_bytes 4 (unat v) = le_bytes 4 (unat v')"
      by (auto simp: byteorder_def split: if_splits)
    then have "le_value (le_bytes 4 (unat v)) = le_value (le_bytes 4 (unat v'))" by simp
    then have "unat v = unat v'"
      using unsigned_less [of v, where ?'a = nat] unsigned_less [of v', where ?'a = nat]
      by (simp only: le_value_bytes) simp
    then show ?thesis by (rule unsigned_word_eqI)
  qed
  show "be_read_u64 byteorder w = Some n" if "be_write_u64 byteorder buf n = Some w" for buf n w
  proof -
    from that have "w = rev (le_bytes 8 (unat n)) @ drop 8 buf"
      by (simp add: byteorder_def split: if_splits)
    moreover have "le_value (le_bytes 8 (unat n)) = unat n"
      using unsigned_less [of n, where ?'a = nat] by (simp only: le_value_bytes) simp
    ultimately show ?thesis by (simp add: byteorder_def)
  qed
qed (auto simp: byteorder_def split: if_splits)

section \<open>Node numbers\<close>

datatype node_id = NodeID i32

datatype int_error_kind = EmptyInt | InvalidDigit | PosOverflow | NegOverflow

datatype node_id_error =
    HostnameUnknown io_error
  | InvalidHostname
  | ParseIntFailed int_error_kind

text \<open>\<open>str::parse::<i32>\<close> of the standard library: a sign, then digits, overflow checked at each.\<close>

definition digit_of :: "char \<Rightarrow> nat option" where
  "digit_of c = (let n = of_char c :: nat in if 48 \<le> n \<and> n \<le> 57 then Some (n - 48) else None)"

definition in_i32 :: "int \<Rightarrow> bool" where
  "in_i32 x \<longleftrightarrow> - (2 ^ 31) \<le> x \<and> x < 2 ^ 31"

fun parse_digits :: "bool \<Rightarrow> int \<Rightarrow> string \<Rightarrow> int_error_kind + int" where
  "parse_digits negative acc [] = Inr acc"
| "parse_digits negative acc (c # cs) =
     (case digit_of c of
        None \<Rightarrow> Inl InvalidDigit
      | Some d \<Rightarrow>
          (let overflow = (if negative then NegOverflow else PosOverflow);
               mul = acc * 10;
               sum = (if negative then mul - int d else mul + int d)
           in if \<not> in_i32 mul then Inl overflow
              else if \<not> in_i32 sum then Inl overflow
              else parse_digits negative sum cs))"

definition parse_i32 :: "string \<Rightarrow> int_error_kind + i32" where
  "parse_i32 s =
     map_sum id of_int
       (case s of
          [] \<Rightarrow> Inl EmptyInt
        | c # cs \<Rightarrow>
            if (c = CHR ''+'' \<or> c = CHR ''-'') \<and> cs = [] then Inl InvalidDigit
            else if c = CHR ''+'' then parse_digits False 0 cs
            else if c = CHR ''-'' then parse_digits True 0 cs
            else parse_digits False 0 s)"

text \<open>The loop that skips the prefix; \<open>None\<close> is its early return.\<close>

fun skip_chars :: "nat \<Rightarrow> string \<Rightarrow> string option" where
  "skip_chars 0 chars = Some chars"
| "skip_chars (Suc n) [] = None"
| "skip_chars (Suc n) (c # chars) = skip_chars n chars"

definition node_id_new :: "io_error + string \<Rightarrow> node_id_error + node_id" where
  "node_id_new hostname =
     (case hostname of
        Inl e \<Rightarrow> Inl (HostnameUnknown e)
      | Inr name \<Rightarrow>
          (case skip_chars 4 name of
             None \<Rightarrow> Inl InvalidHostname
           | Some id_str \<Rightarrow>
               (case parse_i32 id_str of
                  Inl e \<Rightarrow> Inl (ParseIntFailed e)
                | Inr n \<Rightarrow> Inr (NodeID n))))"

fun display_node_id :: "node_id \<Rightarrow> string" where
  "display_node_id (NodeID n) =
     (if sint n < 0 then ''-'' @ decimal (nat (- sint n)) else decimal (nat (sint n)))"

text \<open>
  The key of a node: its number in the first four bytes of the seed. Making the pair of keys
  is the crate \<open>libp2p-identity\<close>; \<open>None\<close> is a panic.
\<close>

definition node_seed :: "byteorder_ops \<Rightarrow> node_id \<Rightarrow> bytes option" where
  "node_seed bo i =
     (case i of NodeID n \<Rightarrow>
        (case le_write_i32 bo (replicate 4 0) n of
           None \<Rightarrow> None
         | Some front \<Rightarrow> Some (front @ replicate 28 0)))"

definition keypair_of_node :: "byteorder_ops \<Rightarrow> (bytes \<Rightarrow> string + 'k) \<Rightarrow> node_id \<Rightarrow> 'k option" where
  "keypair_of_node bo ed25519_from_bytes i =
     (case node_seed bo i of
        None \<Rightarrow> None
      | Some seed \<Rightarrow> (case ed25519_from_bytes seed of Inl e \<Rightarrow> None | Inr kp \<Rightarrow> Some kp))"

section \<open>Overrides of the configuration\<close>

record dog_params =
  p_max_transactions_per_rpc :: "usize option"
  p_connection_handler_queue_len :: "usize option"
  p_cache_time_sec :: "nat option"
  p_target_redundancy :: "f64 option"
  p_redundancy_delta_percent :: "nat option"
  p_redundancy_interval_sec :: "nat option"
  p_connection_handler_publish_duration_sec :: "nat option"
  p_connection_handler_forward_duration_sec :: "nat option"
  p_deliver_own_transactions :: "bool option"
  p_forward_transactions :: "bool option"
  p_send_have_tx :: "bool option"
  p_ignore_have_tx :: "bool option"

definition default_dog_params :: dog_params where
  "default_dog_params =
     \<lparr>p_max_transactions_per_rpc = None, p_connection_handler_queue_len = None, p_cache_time_sec = None,
      p_target_redundancy = None, p_redundancy_delta_percent = None, p_redundancy_interval_sec = None,
      p_connection_handler_publish_duration_sec = None, p_connection_handler_forward_duration_sec = None,
      p_deliver_own_transactions = None, p_forward_transactions = None, p_send_have_tx = None,
      p_ignore_have_tx = None\<rparr>"

definition if_given :: "'v option \<Rightarrow> ('v \<Rightarrow> 'b \<Rightarrow> 'b) \<Rightarrow> 'b \<Rightarrow> 'b" where
  "if_given v setter b = (case v of Some x \<Rightarrow> setter x b | None \<Rightarrow> b)"

definition apply_params :: "dog_params \<Rightarrow> 'p config_builder \<Rightarrow> 'p config_builder" where
  "apply_params p b =
     (let b = if_given (p_max_transactions_per_rpc p) set_max_transactions_per_rpc b;
          b = if_given (p_connection_handler_queue_len p) set_connection_handler_queue_len b;
          b = if_given (p_cache_time_sec p) (set_cache_time \<circ> duration_from_secs) b;
          b = if_given (p_target_redundancy p) set_target_redundancy b;
          b = if_given (p_redundancy_delta_percent p) set_redundancy_delta_percent b;
          b = if_given (p_redundancy_interval_sec p) (set_redundancy_interval \<circ> duration_from_secs) b;
          b = if_given (p_connection_handler_publish_duration_sec p)
                (set_connection_handler_publish_duration \<circ> duration_from_secs) b;
          b = if_given (p_connection_handler_forward_duration_sec p)
                (set_connection_handler_forward_duration \<circ> duration_from_secs) b;
          b = if_given (p_deliver_own_transactions p) set_deliver_own_transactions b;
          b = if_given (p_forward_transactions p) set_forward_transactions b;
          b = if_given (p_send_have_tx p) set_send_have_tx b
      in if_given (p_ignore_have_tx p) set_ignore_have_tx b)"

section \<open>Scripts\<close>

datatype instruction =
    Connect "node_id list"
  | SubscribeToTopic string
  | PublishMessage u64 usize string

record script_instruction =
  elapsed_millis :: nat
  instructions :: "instruction list"

record experiment_params =
  params_config :: dog_params
  script :: "script_instruction list"

text \<open>
  \<open>Path::extension\<close>: of the last component, what is behind its last dot, unless the dot is
  its first character. The components are the parts between slashes, less the empty ones and
  those that are a single dot; two dots are no file name.
\<close>

fun split_at :: "char \<Rightarrow> string \<Rightarrow> string list" where
  "split_at d [] = [[]]"
| "split_at d (c # cs) =
     (if c = d then [] # split_at d cs
      else case split_at d cs of w # ws \<Rightarrow> (c # w) # ws | [] \<Rightarrow> [[c]])"

definition file_name :: "string \<Rightarrow> string option" where
  "file_name path =
     (let parts = filter (\<lambda>c. c \<noteq> [] \<and> c \<noteq> ''.'') (split_at (CHR ''/'') path)
      in if parts = [] \<or> last parts = ''..'' then None else Some (last parts))"

definition extension :: "string \<Rightarrow> string option" where
  "extension path =
     (case file_name path of
        None \<Rightarrow> None
      | Some name \<Rightarrow>
          (let pieces = split_at (CHR ''.'') name
           in if length pieces < 2 \<or> concat (butlast pieces) = [] \<and> length pieces = 2 then None
              else Some (last pieces)))"

datatype params_error = NotAJsonFile | ReadFailed io_error | JsonError string

text \<open>Reading the file and parsing it are arguments.\<close>

definition from_json_file ::
  "(string \<Rightarrow> io_error + string) \<Rightarrow> (string \<Rightarrow> string + experiment_params) \<Rightarrow> string \<Rightarrow>
   params_error + experiment_params" where
  "from_json_file read_to_string from_str path =
     (if extension path \<noteq> Some ''json'' then Inl NotAJsonFile
      else
        (case read_to_string path of
           Inl e \<Rightarrow> Inl (ReadFailed e)
         | Inr contents \<Rightarrow> (case from_str contents of Inl e \<Rightarrow> Inl (JsonError e) | Inr p \<Rightarrow> Inr p)))"

end
