(* ===== verification/Dog_Display.thy ===== *)
theory Dog_Display
  imports Dog_Config Dog_Router
begin

text \<open>
  How transaction identifiers, routes and messages are printed (the \<open>Display\<close> implementations
  of \<open>types.rs\<close> and \<open>dog.rs\<close>), and what printing keeps apart. A peer prints as its base-58
  form; \<open>hex\<close> is the formatting of bytes by the crate \<open>hex_fmt\<close>.
\<close>

section \<open>Printing\<close>

definition display_transaction_id :: "(bytes \<Rightarrow> string) \<Rightarrow> transaction_id \<Rightarrow> string" where
  "display_transaction_id hex i = hex (id_bytes i)"

definition display_route :: "('p, 'k, 'pk) libp2p_ops \<Rightarrow> 'p route \<Rightarrow> string" where
  "display_route I r =
     ''Route('' @ peer_to_base58 I (route_source r) @ '' -> '' @ peer_to_base58 I (route_target r) @ '')''"

definition display_have_tx :: "(bytes \<Rightarrow> string) \<Rightarrow> have_tx \<Rightarrow> string" where
  "display_have_tx hex h = ''HaveTx { tx_id: '' @ display_transaction_id hex (have_tx_id h) @ '' }''"

definition display_reset_route :: "reset_route \<Rightarrow> string" where
  "display_reset_route r = ''ResetRoute {}''"

fun display_rpc_out :: "('p, 'k, 'pk) libp2p_ops \<Rightarrow> (bytes \<Rightarrow> string) \<Rightarrow> 'p rpc_out \<Rightarrow> string" where
  "display_rpc_out I hex (Publish tx timeout) =
     ''Publish { from: '' @ peer_to_base58 I (raw_from tx) @ '', seqno: '' @ decimal (unat (raw_seqno tx)) @ '' }''"
| "display_rpc_out I hex (Forward tx timeout) =
     ''Forward { from: '' @ peer_to_base58 I (raw_from tx) @ '', seqno: '' @ decimal (unat (raw_seqno tx)) @ '' }''"
| "display_rpc_out I hex (HaveTx h) = ''HaveTx { have_tx: '' @ display_have_tx hex h @ '' }''"
| "display_rpc_out I hex (SendResetRoute r) = ''ResetRoute { reset_route: '' @ display_reset_route r @ '' }''"

section \<open>Lists of printed routes\<close>

text \<open>What the logs show of a routing table: the routes one after the other.\<close>

definition display_routes :: "('p, 'k, 'pk) libp2p_ops \<Rightarrow> 'p route list \<Rightarrow> string" where
  "display_routes I routes = concat (map (display_route I) routes)"

end
