(* ===== verification/Exp_Run.thy ===== *)
theory Exp_Run
  imports Exp_Params Dog_Display Dog_Behaviour
begin

text \<open>
  The experiment around a node: connecting by node number (\<open>connector.rs\<close>), what is logged of
  the events of the swarm (\<open>handler.rs\<close>), the node built from the parameters (\<open>swarm.rs\<close>,
  \<open>behaviour.rs\<close>), and the script (\<open>experiment.rs\<close>, \<open>main.rs\<close>).

  The swarm is the node together with the rest \<open>'n\<close> of the state of libp2p, which only the
  arguments of the model touch. A panic is \<open>None\<close>.
\<close>

section \<open>The swarm and what runs in it\<close>

record ('b, 'n) swarm =
  dog :: 'b
  network :: 'n

record ('b, 'n, 'ip, 'addr) net_ops =
  lookup_host :: "string \<Rightarrow> io_error + 'ip list"
  display_ip :: "'ip \<Rightarrow> string"
  parse_multiaddr :: "string \<Rightarrow> string + 'addr"
  dial :: "'addr \<Rightarrow> ('b, 'n) swarm \<Rightarrow> (string + unit) \<times> ('b, 'n) swarm"

datatype connector_error =
    DnsLookup io_error
  | AddrParse string
  | FailedToResolveAddress string
  | DialFailed string

text \<open>\<open>pop\<close> takes the last of the addresses.\<close>

definition connect_to ::
  "('b, 'n, 'ip, 'addr) net_ops \<Rightarrow> node_id \<Rightarrow> ('b, 'n) swarm \<Rightarrow> (connector_error + unit) \<times> ('b, 'n) swarm" where
  "connect_to net target sw =
     (let hostname = ''node'' @ display_node_id target
      in case lookup_host net hostname of
           Inl e \<Rightarrow> (Inl (DnsLookup e), sw)
         | Inr ips \<Rightarrow>
             (if ips = [] then (Inl (FailedToResolveAddress hostname), sw)
              else
                case parse_multiaddr net (''/ip4/'' @ display_ip net (last ips) @ ''/tcp/9000'') of
                  Inl e \<Rightarrow> (Inl (AddrParse e), sw)
                | Inr addr \<Rightarrow>
                    (case dial net addr sw of
                       (Inl e, sw) \<Rightarrow> (Inl (DialFailed e), sw)
                     | (Inr u, sw) \<Rightarrow> (Inr (), sw))))"

section \<open>The logs\<close>

datatype log_line =
    PeerIDLine string string
  | ReceivedMessage u64 string nat
  | SentMessage u64 string nat
  | ReceivedHaveTx string string nat
  | SentHaveTx string string nat
  | ReceivedResetRoute string
  | SentResetRouteLine string
  | UpdatedRoutingTable string
  | AddedPeer string
  | RemovedPeer string string
  | ConnectionFailed string
  | WaitingUntil duration nat
  | ConnectedToNode string
  | FailedToConnect string connector_error
  | NodeConnected string
  | FailedToPublish u64 publish_error

datatype 'p swarm_event =
    DogEvent "'p event"
  | NewListenAddr
  | SwarmConnectionEstablished 'p
  | OutgoingConnectionError string
  | SwarmConnectionClosed 'p "string option"
  | OtherEvent

definition handle_dog_event ::
  "byteorder_ops \<Rightarrow> (bytes \<Rightarrow> string) \<Rightarrow> ('p, 'k, 'pk) libp2p_ops \<Rightarrow> 'p event \<Rightarrow> log_line option" where
  "handle_dog_event bo hex I e =
     (case e of
        TransactionReceived p tx_id tx \<Rightarrow>
          map_option (\<lambda>n. ReceivedMessage n (peer_to_base58 I p) (length (tx_data tx))) (be_read_u64 bo (tx_data tx))
      | TransactionSent p tx_id tx \<Rightarrow>
          map_option (\<lambda>n. SentMessage n (peer_to_base58 I p) (length (tx_data tx))) (be_read_u64 bo (tx_data tx))
      | HaveTxReceived p tx_id \<Rightarrow>
          Some (ReceivedHaveTx (peer_to_base58 I p) (display_transaction_id hex tx_id) (length (id_bytes tx_id)))
      | HaveTxSent p tx_id \<Rightarrow>
          Some (SentHaveTx (peer_to_base58 I p) (display_transaction_id hex tx_id) (length (id_bytes tx_id)))
      | ResetRouteReceived p \<Rightarrow> Some (ReceivedResetRoute (peer_to_base58 I p))
      | ResetRouteSent p \<Rightarrow> Some (SentResetRouteLine (peer_to_base58 I p))
      | RoutingUpdated routes \<Rightarrow> Some (UpdatedRoutingTable (display_routes I routes)))"

text \<open>The lines for the two loggers, standard output first; a connection that closes without a cause panics.\<close>

definition handle_swarm_specific_event ::
  "('p, 'k, 'pk) libp2p_ops \<Rightarrow> 'p swarm_event \<Rightarrow> (log_line list \<times> log_line list) option" where
  "handle_swarm_specific_event I e =
     (case e of
        NewListenAddr \<Rightarrow> Some ([], [])
      | SwarmConnectionEstablished p \<Rightarrow> Some ([AddedPeer (peer_to_base58 I p)], [])
      | OutgoingConnectionError err \<Rightarrow> Some ([], [ConnectionFailed err])
      | SwarmConnectionClosed p cause \<Rightarrow>
          (case cause of None \<Rightarrow> None | Some c \<Rightarrow> Some ([RemovedPeer (peer_to_base58 I p) c], []))
      | _ \<Rightarrow> Some ([], []))"

definition handle_swarm_event ::
  "byteorder_ops \<Rightarrow> (bytes \<Rightarrow> string) \<Rightarrow> ('p, 'k, 'pk) libp2p_ops \<Rightarrow> 'p swarm_event \<Rightarrow>
   (log_line list \<times> log_line list) option" where
  "handle_swarm_event bo hex I e =
     (case e of
        DogEvent d \<Rightarrow> map_option (\<lambda>line. ([line], [])) (handle_dog_event bo hex I d)
      | _ \<Rightarrow> handle_swarm_specific_event I e)"

section \<open>The node\<close>

definition my_behaviour_new ::
  "('p, 'k, 'pk) libp2p_ops \<Rightarrow> instant \<Rightarrow> nat \<Rightarrow> 'k \<Rightarrow> 'p config \<Rightarrow> ('p, 'k, 'q) behaviour option" where
  "my_behaviour_new I now unix_nanos key cfg =
     (case behaviour_new I now unix_nanos (Signed key) cfg False identity_transform of
        Inl e \<Rightarrow> None | Inr b \<Rightarrow> Some b)"

text \<open>
  The identity \<open>key\<close> is a new one, not the one of the node's number. Setting up the transport
  is libp2p's: \<open>network0\<close> is what it yields.
\<close>

definition new_swarm ::
  "('p, 'k, 'pk) libp2p_ops \<Rightarrow> instant \<Rightarrow> nat \<Rightarrow> 'k \<Rightarrow> 'n \<Rightarrow> dog_params \<Rightarrow>
   (('p, 'k, 'q) behaviour, 'n) swarm option" where
  "new_swarm I now unix_nanos key network0 params =
     (let builder = apply_params params (default_config_builder I)
      in case build builder of
           Inl e \<Rightarrow> None
         | Inr cfg \<Rightarrow>
             (case my_behaviour_new I now unix_nanos key cfg of
                None \<Rightarrow> None
              | Some b \<Rightarrow> Some \<lparr>dog = b, network = network0\<rparr>))"

record ('b, 'n) scripted_node =
  sn_node_id :: node_id
  sn_swarm :: "('b, 'n) swarm"
  sn_stderr :: "log_line list"
  sn_stdout :: "log_line list"
  sn_start_time :: instant

definition scripted_node_new ::
  "('p, 'k, 'pk) libp2p_ops \<Rightarrow> node_id \<Rightarrow> (('p, 'k, 'q) behaviour, 'n) swarm \<Rightarrow> instant \<Rightarrow>
   (('p, 'k, 'q) behaviour, 'n) scripted_node" where
  "scripted_node_new I i sw start =
     \<lparr>sn_node_id = i, sn_swarm = sw, sn_stderr = [],
      sn_stdout = [PeerIDLine (peer_to_base58 I (get_own_id (publish_config (dog sw)))) (display_node_id i)],
      sn_start_time = start\<rparr>"

definition log_stderr :: "log_line \<Rightarrow> ('b, 'n) scripted_node \<Rightarrow> ('b, 'n) scripted_node" where
  "log_stderr l s = s\<lparr>sn_stderr := sn_stderr s @ [l]\<rparr>"

section \<open>The script\<close>

datatype script_error = ConnectFailed connector_error | PublishFailed publish_error

fun connect_all ::
  "('b, 'n, 'ip, 'addr) net_ops \<Rightarrow> node_id list \<Rightarrow> ('b, 'n) scripted_node \<Rightarrow>
   (script_error + unit) \<times> ('b, 'n) scripted_node" where
  "connect_all net [] s = (Inr (), s)"
| "connect_all net (target # targets) s =
     (case connect_to net target (sn_swarm s) of
        (Inr u, sw) \<Rightarrow>
          connect_all net targets (log_stderr (ConnectedToNode (display_node_id target)) (s\<lparr>sn_swarm := sw\<rparr>))
      | (Inl e, sw) \<Rightarrow>
          (Inl (ConnectFailed e), log_stderr (FailedToConnect (display_node_id target) e) (s\<lparr>sn_swarm := sw\<rparr>)))"

definition run_instruction ::
  "byteorder_ops \<Rightarrow> ('q, 'r, 'p rpc_out) channel_ops \<Rightarrow> ('p, 'k, 'pk) libp2p_ops \<Rightarrow>
   (('p, 'k, 'q) behaviour, 'n, 'ip, 'addr) net_ops \<Rightarrow> 'p world \<Rightarrow> instruction \<Rightarrow>
   (('p, 'k, 'q) behaviour, 'n) scripted_node \<Rightarrow>
   ((script_error + unit) \<times> (('p, 'k, 'q) behaviour, 'n) scripted_node) option" where
  "run_instruction bo C I net w ins s =
     (case ins of
        Connect node_ids \<Rightarrow>
          (case connect_all net node_ids s of
             (Inl e, s) \<Rightarrow> Some (Inl e, s)
           | (Inr u, s) \<Rightarrow> Some (Inr (), log_stderr (NodeConnected (display_node_id (sn_node_id s))) s))
      | PublishMessage message_id message_size_bytes topic_id \<Rightarrow>
          (case be_write_u64 bo (replicate message_size_bytes 0) message_id of
             None \<Rightarrow> None
           | Some msg \<Rightarrow>
               (case publish C I w msg (dog (sn_swarm s)) of
                  None \<Rightarrow> None
                | Some (res, b) \<Rightarrow>
                    (let s = s\<lparr>sn_swarm := (sn_swarm s)\<lparr>dog := b\<rparr>\<rparr>
                     in case res of
                          Inr tx_id \<Rightarrow> Some (Inr (), s)
                        | Inl e \<Rightarrow> Some (Inl (PublishFailed e), log_stderr (FailedToPublish message_id e) s))))
      | SubscribeToTopic topic_id \<Rightarrow> Some (Inr (), s))"

text \<open>The \<open>i\<close>th instruction runs in the world \<open>ws i\<close>; the first error ends the loop.\<close>

fun run_instructions ::
  "byteorder_ops \<Rightarrow> ('q, 'r, 'p rpc_out) channel_ops \<Rightarrow> ('p, 'k, 'pk) libp2p_ops \<Rightarrow>
   (('p, 'k, 'q) behaviour, 'n, 'ip, 'addr) net_ops \<Rightarrow> (nat \<Rightarrow> 'p world) \<Rightarrow> nat \<Rightarrow> instruction list \<Rightarrow>
   (('p, 'k, 'q) behaviour, 'n) scripted_node \<Rightarrow>
   ((script_error + unit) \<times> (('p, 'k, 'q) behaviour, 'n) scripted_node) option" where
  "run_instructions bo C I net ws i [] s = Some (Inr (), s)"
| "run_instructions bo C I net ws i (ins # rest) s =
     (case run_instruction bo C I net (ws i) ins s of
        None \<Rightarrow> None
      | Some (Inl e, s) \<Rightarrow> Some (Inl e, s)
      | Some (Inr u, s) \<Rightarrow> run_instructions bo C I net ws (i + 1) rest s)"

text \<open>
  What the environment does while a script instruction runs: the clock as it is read, the
  events that the swarm yields before the time-out, each with the swarm it leaves, and the
  worlds of the instructions.
\<close>

record ('p, 'b, 'n) script_env =
  env_now :: instant
  env_arrivals :: "(('b, 'n) swarm \<Rightarrow> 'p swarm_event \<times> ('b, 'n) swarm) list"
  env_worlds :: "nat \<Rightarrow> 'p world"

fun handle_arrivals ::
  "byteorder_ops \<Rightarrow> (bytes \<Rightarrow> string) \<Rightarrow> ('p, 'k, 'pk) libp2p_ops \<Rightarrow>
   (('b, 'n) swarm \<Rightarrow> 'p swarm_event \<times> ('b, 'n) swarm) list \<Rightarrow> ('b, 'n) scripted_node \<Rightarrow>
   ('b, 'n) scripted_node option" where
  "handle_arrivals bo hex I [] s = Some s"
| "handle_arrivals bo hex I (next_event # arrivals) s =
     (case next_event (sn_swarm s) of
        (e, sw) \<Rightarrow>
          (case handle_swarm_event bo hex I e of
             None \<Rightarrow> None
           | Some (out, err) \<Rightarrow>
               handle_arrivals bo hex I arrivals
                 (s\<lparr>sn_swarm := sw, sn_stdout := sn_stdout s @ out, sn_stderr := sn_stderr s @ err\<rparr>)))"

definition duration_from_millis :: "nat \<Rightarrow> duration" where
  "duration_from_millis ms = ms * 1000000"

definition run_script_instruction ::
  "byteorder_ops \<Rightarrow> (bytes \<Rightarrow> string) \<Rightarrow> ('q, 'r, 'p rpc_out) channel_ops \<Rightarrow> ('p, 'k, 'pk) libp2p_ops \<Rightarrow>
   (('p, 'k, 'q) behaviour, 'n, 'ip, 'addr) net_ops \<Rightarrow> ('p, ('p, 'k, 'q) behaviour, 'n) script_env \<Rightarrow>
   script_instruction \<Rightarrow> (('p, 'k, 'q) behaviour, 'n) scripted_node \<Rightarrow>
   ((script_error + unit) \<times> (('p, 'k, 'q) behaviour, 'n) scripted_node) option" where
  "run_script_instruction bo hex C I net env si s =
     (let target_time = sn_start_time s + duration_from_millis (elapsed_millis si)
      in case (if env_now env < target_time
               then handle_arrivals bo hex I (env_arrivals env)
                      (log_stderr (WaitingUntil (target_time - env_now env) (elapsed_millis si)) s)
               else Some s) of
           None \<Rightarrow> None
         | Some s \<Rightarrow> run_instructions bo C I net (env_worlds env) 0 (instructions si) s)"

fun run_script ::
  "byteorder_ops \<Rightarrow> (bytes \<Rightarrow> string) \<Rightarrow> ('q, 'r, 'p rpc_out) channel_ops \<Rightarrow> ('p, 'k, 'pk) libp2p_ops \<Rightarrow>
   (('p, 'k, 'q) behaviour, 'n, 'ip, 'addr) net_ops \<Rightarrow> (nat \<Rightarrow> ('p, ('p, 'k, 'q) behaviour, 'n) script_env) \<Rightarrow>
   nat \<Rightarrow> script_instruction list \<Rightarrow> (('p, 'k, 'q) behaviour, 'n) scripted_node \<Rightarrow>
   ((script_error + unit) \<times> (('p, 'k, 'q) behaviour, 'n) scripted_node) option" where
  "run_script bo hex C I net envs i [] s = Some (Inr (), s)"
| "run_script bo hex C I net envs i (si # rest) s =
     (case run_script_instruction bo hex C I net (envs i) si s of
        None \<Rightarrow> None
      | Some (Inl e, s) \<Rightarrow> Some (Inl e, s)
      | Some (Inr u, s) \<Rightarrow> run_script bo hex C I net envs (i + 1) rest s)"

definition run_experiment ::
  "byteorder_ops \<Rightarrow> (bytes \<Rightarrow> string) \<Rightarrow> ('q, 'r, 'p rpc_out) channel_ops \<Rightarrow> ('p, 'k, 'pk) libp2p_ops \<Rightarrow>
   (('p, 'k, 'q) behaviour, 'n, 'ip, 'addr) net_ops \<Rightarrow> (nat \<Rightarrow> ('p, ('p, 'k, 'q) behaviour, 'n) script_env) \<Rightarrow>
   instant \<Rightarrow> (('p, 'k, 'q) behaviour, 'n) swarm \<Rightarrow> node_id \<Rightarrow> experiment_params \<Rightarrow>
   ((script_error + unit) \<times> (('p, 'k, 'q) behaviour, 'n) scripted_node) option" where
  "run_experiment bo hex C I net envs start sw i params =
     run_script bo hex C I net envs 0 (script params) (scripted_node_new I i sw start)"

section \<open>The program\<close>

datatype main_error =
    ParamsFailed params_error
  | NodeIdFailed node_id_error
  | AddressFailed string
  | ListenFailed string
  | ScriptFailed script_error

text \<open>
  From the reading of the parameter file to the end of the script. The arguments \<open>params\<close> and
  \<open>hostname\<close> are what the file and the host yield; \<open>listen_on\<close> is libp2p's.
\<close>

definition main ::
  "byteorder_ops \<Rightarrow> (bytes \<Rightarrow> string) \<Rightarrow> ('q, 'r, 'p rpc_out) channel_ops \<Rightarrow> ('p, 'k, 'pk) libp2p_ops \<Rightarrow>
   (('p, 'k, 'q) behaviour, 'n, 'ip, 'addr) net_ops \<Rightarrow> (nat \<Rightarrow> ('p, ('p, 'k, 'q) behaviour, 'n) script_env) \<Rightarrow>
   params_error + experiment_params \<Rightarrow> io_error + string \<Rightarrow> instant \<Rightarrow> nat \<Rightarrow> 'k \<Rightarrow> 'n \<Rightarrow>
   ('addr \<Rightarrow> (('p, 'k, 'q) behaviour, 'n) swarm \<Rightarrow> (string + unit) \<times> (('p, 'k, 'q) behaviour, 'n) swarm) \<Rightarrow>
   (main_error + (('p, 'k, 'q) behaviour, 'n) scripted_node) option" where
  "main bo hex C I net envs params hostname start unix_nanos key network0 listen_on =
     (case params of
        Inl e \<Rightarrow> Some (Inl (ParamsFailed e))
      | Inr p \<Rightarrow>
          (case node_id_new hostname of
             Inl e \<Rightarrow> Some (Inl (NodeIdFailed e))
           | Inr i \<Rightarrow>
               (case new_swarm I start unix_nanos key network0 (params_config p) of
                  None \<Rightarrow> None
                | Some sw \<Rightarrow>
                    (case parse_multiaddr net ''/ip4/0.0.0.0/tcp/9000'' of
                       Inl e \<Rightarrow> Some (Inl (AddressFailed e))
                     | Inr addr \<Rightarrow>
                         (case listen_on addr sw of
                            (Inl e, sw) \<Rightarrow> Some (Inl (ListenFailed e))
                          | (Inr u, sw) \<Rightarrow>
                              (case run_experiment bo hex C I net envs start sw i p of
                                 None \<Rightarrow> None
                               | Some (Inl e, s) \<Rightarrow> Some (Inl (ScriptFailed e))
                               | Some (Inr u, s) \<Rightarrow> Some (Inr s)))))))"

end
