(* ===== verification/Exp_Props.thy ===== *)
theory Exp_Props
  imports Exp_Run Dog_Publish_Props Dog_Routing_Props
begin

text \<open>
  What the experiment guarantees: node numbers survive their host names, the parameters reach
  the node, the script runs up to its first error, and a published message is logged with its
  number by the nodes that receive it.
\<close>

section \<open>Node numbers\<close>

lemma skip_chars_append: "skip_chars (length prefix) (prefix @ s) = Some s"
  by (induction prefix) simp_all

lemma skip_chars_short: "length s < n \<Longrightarrow> skip_chars n s = None"
  by (induction n s rule: skip_chars.induct) simp_all

lemma digit_of_char: "d < 10 \<Longrightarrow> digit_of (digit_char d) = Some d"
  by (simp add: digit_of_def digit_char_def)

lemma parse_digits_append:
  "parse_digits negative acc (xs @ ys) =
     (case parse_digits negative acc xs of Inl e \<Rightarrow> Inl e | Inr a \<Rightarrow> parse_digits negative a ys)"
  by (induction xs arbitrary: acc) (cases negative; simp add: Let_def split: option.split)+

lemma parse_digits_decimal:
  assumes "in_i32 (if negative then - int n else int n)"
  shows "parse_digits negative 0 (decimal n) = Inr (if negative then - int n else int n)"
  using assms
proof (induction n rule: decimal.induct)
  case (1 n)
  show ?case
  proof (cases "n < 10")
    case True
    then show ?thesis
      by (simp add: decimal.simps [of n] digit_of_char in_i32_def)
  next
    case False
    define q m where "q = n div 10" and "m = n mod 10"
    have n: "int n = int q * 10 + int m" and m: "m < 10"
      unfolding q_def m_def by presburger+
    have dec: "decimal n = decimal q @ [digit_char m]"
      using False by (simp add: decimal.simps [of n] q_def m_def)
    have "in_i32 (if negative then - int q else int q)"
      and mul: "in_i32 ((if negative then - int q else int q) * 10)"
      using 1(2) n by (auto simp: in_i32_def)
    with 1(1) [OF False, folded q_def]
    have q: "parse_digits negative 0 (decimal q) = Inr (if negative then - int q else int q)"
      by simp
    show ?thesis
      using mul 1(2) unfolding dec n
      by (simp add: parse_digits_append q digit_of_char m Let_def split: if_splits)
  qed
qed

lemma decimal_head: "\<exists>d cs. d < 10 \<and> decimal n = digit_char d # cs"
proof (induction n rule: decimal.induct)
  case (1 n)
  show ?case
  proof (cases "n < 10")
    case True
    then show ?thesis by (auto simp: decimal.simps [of n])
  next
    case False
    with 1 obtain d cs where "d < 10" "decimal (n div 10) = digit_char d # cs" by blast
    with False show ?thesis by (auto simp: decimal.simps [of n])
  qed
qed

lemma digit_char_sign: "d < 10 \<Longrightarrow> digit_char d \<noteq> CHR ''+'' \<and> digit_char d \<noteq> CHR ''-''"
  using digit_of_char [of d] by (auto simp: digit_of_def)

lemma parse_i32_display: "parse_i32 (display_node_id (NodeID n)) = Inr n"
proof -
  have range: "in_i32 (sint n)"
    using sint_ge [of n] sint_lt [of n] by (simp add: in_i32_def)
  have same: "(of_int (sint n) :: i32) = n" by simp
  show ?thesis
  proof (cases "sint n < 0")
    case True
    obtain d cs where d: "d < 10" "decimal (nat (- sint n)) = digit_char d # cs"
      using decimal_head by blast
    have "parse_digits True 0 (decimal (nat (- sint n))) = Inr (sint n)"
      using parse_digits_decimal [of True "nat (- sint n)"] range True by simp
    with True d same show ?thesis by (simp add: parse_i32_def)
  next
    case False
    obtain d cs where d: "d < 10" "decimal (nat (sint n)) = digit_char d # cs"
      using decimal_head by blast
    have "parse_digits False 0 (decimal (nat (sint n))) = Inr (sint n)"
      using parse_digits_decimal [of False "nat (sint n)"] range False by simp
    with False d digit_char_sign [OF d(1)] same show ?thesis by (simp add: parse_i32_def)
  qed
qed

text \<open>Seeds are 32 bytes, and different nodes have different ones.\<close>

lemma node_seed_injective:
  assumes "byteorder_laws bo"
  shows "\<exists>seed. node_seed bo i = Some seed \<and> length seed = 32"
    and "node_seed bo i = node_seed bo j \<Longrightarrow> i = j"
proof -
  have front: "\<exists>w. le_write_i32 bo (replicate 4 0) v = Some w \<and> length w = 4" for v
    using byteorder_laws.le_write_short [OF assms, of "replicate 4 0" v]
      byteorder_laws.le_write_length [OF assms, of "replicate 4 0" v] by fastforce
  show "\<exists>seed. node_seed bo i = Some seed \<and> length seed = 32"
  proof (cases i)
    case (NodeID n)
    from front [of n] obtain w where "le_write_i32 bo (replicate 4 0) n = Some w" "length w = 4" by blast
    with NodeID show ?thesis by (simp add: node_seed_def)
  qed
  show "i = j" if "node_seed bo i = node_seed bo j"
  proof (cases i; cases j)
    fix m n
    assume ij: "i = NodeID m" "j = NodeID n"
    obtain v w where "le_write_i32 bo (replicate 4 0) m = Some v" "le_write_i32 bo (replicate 4 0) n = Some w"
      using front by meson
    with that ij byteorder_laws.le_write_inj [OF assms, of "replicate 4 0" m v n] show ?thesis
      by (simp add: node_seed_def)
  qed
qed

text \<open>
  C31. A node reads its number back from the host name it is reached under: behind any four
  characters, the decimal form of a number, negative ones included, is parsed to that number.
  A shorter name is refused.
\<close>

theorem node_id_roundtrip:
  assumes "length prefix = 4" and "length short < 4"
  shows "node_id_new (Inr (prefix @ display_node_id i)) = Inr i
    \<and> node_id_new (Inr short) = Inl InvalidHostname"
  using skip_chars_append [of prefix "display_node_id i"] skip_chars_short [OF assms(2)] assms(1)
  by (cases i) (simp add: node_id_new_def parse_i32_display del: display_node_id.simps)

theorem node_id_roundtrip_witness:
  "node_id_new (Inr ''node-42'') = Inr (NodeID (- 42)) \<and> node_id_new (Inr ''abc'') = Inl InvalidHostname"
proof -
  have "''node-42'' = ''node'' @ display_node_id (NodeID (- 42))"
    by code_simp
  then show ?thesis
    using node_id_roundtrip [of "''node''" "''abc''" "NodeID (- 42)"] by simp
qed

section \<open>Parameters\<close>

text \<open>What is given, or else a default.\<close>

definition given :: "'v option \<Rightarrow> 'v \<Rightarrow> 'v" where
  "given v d = (case v of Some x \<Rightarrow> x | None \<Rightarrow> d)"

text \<open>Each override is an update of its field with what was given, or with what is there.\<close>

lemma if_given_updates:
  "if_given va set_max_transactions_per_rpc b = b\<lparr>builder_config := (builder_config b)
     \<lparr>max_transactions_per_rpc := given (map_option Some va) (max_transactions_per_rpc (builder_config b))\<rparr>\<rparr>"
  "if_given vb set_connection_handler_queue_len b = b\<lparr>builder_config := (builder_config b)
     \<lparr>connection_handler_queue_len := given vb (connection_handler_queue_len (builder_config b))\<rparr>\<rparr>"
  "if_given vc (set_cache_time \<circ> duration_from_secs) b = b\<lparr>builder_config := (builder_config b)
     \<lparr>cache_time := given (map_option duration_from_secs vc) (cache_time (builder_config b))\<rparr>\<rparr>"
  "if_given vd set_target_redundancy b = b\<lparr>builder_config := (builder_config b)
     \<lparr>target_redundancy := given vd (target_redundancy (builder_config b))\<rparr>\<rparr>"
  "if_given ve set_redundancy_delta_percent b = b\<lparr>builder_config := (builder_config b)
     \<lparr>redundancy_delta_percent := given ve (redundancy_delta_percent (builder_config b))\<rparr>\<rparr>"
  "if_given vf (set_redundancy_interval \<circ> duration_from_secs) b = b\<lparr>builder_config := (builder_config b)
     \<lparr>redundancy_interval := given (map_option duration_from_secs vf) (redundancy_interval (builder_config b))\<rparr>\<rparr>"
  "if_given vg (set_connection_handler_publish_duration \<circ> duration_from_secs) b = b\<lparr>builder_config := (builder_config b)
     \<lparr>connection_handler_publish_duration := given (map_option duration_from_secs vg) (connection_handler_publish_duration (builder_config b))\<rparr>\<rparr>"
  "if_given vh (set_connection_handler_forward_duration \<circ> duration_from_secs) b = b\<lparr>builder_config := (builder_config b)
     \<lparr>connection_handler_forward_duration := given (map_option duration_from_secs vh) (connection_handler_forward_duration (builder_config b))\<rparr>\<rparr>"
  "if_given vi set_deliver_own_transactions b = b\<lparr>builder_config := (builder_config b)
     \<lparr>deliver_own_transactions := given vi (deliver_own_transactions (builder_config b))\<rparr>\<rparr>"
  "if_given vj set_forward_transactions b = b\<lparr>builder_config := (builder_config b)
     \<lparr>forward_transactions := given vj (forward_transactions (builder_config b))\<rparr>\<rparr>"
  "if_given vk set_send_have_tx b = b\<lparr>builder_config := (builder_config b)
     \<lparr>send_have_tx := given vk (send_have_tx (builder_config b))\<rparr>\<rparr>"
  "if_given vl set_ignore_have_tx b = b\<lparr>builder_config := (builder_config b)
     \<lparr>ignore_have_tx := given vl (ignore_have_tx (builder_config b))\<rparr>\<rparr>"
  by (simp_all add: if_given_def given_def builder_setter_defs split: option.split)

lemma apply_params_eq:
  "builder_config (apply_params p b) = (builder_config b)
     \<lparr>max_transactions_per_rpc :=
        given (map_option Some (p_max_transactions_per_rpc p)) (max_transactions_per_rpc (builder_config b)),
      connection_handler_queue_len :=
        given (p_connection_handler_queue_len p) (connection_handler_queue_len (builder_config b)),
      cache_time := given (map_option duration_from_secs (p_cache_time_sec p)) (cache_time (builder_config b)),
      target_redundancy := given (p_target_redundancy p) (target_redundancy (builder_config b)),
      redundancy_delta_percent :=
        given (p_redundancy_delta_percent p) (redundancy_delta_percent (builder_config b)),
      redundancy_interval :=
        given (map_option duration_from_secs (p_redundancy_interval_sec p)) (redundancy_interval (builder_config b)),
      connection_handler_publish_duration :=
        given (map_option duration_from_secs (p_connection_handler_publish_duration_sec p)) (connection_handler_publish_duration (builder_config b)),
      connection_handler_forward_duration :=
        given (map_option duration_from_secs (p_connection_handler_forward_duration_sec p)) (connection_handler_forward_duration (builder_config b)),
      deliver_own_transactions :=
        given (p_deliver_own_transactions p) (deliver_own_transactions (builder_config b)),
      forward_transactions := given (p_forward_transactions p) (forward_transactions (builder_config b)),
      send_have_tx := given (p_send_have_tx p) (send_have_tx (builder_config b)),
      ignore_have_tx := given (p_ignore_have_tx p) (ignore_have_tx (builder_config b))\<rparr>"
proof (cases b)
  case (fields c)
  then show ?thesis
    by (cases c) (simp only: apply_params_def if_given_updates Let_def config_builder.simps config.simps)
qed

lemma given_Some: "given (map_option Some v) None = v"
  by (cases v) (simp_all add: given_def)

text \<open>
  C33. The node of an experiment starts, without a panic, with the default configuration in
  which exactly the given parameters are replaced, with nobody connected, no route disabled,
  nothing remembered and the identity of the key it was given.
\<close>

theorem new_swarm_correct:
  "\<exists>b :: ('p, 'k, 'q) behaviour. new_swarm I now nanos key network0 p = Some \<lparr>dog = b, network = network0\<rparr>
    \<and> (let cfg = bconfig b; dflt = builder_config (default_config_builder I) in
         protocol cfg = protocol dflt \<and> transaction_id_fn cfg = transaction_id_fn dflt
         \<and> max_transactions_per_rpc cfg = p_max_transactions_per_rpc p
         \<and> connection_handler_queue_len cfg = given (p_connection_handler_queue_len p) 5000
         \<and> cache_time cfg = given (map_option duration_from_secs (p_cache_time_sec p)) (duration_from_secs 30)
         \<and> target_redundancy cfg = given (p_target_redundancy p) 1
         \<and> redundancy_delta_percent cfg = given (p_redundancy_delta_percent p) 10
         \<and> redundancy_interval cfg = given (map_option duration_from_secs (p_redundancy_interval_sec p)) (duration_from_secs 1)
         \<and> connection_handler_publish_duration cfg
             = given (map_option duration_from_secs (p_connection_handler_publish_duration_sec p)) (duration_from_secs 5)
         \<and> connection_handler_forward_duration cfg
             = given (map_option duration_from_secs (p_connection_handler_forward_duration_sec p)) (duration_from_secs 1)
         \<and> deliver_own_transactions cfg = given (p_deliver_own_transactions p) False
         \<and> forward_transactions cfg = given (p_forward_transactions p) True
         \<and> send_have_tx cfg = given (p_send_have_tx p) True
         \<and> ignore_have_tx cfg = given (p_ignore_have_tx p) False)
    \<and> connected_peers b = Map.empty \<and> disabled_routes (router b) = [] \<and> cache_len (cache b) = 0
    \<and> events b = [] \<and> get_own_id (publish_config b) = public_key_to_peer_id I (keypair_public I key)"
proof -
  let ?cfg = "builder_config (apply_params p (default_config_builder I))"
  obtain b :: "('p, 'k, 'q) behaviour" where b: "behaviour_new I now nanos (Signed key) ?cfg False identity_transform = Inr b"
    by (simp add: behaviour_new_def)
  have fields: "bconfig b = ?cfg" "connected_peers b = Map.empty" "disabled_routes (router b) = []"
    "cache_len (cache b) = 0" "events b = []"
    "get_own_id (publish_config b) = public_key_to_peer_id I (keypair_public I key)"
    using b by (auto simp: behaviour_new_def router_new_def cache_new_def cache_len_def Let_def)
  have new: "new_swarm I now nanos key network0 p = Some \<lparr>dog = b, network = network0\<rparr>"
    by (simp add: new_swarm_def build_def my_behaviour_new_def b)
  have c: "protocol ?cfg = protocol (builder_config (default_config_builder I))"
      "transaction_id_fn ?cfg = transaction_id_fn (builder_config (default_config_builder I))"
      "max_transactions_per_rpc ?cfg = p_max_transactions_per_rpc p"
      "connection_handler_queue_len ?cfg = given (p_connection_handler_queue_len p) 5000"
      "cache_time ?cfg = given (map_option duration_from_secs (p_cache_time_sec p)) (duration_from_secs 30)"
      "target_redundancy ?cfg = given (p_target_redundancy p) 1"
      "redundancy_delta_percent ?cfg = given (p_redundancy_delta_percent p) 10"
      "redundancy_interval ?cfg = given (map_option duration_from_secs (p_redundancy_interval_sec p)) (duration_from_secs 1)"
      "connection_handler_publish_duration ?cfg
         = given (map_option duration_from_secs (p_connection_handler_publish_duration_sec p)) (duration_from_secs 5)"
      "connection_handler_forward_duration ?cfg
         = given (map_option duration_from_secs (p_connection_handler_forward_duration_sec p)) (duration_from_secs 1)"
      "deliver_own_transactions ?cfg = given (p_deliver_own_transactions p) False"
      "forward_transactions ?cfg = given (p_forward_transactions p) True"
      "send_have_tx ?cfg = given (p_send_have_tx p) True"
      "ignore_have_tx ?cfg = given (p_ignore_have_tx p) False"
    by (simp_all add: apply_params_eq default_config_builder_def given_Some)
  show ?thesis
    by (rule exI [of _ b]) (simp only: new fields c Let_def simp_thms)
qed

section \<open>The script\<close>

text \<open>
  \<open>succeeds_to step s k t\<close>: the steps \<open>0\<close> to \<open>k - 1\<close>, each from the state the one before it
  leaves, the first from \<open>s\<close>, all succeed and lead to \<open>t\<close>.
\<close>

inductive succeeds_to ::
  "(nat \<Rightarrow> 's \<Rightarrow> (('e + unit) \<times> 's) option) \<Rightarrow> 's \<Rightarrow> nat \<Rightarrow> 's \<Rightarrow> bool" for step s where
  Start: "succeeds_to step s 0 s"
| Next: "succeeds_to step s k t \<Longrightarrow> step k t = Some (Inr u, t') \<Longrightarrow> succeeds_to step s (Suc k) t'"

inductive_simps succeeds_to_0: "succeeds_to step s 0 t"
inductive_simps succeeds_to_Suc_last: "succeeds_to step s (Suc k) t"

lemma succeeds_to_Suc:
  "succeeds_to step s (Suc k) t \<longleftrightarrow>
     (\<exists>u s1. step 0 s = Some (Inr u, s1) \<and> succeeds_to (\<lambda>j. step (Suc j)) s1 k t)"
proof (induction k arbitrary: t)
  case 0
  show ?case by (simp add: succeeds_to_Suc_last succeeds_to_0)
next
  case (Suc k)
  show ?case
    unfolding succeeds_to_Suc_last [of step s "Suc k"] succeeds_to_Suc_last [of "\<lambda>j. step (Suc j)" _ k] Suc.IH
    by auto
qed

text \<open>
  The outcome of \<open>n\<close> steps that end with the first failure: a success when all succeed, and
  otherwise the error or the panic (\<open>None\<close>) of the first step that does not, in its state.
\<close>

definition stops_with ::
  "(nat \<Rightarrow> 's \<Rightarrow> (('e + unit) \<times> 's) option) \<Rightarrow> nat \<Rightarrow> 's \<Rightarrow> (('e + unit) \<times> 's) option \<Rightarrow> bool" where
  "stops_with step n s x \<longleftrightarrow> (\<exists>k < n. \<exists>sk. succeeds_to step s k sk \<and> step k sk = x)"

fun first_failure ::
  "(nat \<Rightarrow> 's \<Rightarrow> (('e + unit) \<times> 's) option) \<Rightarrow> nat \<Rightarrow> 's \<Rightarrow> (('e + unit) \<times> 's) option \<Rightarrow> bool" where
  "first_failure step n s (Some (Inr u, t)) = succeeds_to step s n t"
| "first_failure step n s (Some (Inl e, t)) = stops_with step n s (Some (Inl e, t))"
| "first_failure step n s None = stops_with step n s None"

lemma first_failure_0: "first_failure step 0 s r \<longleftrightarrow> r = Some (Inr (), s)"
  by (cases "(step, 0 :: nat, s, r)" rule: first_failure.cases) (auto simp: succeeds_to_0 stops_with_def)

lemma stops_with_Suc:
  "stops_with step (Suc n) s x \<longleftrightarrow>
     step 0 s = x \<or> (\<exists>u s1. step 0 s = Some (Inr u, s1) \<and> stops_with (\<lambda>j. step (Suc j)) n s1 x)"
  unfolding stops_with_def Ex_less_Suc2 succeeds_to_Suc succeeds_to_0 by blast

lemma first_failure_Suc:
  "first_failure step (Suc n) s r \<longleftrightarrow>
     (case step 0 s of
        None \<Rightarrow> r = None
      | Some (Inl e, t) \<Rightarrow> r = Some (Inl e, t)
      | Some (Inr u, t) \<Rightarrow> first_failure (\<lambda>j. step (Suc j)) n t r)"
  by (cases "(step, n, s, r)" rule: first_failure.cases)
    (auto simp: stops_with_Suc succeeds_to_Suc split: option.split sum.split)

lemma run_instructions_first_failure:
  "run_instructions bo C I net ws i xs s = r \<longleftrightarrow>
     first_failure (\<lambda>k. run_instruction bo C I net (ws (i + k)) (xs ! k)) (length xs) s r"
proof (induction xs arbitrary: i s)
  case (Cons x xs)
  show ?case
    using Cons.IH [of "Suc i"]
    by (auto simp: first_failure_Suc split: option.split prod.split sum.split)
qed (auto simp: first_failure_0)

lemma run_script_first_failure:
  "run_script bo hex C I net envs i xs s = r \<longleftrightarrow>
     first_failure (\<lambda>k. run_script_instruction bo hex C I net (envs (i + k)) (xs ! k)) (length xs) s r"
proof (induction xs arbitrary: i s)
  case (Cons x xs)
  show ?case
    using Cons.IH [of "Suc i"]
    by (auto simp: first_failure_Suc split: option.split prod.split sum.split)
qed (auto simp: first_failure_0)

text \<open>
  C34. A script, and each list of instructions in it, stops at the first failure. It ends
  well in a state if and only if all its instructions succeed one after the other and lead
  there; it ends with an error if and only if some instruction gives that error after all
  the instructions before it have succeeded, in the state that instruction leaves, so that
  nothing after it is run; and it panics if and only if some instruction panics after all
  before it have succeeded.
\<close>

theorem script_stops_at_first_failure:
  "(run_script bo hex C I net envs i sis s = r \<longleftrightarrow>
      first_failure (\<lambda>k. run_script_instruction bo hex C I net (envs (i + k)) (sis ! k)) (length sis) s r)
   \<and> (run_instructions bo C I net ws j instrs s = r \<longleftrightarrow>
      first_failure (\<lambda>k. run_instruction bo C I net (ws (j + k)) (instrs ! k)) (length instrs) s r)"
  by (simp add: run_script_first_failure run_instructions_first_failure)

text \<open>
  C32. A publish instruction panics when the message cannot hold its 8-byte number. Otherwise
  the node publishes a message of the size asked for that starts with the number; when it
  refuses the message the script ends with that refusal, logged with the number, and when it
  accepts it the instruction succeeds and logs nothing.
\<close>

theorem publish_instruction_correct:
  assumes "byteorder_laws bo"
    and "run = run_instruction bo C I net w (PublishMessage n len topic) s"
  shows "(len < 8 \<longrightarrow> run = None)
    \<and> (8 \<le> len \<longrightarrow> (\<exists>msg. length msg = len \<and> be_read_u64 bo msg = Some n
        \<and> (case publish C I w msg (dog (sn_swarm s)) of
              None \<Rightarrow> run = None
            | Some (Inr tx_id, b) \<Rightarrow> run = Some (Inr (), s\<lparr>sn_swarm := (sn_swarm s)\<lparr>dog := b\<rparr>\<rparr>)
            | Some (Inl e, b) \<Rightarrow> run = Some (Inl (PublishFailed e),
                s\<lparr>sn_swarm := (sn_swarm s)\<lparr>dog := b\<rparr>, sn_stderr := sn_stderr s @ [FailedToPublish n e]\<rparr>))))"
proof (cases "len < 8")
  case True
  with byteorder_laws.write_short [OF assms(1), of "replicate len 0" n] show ?thesis
    by (simp add: assms(2) run_instruction_def)
next
  case False
  then obtain msg where msg: "be_write_u64 bo (replicate len 0) n = Some msg" "length msg = len"
    "be_read_u64 bo msg = Some n"
    using byteorder_laws.write_buffer [OF assms(1), of "replicate len 0" n] by auto
  show ?thesis
  proof (cases "publish C I w msg (dog (sn_swarm s))")
    case None
    with msg False show ?thesis by (auto simp: assms(2) run_instruction_def)
  next
    case (Some out)
    obtain res b where out: "out = (res, b)" by fastforce
    from False msg Some out show ?thesis
      by (cases res) (auto simp: assms(2) run_instruction_def log_stderr_def intro!: exI [of _ msg])
  qed
qed

text \<open>A node in an experiment without a network: every name resolves to itself.\<close>

definition sample_net :: "((byte, byte, byte rpc_out list_queue) behaviour, unit, string, string) net_ops" where
  "sample_net =
     \<lparr>lookup_host = (\<lambda>name. Inr [name]), display_ip = id, parse_multiaddr = Inr,
      dial = (\<lambda>addr sw. (Inr (), sw))\<rparr>"

definition sample_scripted :: "((byte, byte, byte rpc_out list_queue) behaviour, unit) scripted_node" where
  "sample_scripted = scripted_node_new sample_ops (NodeID 3) \<lparr>dog = sample_node, network = ()\<rparr> 0"

theorem publish_instruction_correct_witness:
  "run_instruction byteorder list_channel sample_ops sample_net (sample_world 3) (PublishMessage 5 7 []) sample_scripted
      = None
   \<and> (\<exists>msg. length msg = 20 \<and> be_read_u64 byteorder msg = Some 5)"
  using publish_instruction_correct [OF byteorder.byteorder_laws_axioms refl, where len = 7 and n = 5
      and C = list_channel and I = sample_ops and net = sample_net and w = "sample_world 3" and s = sample_scripted]
    publish_instruction_correct [OF byteorder.byteorder_laws_axioms refl, where len = 20 and n = 5
      and C = list_channel and I = sample_ops and net = sample_net and w = "sample_world 3" and s = sample_scripted]
  by auto

section \<open>The logs\<close>

text \<open>
  C35. Logging an event of the swarm panics in exactly two cases: a transaction, received or
  sent, whose data is shorter than eight bytes, and a connection that closes without a cause,
  as libp2p reports a successful active close.
\<close>

theorem logging_panics:
  assumes "byteorder_laws bo"
  shows "handle_swarm_event bo hex I e = None \<longleftrightarrow>
    (\<exists>p tx_id tx. length (tx_data tx) < 8
       \<and> (e = DogEvent (TransactionReceived p tx_id tx) \<or> e = DogEvent (TransactionSent p tx_id tx)))
    \<or> (\<exists>p. e = SwarmConnectionClosed p None)"
proof (cases e)
  case (DogEvent d)
  with byteorder_laws.read_short [OF assms] show ?thesis
    by (cases d) (auto simp: handle_swarm_event_def handle_dog_event_def)
next
  case (SwarmConnectionClosed p cause)
  then show ?thesis
    by (cases cause) (simp_all add: handle_swarm_event_def handle_swarm_specific_event_def)
qed (simp_all add: handle_swarm_event_def handle_swarm_specific_event_def)

theorem logging_panics_witness:
  "handle_swarm_event byteorder (\<lambda>b. []) sample_ops (DogEvent (TransactionSent 1 sample_id
     \<lparr>tx_from = 5, tx_seqno = 1, tx_data = [4]\<rparr>)) = None"
  using logging_panics [OF byteorder.byteorder_laws_axioms, of "\<lambda>b. []" sample_ops] by fastforce

text \<open>A transaction that passes the inbound transform is reported, new or not.\<close>

lemma send_to_all_reported: "set (events b) \<subseteq> set (events (snd (send_to_all C I m tx_id tx ps b)))"
proof (induction ps arbitrary: b)
  case (Cons p ps)
  obtain ok b1 where s: "send_transaction C I p m b = (ok, b1)" by fastforce
  then have "events b1 = events b" using send_transaction_events [of C I p m b] by simp
  with s Cons.IH [of b1] Cons.IH [of "push_event (TransactionSent p tx_id tx) b1"] show ?case
    by (cases ok) (auto simp: case_prod_beta)
qed simp

lemma forward_reported:
  assumes "e \<in> set (events b)"
  shows "e \<in> set (events (snd (forward_transaction C I w tx_id raw source b)))"
  using assms
  by (auto simp: forward_transaction_def Let_def case_prod_beta intro: subsetD [OF send_to_all_reported])

lemma received_reported:
  assumes tx: "inbound_transform (data_transform b) raw = Inr tx"
  shows "TransactionReceived source (config_transaction_id (bconfig b) tx) tx
    \<in> set (events (handle_received_transaction C I w raw source b))"
proof -
  obtain tx_id where id: "tx_id = config_transaction_id (bconfig b) tx" by blast
  obtain is_new c where c: "cache_insert (clock w) tx_id source (cache b) = (is_new, c)" by fastforce
  show ?thesis
  proof (cases is_new)
    case True
    let ?n = "new_received I raw source tx_id tx c b"
    have "TransactionReceived source tx_id tx \<in> set (events ?n)" by simp
    then show ?thesis
      by (simp add: received_new [OF tx id c [unfolded eqTrueI [OF True]]] id [symmetric] forward_reported)
  next
    case False
    then have c: "cache_insert (clock w) tx_id source (cache b) = (False, c)" using c by simp
    let ?d = "duplicate_received I raw source tx_id tx c b"
    let ?m = "HaveTx \<lparr>have_tx_id = tx_id\<rparr>"
    obtain ok b2 where s: "send_transaction C I source ?m ?d = (ok, b2)" by fastforce
    have "events b2 = events ?d"
      using send_transaction_events [of C I source ?m ?d] s by simp
    with s show ?thesis
      by (cases ok) (simp_all add: received_duplicate [OF tx id c] id [symmetric] Let_def)
  qed
qed

text \<open>
  C12. The number of a published message arrives. What a signing node builds of a message that
  starts with a number, encoded and decoded by a peer in any validation mode, makes that peer
  report a received transaction, whichever neighbour it came from and whether or not it is a
  duplicate, and the log of that peer shows the number, the neighbour and the size.
\<close>

theorem message_number_logged:
  assumes "libp2p_laws I" and "byteorder_laws bo"
    and "be_write_u64 bo (replicate len 0) number = Some msg"
    and "publish_config_of I nanos (Signed kp) = Signing kp own_id key n0"
    and "publish_config b = Signing kp own_id key n"
    and "build_raw_transaction I msg b = Some (Inr raw, b')"
    and "frame_decode F (codec_max_length c) src = (Inr (Some (rpc_out_into_protobuf I (Publish raw timeout))), src')"
    and "data_transform receiver = identity_transform"
  shows "\<exists>raw' tx_id tx. codec_decode I F strangers c src =
      Some (Inr (Some (TransactionEvent \<lparr>rpc_transactions = [raw'], rpc_control_msgs = []\<rparr> [])), src')
    \<and> TransactionReceived source tx_id tx \<in> set (events (handle_received_transaction C I w raw' source receiver))
    \<and> handle_dog_event bo hex I (TransactionReceived source tx_id tx)
        = Some (ReceivedMessage number (peer_to_base58 I source) len)"
proof -
  obtain raw' where dec: "codec_decode I F strangers c src =
      Some (Inr (Some (TransactionEvent \<lparr>rpc_transactions = [raw'], rpc_control_msgs = []\<rparr> [])), src')"
    and raw': "raw_data raw' = msg"
    using signed_publication_decodes [OF assms(1,4-7)] by blast
  let ?tx = "\<lparr>tx_from = raw_from raw', tx_seqno = raw_seqno raw', tx_data = msg\<rparr>"
  have "inbound_transform (data_transform receiver) raw' = Inr ?tx"
    by (simp add: assms(8) identity_transform_def identity_inbound_def raw')
  note received_reported [OF this, of source C I w]
  moreover have "handle_dog_event bo hex I (TransactionReceived source i ?tx)
      = Some (ReceivedMessage number (peer_to_base58 I source) len)" for i
    using byteorder_laws.read_write [OF assms(2,3)] byteorder_laws.write_length [OF assms(2,3)]
    by (simp add: handle_dog_event_def)
  ultimately show ?thesis using dec by blast
qed

theorem message_number_logged_witness:
  "\<exists>msg raw b0 raw' tx_id tx. be_write_u64 byteorder (replicate 12 0) 513 = Some msg
    \<and> build_raw_transaction sample_ops msg sample_node = Some (Inr raw, b0)
    \<and> codec_decode sample_ops sample_frames (\<lambda>i. 0) (dog_codec_new 100 Strict)
        [rpc_out_into_protobuf sample_ops (Publish raw (Delay 0 0))] =
      Some (Inr (Some (TransactionEvent \<lparr>rpc_transactions = [raw'], rpc_control_msgs = []\<rparr> [])), [])
    \<and> TransactionReceived 2 tx_id tx \<in> set (events (handle_received_transaction list_channel sample_ops
        (sample_world 5) raw' 2 sample_node))
    \<and> handle_dog_event byteorder (\<lambda>b. []) sample_ops (TransactionReceived 2 tx_id tx)
        = Some (ReceivedMessage 513 (peer_to_base58 sample_ops 2) 12)"
proof -
  obtain msg where msg: "be_write_u64 byteorder (replicate 12 0) 513 = Some msg"
    using byteorder.write_buffer [of "replicate 12 0" 513] by auto
  obtain raw b0 where raw: "build_raw_transaction sample_ops msg sample_node = Some (Inr raw, b0)"
    using sample_built by blast
  have pc: "publish_config_of sample_ops 0 (Signed 7) = Signing 7 7 None (sequence_number_new 0)"
    by (simp add: sample_ops_def Let_def)
  have frames: "frame_decode sample_frames (codec_max_length (dog_codec_new 100 Strict))
      [rpc_out_into_protobuf sample_ops (Publish raw (Delay 0 0))] =
      (Inr (Some (rpc_out_into_protobuf sample_ops (Publish raw (Delay 0 0)))), [])"
    by (simp add: sample_frames_def)
  from message_number_logged [OF sample_laws.libp2p_laws_axioms byteorder.byteorder_laws_axioms msg pc
      sample_simps(9) raw frames sample_simps(10)] msg raw
  show ?thesis by blast
qed

end
