(* ===== verification/Spec2Isabelle.thy ===== *)
theory Spec2Isabelle
  imports Dog_Node_Props Dog_Publish_Props Dog_Routing_Props Dog_Queue_Steps Dog_Queue_Race Dog_Codec
    Dog_Link Exp_Props
begin

text \<open>
  A model of the dog gossip protocol and of the experiment that runs it
  (\<open>libp2p-dog/dog/src\<close> and \<open>libp2p-dog/experiment/src\<close>).

  \<^bold>\<open>The program.\<close> A node forwards each transaction it receives for the first time to its
  peers. A peer that gets a transaction twice answers with \<open>HaveTx\<close>, and the node then stops
  forwarding from that source to that peer (it disables the route). Each node measures its
  redundancy, duplicates over first receptions: when it is too low it asks a peer with
  \<open>ResetRoute\<close> to enable a route again, when it is too high it may send another \<open>HaveTx\<close>.
  The behaviour holds these tables and one sender per peer; each connection has a handler that
  takes messages from that sender's queue, writes them to the outbound substream, reads the
  inbound one through the codec, and reports to the behaviour.

  \<^bold>\<open>The theories\<close>, in the order of the imports.

    \<^item> Dog_Prelude: machine types, polls, the random choice, iteration orders, lemma
      collections. F64: doubles as rationals with rounding to nearest even.
    \<^item> Dog_Types (\<open>types.rs\<close>, \<open>error.rs\<close>), Dog_Transform (\<open>transform.rs\<close>), Dog_Config
      (\<open>config.rs\<close>, \<open>ProtocolConfig\<close>), Dog_Display (what is printed), Dog_Sample (a concrete
      choice of the cryptography for the witnesses, and its laws as a locale).
    \<^item> Dog_Time_Cache (\<open>time_cache.rs\<close>): \<open>DuplicateCache\<close> on explicit instants, its invariant,
      and its refinement of a map with expirations (locale \<open>seen_filter\<close>).
    \<^item> Dog_Router, Dog_Controller (\<open>dog.rs\<close>), Dog_Metrics (\<open>metrics.rs\<close>).
    \<^item> Dog_Channel: the contract of \<open>async_channel\<close> as a locale, interpreted on lists.
      Dog_Rpc_Queue (\<open>rpc.rs\<close>) on top of it; Dog_Queue_Steps: the machine of a sender and its
      receivers; Dog_Queue_Race: the length of the queue with the atomic accesses
      interleaved, and with the publishes that are dropped without a subtraction.
    \<^item> Dog_Codec (\<open>protocol.rs\<close>): validation, decoding, encoding.
    \<^item> Dog_Handler, Dog_Handler_Steps, Dog_Handler_Props (\<open>handler.rs\<close>).
    \<^item> Dog_Behaviour (\<open>behaviour.rs\<close>): every handler of the behaviour as a function on the
      state of a node. Dog_Behaviour_Send, Dog_Gossip, Dog_Publish, Dog_Routing: what they do to
      queues, tables and events. Dog_Node, Dog_Node_Steps, Dog_Node_Machine: a node as a step
      relation with its invariant, and a concrete node. Dog_Node_Props, Dog_Publish_Props,
      Dog_Routing_Props: the properties. Dog_Link: two nodes and the substream between them.
    \<^item> Exp_Params (\<open>script_instruction.rs\<close>), Exp_Run (\<open>experiment.rs\<close>, \<open>handler.rs\<close>,
      \<open>connector.rs\<close>, \<open>swarm.rs\<close>, \<open>behaviour.rs\<close>, \<open>main.rs\<close> of the experiment), Exp_Props.

  \<^bold>\<open>Correspondence.\<close> A struct is a record and an enum a datatype with the source's
  constructors; a method is a function that takes and returns the state. \<open>None\<close> as a result
  is a panic, and \<open>Inl\<close> an error. The sequence number and the atomic length of a queue are
  64-bit words: the first is advanced by \<open>checked_add\<close>, the second by operations that wrap.
  Counters that grow by one per message are natural numbers. A hash map is a map; the order in
  which it is iterated, the clock and the random draw of a handler are the \<open>world\<close> it runs
  in, one clock reading for each handler. A pending poll is a value; wakers are not modelled.

  \<^bold>\<open>Code outside the repository\<close> is a parameter with its documented laws: the channels
  (locale \<open>message_channel\<close>), the identities and signatures of libp2p (\<open>libp2p_laws\<close>), byte
  orders (\<open>byteorder_laws\<close>), the framed substreams, the swarm's connection events
  (\<open>connection_events\<close>), the bytes between two nodes (\<open>link\<close>), name lookup, dialling and the transport. The queue of a peer as its
  clients see it is the locale \<open>rpc_channel\<close>, the table of routes \<open>route_table\<close>. Each locale is
  interpreted on the model's definitions or on the concrete choice the witnesses use.

  \<^bold>\<open>What is shown.\<close> For a node: who gets a transaction and that nobody gets it twice within the
  cache time; when routes are disabled and enabled and by whom; how often \<open>HaveTx\<close> is sent; what
  publishing answers on every branch; that sequence numbers increase; that in every reachable
  state the routes and the cache are well formed, two of the gauges show their tables, and the
  forward queues and publish counters are within half the configured length (the gauge of
  peers drifts: lemma \<open>peers_gauge_drifts\<close>). For two neighbours: that a publication crosses
  from queue to queue, and that a redundant link is cut. For the queue: its bounds, its order,
  and what races and dropped publishes cost, exactly. For the codec: exactly what is accepted,
  that it is authentic, and round trips. For the handler: that it never panics, that each poll
  returns, and when it is disabled. For the cache: refinement of its specification and the
  exact lifetime of an entry. For the controller: exactly when it decides what, against the
  exact ratio and its rounding. For the experiment: node numbers and message numbers
  survive their way, and a script ends with its first failure, in the state of that step.

  \<^bold>\<open>Loops.\<close> The loops of the handler's poll are \<open>partial_function (option)\<close>, with a theorem that
  they return; the purge of the cache is a function with a measure; all others are structural.
  No fuel is used. Queues, counters and scripts are unbounded except where the code bounds them.

  \<^bold>\<open>Not modelled.\<close> The code generated from the protobuf schema, \<open>Debug\<close> output, tracing, wakers
  and the scheduling of tasks, the registry of the metrics; the setting up of the loggers; the
  Go client, the Python tooling of the simulator and the build files.
\<close>

end
